(* ===== verification/Prelude.thy ===== *)
theory Prelude
  imports Main "HOL-Library.Word" "HOL-Library.Finite_Map" "HOL-Library.Multiset"
    "HOL-Library.List_Lexorder" "HOL-Library.Char_ord" "HOL-Library.Product_Lexorder"
begin

text \<open>
  Shared vocabulary of the development: Rust's integer widths, \<open>Result\<close>, the ordered
  collections of the standard library (\<open>BTreeMap\<close>, \<open>BTreeSet\<close>, \<open>BinaryHeap<Reverse<_>>\<close>),
  binary search on slices and decimal rendering.

  A \<open>u64\<close> is a 64-bit word. A \<open>usize\<close> only counts elements held in memory or carries a
  configured limit, so it is a natural number. A \<open>BTreeMap\<close> is a finite map whose iteration
  order is the ascending order of its keys; a \<open>BTreeSet\<close> is a finite set enumerated in
  ascending order. A min-heap is the ascending list of its elements, so that \<open>pop\<close> is the
  removal of the least one; \<open>min_heap\<close> states the contract that the components use.
\<close>

section \<open>Machine integers and results\<close>

type_synonym u64 = "64 word"
type_synonym usize = nat

abbreviation Ok :: "'a \<Rightarrow> 'e + 'a" where "Ok \<equiv> Inr"
abbreviation Err :: "'e \<Rightarrow> 'e + 'a" where "Err \<equiv> Inl"

named_theorems result_split \<open>case splits for results of fallible operations\<close>

lemmas result_splits [result_split] = sum.splits prod.splits option.splits if_splits

text \<open>The \<open>?\<close> operator.\<close>

definition try_r :: "'e + 'a \<Rightarrow> ('a \<Rightarrow> 'e + 'b) \<Rightarrow> 'e + 'b" where
  "try_r r f = (case r of Err e \<Rightarrow> Err e | Ok x \<Rightarrow> f x)"

lemma try_r_simps [simp]: "try_r (Err e) f = Err e" "try_r (Ok x) f = f x"
  by (simp_all add: try_r_def)

lemma try_r_cong: "r = r' \<Longrightarrow> try_r r f = try_r r' f"
  by simp

lemma try_r_Ok: "try_r r f = Ok y \<longleftrightarrow> (\<exists>x. r = Ok x \<and> f x = Ok y)"
  by (cases r) auto

lemma try_r_Err: "try_r r f = Err e \<longleftrightarrow> r = Err e \<or> (\<exists>x. r = Ok x \<and> f x = Err e)"
  by (cases r) auto

text \<open>\<open>map_err\<close>, and the conversion that \<open>?\<close> inserts between error types.\<close>

definition map_err :: "('e \<Rightarrow> 'f) \<Rightarrow> 'e + 'a \<Rightarrow> 'f + 'a" where
  "map_err g r = (case r of Err e \<Rightarrow> Err (g e) | Ok x \<Rightarrow> Ok x)"

lemma map_err_simps [simp]: "map_err g (Err e) = Err (g e)" "map_err g (Ok x) = Ok x"
  by (simp_all add: map_err_def)

lemma map_err_Ok_iff [simp]: "map_err g r = Ok x \<longleftrightarrow> r = Ok x"
  by (cases r) auto

lemma map_err_Err_iff: "map_err g r = Err f \<longleftrightarrow> (\<exists>e. r = Err e \<and> f = g e)"
  by (cases r) auto

text \<open>\<open>iter().map(f).collect::<Result<Vec<_>, _>>()\<close>: stops at the first error.\<close>

fun collect_results :: "('a \<Rightarrow> 'e + 'b) \<Rightarrow> 'a list \<Rightarrow> 'e + 'b list" where
  "collect_results f [] = Ok []"
| "collect_results f (x # xs) =
     try_r (f x) (\<lambda>y. try_r (collect_results f xs) (\<lambda>ys. Ok (y # ys)))"

lemma collect_results_Ok:
  "collect_results f xs = Ok ys \<longleftrightarrow> list_all2 (\<lambda>x y. f x = Ok y) xs ys"
  by (induction xs arbitrary: ys) (auto simp: try_r_Ok list_all2_Cons1)

lemma collect_results_map:
  assumes "\<And>x. x \<in> set xs \<Longrightarrow> f (g x) = Ok (h x)"
  shows "collect_results f (map g xs) = Ok (map h xs)"
  using assms by (induction xs) auto

text \<open>A \<open>for\<close> loop whose body may leave with \<open>?\<close>.\<close>

fun try_fold :: "('a \<Rightarrow> 's \<Rightarrow> 'e + 's) \<Rightarrow> 'a list \<Rightarrow> 's \<Rightarrow> 'e + 's" where
  "try_fold f [] s = Ok s"
| "try_fold f (x # xs) s = try_r (f x s) (try_fold f xs)"

lemma try_fold_append: "try_fold f (xs @ ys) s = try_r (try_fold f xs s) (try_fold f ys)"
  by (induction xs arbitrary: s) (simp_all add: try_r_def split: sum.split)

text \<open>\<open>u64::checked_add\<close>.\<close>

definition checked_add :: "u64 \<Rightarrow> u64 \<Rightarrow> u64 option" where
  "checked_add a b = (if unat a + unat b < 2 ^ 64 then Some (a + b) else None)"

lemma checked_add_Some:
  "checked_add a b = Some c \<Longrightarrow> unat c = unat a + unat b"
  by (auto simp: checked_add_def unat_word_ariths split: if_splits)

lemma checked_add_None: "checked_add a b = None \<longleftrightarrow> 2 ^ 64 \<le> unat a + unat b"
  by (auto simp: checked_add_def)

lemma checked_add_le: "checked_add a b = Some c \<Longrightarrow> a \<le> c"
  by (auto dest: checked_add_Some simp: word_le_nat_alt)

lemma unat_less_u64 [simp]: "unat (w :: u64) < 18446744073709551616"
  using unsigned_less [of w, where ?'a = nat] by simp

lemma unat_ge_max_u64 [simp]:
  "18446744073709551615 \<le> unat (w :: u64) \<longleftrightarrow> unat w = 18446744073709551615"
proof -
  have "unat w < 2 ^ LENGTH(64)" by (rule unsigned_less)
  then show ?thesis by (auto simp del: unsigned_less unat_less_u64)
qed

section \<open>Ordered maps and sets\<close>

text \<open>
  \<open>BTreeMap::values\<close> and \<open>BTreeMap::len\<close>; \<open>fm_get d m k\<close> is
  \<open>m.get(k).copied().unwrap_or(d)\<close>, the value that \<open>entry(k).or_default()\<close> starts from.
\<close>

definition fm_values :: "('k::linorder, 'v) fmap \<Rightarrow> 'v list" where
  "fm_values m = map snd (sorted_list_of_fmap m)"

definition fm_len :: "('k, 'v) fmap \<Rightarrow> usize" where
  "fm_len m = fcard (fmdom m)"

definition fm_get :: "'v \<Rightarrow> ('k, 'v) fmap \<Rightarrow> 'k \<Rightarrow> 'v" where
  "fm_get d m k = (case fmlookup m k of None \<Rightarrow> d | Some v \<Rightarrow> v)"

text \<open>Insertion into an ascending association list: what an update does to the entries.\<close>

fun alist_put :: "'k::linorder \<Rightarrow> 'v \<Rightarrow> ('k \<times> 'v) list \<Rightarrow> ('k \<times> 'v) list" where
  "alist_put k v [] = [(k, v)]"
| "alist_put k v ((k', v') # xs) =
     (if k < k' then (k, v) # (k', v') # xs
      else if k = k' then (k, v) # xs
      else (k', v') # alist_put k v xs)"

lemma strict_sorted_entries_unique:
  assumes "sorted_wrt (<) (map fst xs)" "sorted_wrt (<) (map fst ys)" "set xs = set ys"
  shows "xs = (ys :: ('k::linorder \<times> 'v) list)"
proof (rule map_sorted_distinct_set_unique)
  have "inj_on fst (set xs)"
    using assms(1) by (simp add: strict_sorted_iff distinct_map)
  then show "inj_on fst (set xs \<union> set ys)" by (simp add: assms(3))
qed (use assms in \<open>simp_all add: strict_sorted_iff\<close>)

lemma sorted_list_of_fset_strict [simp]: "sorted_wrt (<) (sorted_list_of_fset S)"
  by (simp add: sorted_list_of_fset.rep_eq)

lemma distinct_sorted_list_of_fset [simp]: "distinct (sorted_list_of_fset S)"
  using sorted_list_of_fset_strict [of S] by (simp add: strict_sorted_iff)

lemma length_sorted_list_of_fset [simp]: "length (sorted_list_of_fset S) = fcard S"
  by (simp add: sorted_list_of_fset.rep_eq fcard.rep_eq)

lemma map_fst_entries [simp]:
  "map fst (sorted_list_of_fmap m) = sorted_list_of_fset (fmdom m)"
  by (simp add: sorted_list_of_fmap_def comp_def)

lemma set_entries: "set (sorted_list_of_fmap m) = {(k, v). fmlookup m k = Some v}"
  by (auto simp: sorted_list_of_fmap_def fmlookup_dom_iff image_iff)

lemma distinct_entries [simp]: "distinct (sorted_list_of_fmap m)"
  by (rule distinct_map [THEN iffD1, THEN conjunct1, of fst]) simp

lemma in_fm_values: "v \<in> set (fm_values m) \<longleftrightarrow> (\<exists>k. fmlookup m k = Some v)"
  by (force simp: fm_values_def set_entries)

lemma length_fm_values [simp]: "length (fm_values m) = fm_len m"
  using arg_cong [OF map_fst_entries, of length m]
  by (simp add: fm_values_def fm_len_def del: map_fst_entries)

lemma entries_eqI:
  assumes "sorted_wrt (<) (map fst xs)" "\<And>k v. (k, v) \<in> set xs \<longleftrightarrow> fmlookup m k = Some v"
  shows "sorted_list_of_fmap m = xs"
  using assms by (intro strict_sorted_entries_unique) (auto simp: set_entries)

lemma set_alist_put:
  "sorted_wrt (<) (map fst xs) \<Longrightarrow>
    set (alist_put k v xs) = insert (k, v) {e \<in> set xs. fst e \<noteq> k}"
proof (induction k v xs rule: alist_put.induct)
  case (2 k v k' v' xs)
  then have "\<forall>e \<in> set xs. k' < fst e" by simp
  with 2 show ?case by auto
qed simp

lemma sorted_alist_put:
  "sorted_wrt (<) (map fst xs) \<Longrightarrow> sorted_wrt (<) (map fst (alist_put k v xs))"
proof (induction k v xs rule: alist_put.induct)
  case (2 k v k' v' xs)
  then show ?case by (auto simp: set_alist_put)
qed simp

lemma entries_empty [simp]: "sorted_list_of_fmap fmempty = []"
  by (rule entries_eqI) auto

lemma entries_upd [simp]:
  "sorted_list_of_fmap (fmupd k v m) = alist_put k v (sorted_list_of_fmap m)"
  by (rule entries_eqI) (auto simp: set_entries set_alist_put sorted_alist_put)

lemma entries_drop [simp]:
  "sorted_list_of_fmap (fmdrop k m) = filter (\<lambda>e. fst e \<noteq> k) (sorted_list_of_fmap m)"
proof (rule entries_eqI)
  have "sorted_wrt (\<lambda>a b. fst a < fst b) (sorted_list_of_fmap m)"
    using sorted_list_of_fset_strict [of "fmdom m"]
    by (simp only: map_fst_entries [symmetric] sorted_wrt_map)
  then show "sorted_wrt (<) (map fst (filter (\<lambda>e. fst e \<noteq> k) (sorted_list_of_fmap m)))"
    by (simp add: sorted_wrt_map sorted_wrt_filter)
qed (auto simp: set_entries)

lemma set_sorted_list_of_fset: "set (sorted_list_of_fset S) = fset S"
  by (simp add: sorted_list_of_fset.rep_eq)

lemma set_sorted_fset_of_list [simp]: "set (sorted_list_of_fset (fset_of_list xs)) = set xs"
  by (simp add: sorted_list_of_fset.rep_eq fset_of_list.rep_eq)

lemma sorted_list_of_fset_empty [simp]: "sorted_list_of_fset {||} = []"
  by (simp add: sorted_list_of_fset.rep_eq)

lemma sorted_list_of_fset_insert [simp]:
  "sorted_list_of_fset (finsert x S) = insort_insert x (sorted_list_of_fset S)"
  by (cases "x |\<in>| S") (simp_all add: sorted_list_of_fset.rep_eq insort_insert_key_def finsert_absorb)

lemma fm_len_empty [simp]: "fm_len fmempty = 0"
  by (simp add: fm_len_def)

lemma fm_len_upd [simp]: "fm_len (fmupd k v m) = (if k |\<in>| fmdom m then fm_len m else Suc (fm_len m))"
  by (simp add: fm_len_def fcard_finsert_if)

lemma fm_len_drop [simp]: "fm_len (fmdrop k m) = (if k |\<in>| fmdom m then fm_len m - 1 else fm_len m)"
  by (auto simp: fm_len_def fcard.rep_eq)

lemma fm_get_upd [simp]: "fm_get d (fmupd k v m) k' = (if k' = k then v else fm_get d m k')"
  by (simp add: fm_get_def)

lemma fm_get_drop [simp]: "fm_get d (fmdrop k m) k' = (if k' = k then d else fm_get d m k')"
  by (simp add: fm_get_def)

lemma fm_get_empty [simp]: "fm_get d fmempty k = d"
  by (simp add: fm_get_def)

text \<open>Entering the elements of a list into a map under their keys.\<close>

definition fm_enter :: "('a \<Rightarrow> 'k) \<Rightarrow> ('a \<Rightarrow> 'v) \<Rightarrow> 'a list \<Rightarrow> ('k, 'v) fmap \<Rightarrow> ('k, 'v) fmap" where
  "fm_enter key val xs = fold (\<lambda>x. fmupd (key x) (val x)) xs"

lemma fm_enter_simps [simp]:
  "fm_enter key val [] m = m"
  "fm_enter key val (x # xs) m = fm_enter key val xs (fmupd (key x) (val x) m)"
  by (simp_all add: fm_enter_def)

lemma lookup_enter:
  "distinct (map key xs) \<Longrightarrow> fmlookup (fm_enter key val xs m) k = Some v \<longleftrightarrow>
     (\<exists>x \<in> set xs. key x = k \<and> val x = v) \<or> k \<notin> key ` set xs \<and> fmlookup m k = Some v"
  by (induction xs arbitrary: m) (auto simp: image_iff)

lemma dom_enter [simp]: "fset (fmdom (fm_enter key val xs m)) = key ` set xs \<union> fset (fmdom m)"
  by (induction xs arbitrary: m) auto

lemma fm_values_enter:
  assumes "\<And>k v. fmlookup m k = Some v \<Longrightarrow> key v = k"
  shows "map key (fm_values m) = sorted_list_of_fset (fmdom m)"
    and "fm_enter key id (fm_values m) fmempty = m"
proof -
  have "map key (fm_values m) = map fst (sorted_list_of_fmap m)"
    using assms by (simp add: fm_values_def set_entries del: map_fst_entries)
  then show keys: "map key (fm_values m) = sorted_list_of_fset (fmdom m)" by simp
  show "fm_enter key id (fm_values m) fmempty = m"
  proof (rule fmap_ext)
    fix k
    have "fmlookup (fm_enter key id (fm_values m) fmempty) k = Some v \<longleftrightarrow> fmlookup m k = Some v" for v
      using assms by (auto simp: lookup_enter keys in_fm_values)
    then show "fmlookup (fm_enter key id (fm_values m) fmempty) k = fmlookup m k"
      by (metis not_Some_eq)
  qed
qed

text \<open>
  A fallible loop that enters records into one table of its state: it succeeds on good records with
  distinct keys that are not in the table yet.  \<open>R\<close> is what the checks read of the rest of the state.
\<close>

lemma try_fold_enter:
  assumes "\<And>x s s'. R s \<Longrightarrow> f x s = Ok s' \<longleftrightarrow>
      good x \<and> key x |\<notin>| fmdom (tab s) \<and> s' = put (fmupd (key x) (val x)) s"
    and "\<And>g s. R s \<Longrightarrow> R (put g s)" "\<And>g s. tab (put g s) = g (tab s)"
    and "\<And>g h s. put g (put h s) = put (\<lambda>m. g (h m)) s" "\<And>s. put (\<lambda>m. m) s = s"
  shows "R s \<Longrightarrow> try_fold f xs s = Ok s' \<longleftrightarrow>
    (\<forall>x \<in> set xs. good x \<and> key x |\<notin>| fmdom (tab s)) \<and> distinct (map key xs) \<and> s' = put (fm_enter key val xs) s"
proof (induction xs arbitrary: s)
  case Nil
  then show ?case using assms(5) by (auto simp: fm_enter_def id_def)
next
  case (Cons x xs)
  have "try_fold f (x # xs) s = Ok s' \<longleftrightarrow> good x \<and> key x |\<notin>| fmdom (tab s) \<and>
      try_fold f xs (put (fmupd (key x) (val x)) s) = Ok s'"
    using assms(1) [OF Cons.prems] by (simp add: try_r_Ok)
  also have "\<dots> \<longleftrightarrow> good x \<and> key x |\<notin>| fmdom (tab s) \<and>
      (\<forall>y \<in> set xs. good y \<and> key y \<noteq> key x \<and> key y |\<notin>| fmdom (tab s)) \<and> distinct (map key xs) \<and>
      s' = put (\<lambda>m. fm_enter key val (x # xs) m) s"
    using Cons.IH [OF assms(2) [OF Cons.prems]] by (simp add: assms(3,4))
  finally show ?case by (auto simp: image_iff)
qed

section \<open>Binary search\<close>

text \<open>
  \<open>slice::binary_search_by\<close> by halving the interval; \<open>.ok()\<close> keeps the index found. The
  slice has to be ascending in the compared key for the answer to mean anything, which is what
  \<open>bsearch_Some_iff\<close> assumes.
\<close>

function bsearch_range :: "('a \<Rightarrow> 'k::linorder) \<Rightarrow> 'a list \<Rightarrow> 'k \<Rightarrow> nat \<Rightarrow> nat \<Rightarrow> nat option" where
  "bsearch_range key xs k lo hi =
     (if lo < hi then
        let mid = (lo + hi) div 2 in
        if key (xs ! mid) = k then Some mid
        else if key (xs ! mid) < k then bsearch_range key xs k (Suc mid) hi
        else bsearch_range key xs k lo mid
      else None)"
  by pat_completeness auto
termination
  by (relation "measure (\<lambda>(key, xs, k, lo, hi). hi - lo)") auto

declare bsearch_range.simps [simp del]

definition bsearch :: "('a \<Rightarrow> 'k::linorder) \<Rightarrow> 'a list \<Rightarrow> 'k \<Rightarrow> nat option" where
  "bsearch key xs k = bsearch_range key xs k 0 (length xs)"

lemma bsearch_range_sound:
  "bsearch_range key xs k lo hi = Some i \<Longrightarrow> lo \<le> i \<and> i < hi \<and> key (xs ! i) = k"
proof (induction key xs k lo hi rule: bsearch_range.induct)
  case (1 key xs k lo hi)
  define mid where "mid = (lo + hi) div 2"
  from 1(3) have less: "lo < hi"
    by (subst (asm) bsearch_range.simps) (simp split: if_splits)
  then have mid: "lo \<le> mid" "mid < hi" by (auto simp: mid_def)
  from 1(3) less consider "key (xs ! mid) = k" "i = mid"
    | "key (xs ! mid) \<noteq> k" "key (xs ! mid) < k" "bsearch_range key xs k (Suc mid) hi = Some i"
    | "key (xs ! mid) \<noteq> k" "\<not> key (xs ! mid) < k" "bsearch_range key xs k lo mid = Some i"
    by (subst (asm) bsearch_range.simps) (auto simp: Let_def mid_def split: if_splits)
  then show ?case
  proof cases
    case 2
    with 1(1) [OF less mid_def] mid show ?thesis by simp
  next
    case 3
    with 1(2) [OF less mid_def] mid show ?thesis by simp
  qed (use mid in simp)
qed

lemma bsearch_range_complete:
  assumes "sorted (map key xs)" "hi \<le> length xs"
    and "bsearch_range key xs k lo hi = None" "lo \<le> i" "i < hi"
  shows "key (xs ! i) \<noteq> k"
  using assms
proof (induction key xs k lo hi rule: bsearch_range.induct)
  case (1 key xs k lo hi)
  define mid where "mid = (lo + hi) div 2"
  have less: "lo < hi" using 1(6,7) by simp
  then have mid: "lo \<le> mid" "mid < hi" by (auto simp: mid_def)
  have mono: "a \<le> b \<Longrightarrow> b < hi \<Longrightarrow> key (xs ! a) \<le> key (xs ! b)" for a b
    using sorted_nth_mono [OF 1(3), of a b] 1(4) by simp
  from 1(5) less have neq: "key (xs ! mid) \<noteq> k"
    by (subst (asm) bsearch_range.simps) (auto simp: Let_def mid_def split: if_splits)
  show ?case
  proof (cases "key (xs ! mid) < k")
    case True
    with 1(5) less neq have none: "bsearch_range key xs k (Suc mid) hi = None"
      by (subst (asm) bsearch_range.simps) (simp add: Let_def mid_def)
    show ?thesis
    proof (cases "i \<le> mid")
      case le: True
      with mono [OF le mid(2)] True show ?thesis by auto
    next
      case False
      with 1(1) [OF less mid_def neq True 1(3,4) none] 1(7) show ?thesis by simp
    qed
  next
    case False
    with 1(5) less neq have none: "bsearch_range key xs k lo mid = None"
      by (subst (asm) bsearch_range.simps) (simp add: Let_def mid_def)
    show ?thesis
    proof (cases "i < mid")
      case True
      with 1(2) [OF less mid_def neq False 1(3) _ none 1(6)] 1(4) mid show ?thesis by simp
    next
      case ge: False
      with mono [of mid i] 1(7) False neq show ?thesis by force
    qed
  qed
qed

lemma bsearch_Some_iff:
  assumes "sorted (map key xs)"
  shows "(\<exists>i. bsearch key xs k = Some i) \<longleftrightarrow> k \<in> key ` set xs"
proof
  assume "\<exists>i. bsearch key xs k = Some i"
  then show "k \<in> key ` set xs"
    by (auto simp: bsearch_def dest!: bsearch_range_sound)
next
  assume "k \<in> key ` set xs"
  then obtain i where i: "i < length xs" "key (xs ! i) = k"
    by (auto simp: in_set_conv_nth)
  show "\<exists>i. bsearch key xs k = Some i"
    using bsearch_range_complete [OF assms order_refl, of k 0 i] i
    by (cases "bsearch key xs k") (auto simp: bsearch_def)
qed

section \<open>Decimal rendering\<close>

text \<open>\<open>Display\<close> for unsigned integers.\<close>

fun show_nat :: "nat \<Rightarrow> string" where
  "show_nat n = (if n < 10 then [char_of (48 + n)]
     else show_nat (n div 10) @ [char_of (48 + n mod 10)])"

declare show_nat.simps [simp del]

abbreviation show_u64 :: "u64 \<Rightarrow> string" where
  "show_u64 w \<equiv> show_nat (unat w)"

end
