(* ===== verification/Policy.thy ===== *)
theory Policy
  imports Prelude
begin

text \<open>
  \<open>agent-broker-domain/src/policy.rs\<close> (bounded policy values) and
  \<open>agent-broker-domain/src/quorum.rs\<close> (majority arithmetic).
\<close>

section \<open>Bounded policy values\<close>

definition MIN_LEASE_DURATION_MS :: u64 where "MIN_LEASE_DURATION_MS = 1000"
definition MAX_LEASE_DURATION_MS :: u64 where "MAX_LEASE_DURATION_MS = 30 * 60 * 1000"
definition MAX_MAINTENANCE_BATCH :: usize where "MAX_MAINTENANCE_BATCH = 4096"

datatype PolicyError =
    LeaseDurationOutOfRange
  | MaintenanceBatchOutOfRange string
  | ZeroCapacity string

fun PolicyError_display :: "PolicyError \<Rightarrow> string" where
  "PolicyError_display LeaseDurationOutOfRange =
     ''lease_duration_ms must be between 1000 and 1800000 milliseconds''"
| "PolicyError_display (MaintenanceBatchOutOfRange field) =
     field @ '' must be between 1 and '' @ show_nat MAX_MAINTENANCE_BATCH"
| "PolicyError_display (ZeroCapacity field) = field @ '' must be positive''"

type_synonym LeaseDurationMs = u64

definition LeaseDurationMs_new :: "u64 \<Rightarrow> PolicyError + LeaseDurationMs" where
  "LeaseDurationMs_new v =
     (if v < MIN_LEASE_DURATION_MS \<or> v > MAX_LEASE_DURATION_MS
      then Err LeaseDurationOutOfRange else Ok v)"

text \<open>The constructor that \<open>define_maintenance_limit\<close> gives to both limits.\<close>

definition maintenance_limit_new :: "string \<Rightarrow> usize \<Rightarrow> PolicyError + usize" where
  "maintenance_limit_new field v =
     (if v = 0 \<or> v > MAX_MAINTENANCE_BATCH then Err (MaintenanceBatchOutOfRange field) else Ok v)"

definition ReapMemberLimit_new :: "usize \<Rightarrow> PolicyError + usize" where
  "ReapMemberLimit_new = maintenance_limit_new ''max_members''"

definition PruneTaskLimit_new :: "usize \<Rightarrow> PolicyError + usize" where
  "PruneTaskLimit_new = maintenance_limit_new ''max_tasks''"

record BrokerCapacityPolicy =
  max_namespaces :: usize
  max_tasks_per_namespace :: usize
  max_groups_per_namespace :: usize
  max_members_per_group :: usize

definition BrokerCapacityPolicy_default :: BrokerCapacityPolicy where
  "BrokerCapacityPolicy_default =
     \<lparr>max_namespaces = 64, max_tasks_per_namespace = 4096,
      max_groups_per_namespace = 64, max_members_per_group = 256\<rparr>"

definition positive_capacity :: "usize \<Rightarrow> string \<Rightarrow> PolicyError + usize" where
  "positive_capacity v field = (if v = 0 then Err (ZeroCapacity field) else Ok v)"

definition BrokerCapacityPolicy_new ::
  "usize \<Rightarrow> usize \<Rightarrow> usize \<Rightarrow> usize \<Rightarrow> PolicyError + BrokerCapacityPolicy" where
  "BrokerCapacityPolicy_new ns ts gs ms =
     try_r (positive_capacity ns ''max_namespaces'') (\<lambda>ns.
     try_r (positive_capacity ts ''max_tasks_per_namespace'') (\<lambda>ts.
     try_r (positive_capacity gs ''max_groups_per_namespace'') (\<lambda>gs.
     try_r (positive_capacity ms ''max_members_per_group'') (\<lambda>ms.
     Ok \<lparr>max_namespaces = ns, max_tasks_per_namespace = ts,
         max_groups_per_namespace = gs, max_members_per_group = ms\<rparr>))))"

lemma positive_capacity_Ok: "positive_capacity v f = Ok w \<longleftrightarrow> 0 < v \<and> w = v"
  by (auto simp: positive_capacity_def)

text \<open>
  A capacity policy that exists admits at least one entity of every kind: the constructor accepts
  exactly the all-positive limits and stores them unchanged.
\<close>

lemma BrokerCapacityPolicy_new_Ok:
  "BrokerCapacityPolicy_new ns ts gs ms = Ok p \<longleftrightarrow>
     0 < ns \<and> 0 < ts \<and> 0 < gs \<and> 0 < ms \<and>
     p = \<lparr>max_namespaces = ns, max_tasks_per_namespace = ts,
          max_groups_per_namespace = gs, max_members_per_group = ms\<rparr>"
  by (auto simp: BrokerCapacityPolicy_new_def try_r_Ok positive_capacity_Ok)

lemma LeaseDurationMs_new_Ok:
  "LeaseDurationMs_new v = Ok d \<longleftrightarrow> 1000 \<le> unat v \<and> unat v \<le> 1800000 \<and> d = v"
  by (auto simp: LeaseDurationMs_new_def MIN_LEASE_DURATION_MS_def MAX_LEASE_DURATION_MS_def
      word_less_nat_alt word_le_nat_alt)

lemma maintenance_limit_new_Ok:
  "maintenance_limit_new f v = Ok n \<longleftrightarrow> 1 \<le> v \<and> v \<le> 4096 \<and> n = v"
  by (auto simp: maintenance_limit_new_def MAX_MAINTENANCE_BATCH_def)

section \<open>Quorums\<close>

datatype QuorumPolicyError = EmptyCluster

definition QuorumPolicyError_display :: "QuorumPolicyError \<Rightarrow> string" where
  "QuorumPolicyError_display e = ''Broker cluster node_count must be at least 1''"

record QuorumPolicy = node_count :: usize

definition QuorumPolicy_new :: "usize \<Rightarrow> QuorumPolicyError + QuorumPolicy" where
  "QuorumPolicy_new n = (if n = 0 then Err EmptyCluster else Ok \<lparr>node_count = n\<rparr>)"

definition majority :: "QuorumPolicy \<Rightarrow> usize" where
  "majority p = node_count p div 2 + 1"

definition tolerated_failures :: "QuorumPolicy \<Rightarrow> usize" where
  "tolerated_failures p = node_count p - majority p"

definition has_high_availability :: "QuorumPolicy \<Rightarrow> bool" where
  "has_high_availability p \<longleftrightarrow> tolerated_failures p > 0"

definition has_odd_membership :: "QuorumPolicy \<Rightarrow> bool" where
  "has_odd_membership p \<longleftrightarrow> node_count p mod 2 = 1"

lemma majority_le_nodes: "QuorumPolicy_new n = Ok p \<Longrightarrow> majority p \<le> node_count p"
  by (auto simp: QuorumPolicy_new_def majority_def split: if_splits)

lemma majorities_intersect:
  assumes "QuorumPolicy_new (card N) = Ok p"
    and "A \<subseteq> N" "B \<subseteq> N" "majority p \<le> card A" "majority p \<le> card B"
  shows "A \<inter> B \<noteq> {}"
proof
  assume "A \<inter> B = {}"
  have fin: "finite N" using assms(1) by (auto simp: QuorumPolicy_new_def card_eq_0_iff split: if_splits)
  then have "card A + card B \<le> card N"
    using assms(2,3) card_mono [of N "A \<union> B"] \<open>A \<inter> B = {}\<close>
    by (simp add: card_Un_disjoint finite_subset)
  with assms show False
    by (auto simp: QuorumPolicy_new_def majority_def split: if_splits)
qed

lemma tolerated_failures_exact:
  assumes "QuorumPolicy_new n = Ok p"
  shows "majority p \<le> n - f \<longleftrightarrow> f \<le> tolerated_failures p"
  using assms by (auto simp: QuorumPolicy_new_def majority_def tolerated_failures_def split: if_splits)

lemma high_availability_iff:
  "QuorumPolicy_new n = Ok p \<Longrightarrow> has_high_availability p \<longleftrightarrow> 3 \<le> n"
  by (auto simp: QuorumPolicy_new_def has_high_availability_def tolerated_failures_def majority_def
      split: if_splits)

text \<open>An even cluster tolerates no more failures than the odd one with a node less.\<close>

lemma even_cluster_no_gain:
  assumes "QuorumPolicy_new (Suc n) = Ok p" "\<not> has_odd_membership p"
  shows "tolerated_failures p = tolerated_failures \<lparr>node_count = n\<rparr>"
proof -
  from assms(1) have p: "node_count p = Suc n"
    by (auto simp: QuorumPolicy_new_def)
  with assms(2) have "Suc n mod 2 \<noteq> 1"
    by (simp add: has_odd_membership_def)
  then have "Suc n - (Suc n div 2 + 1) = n - (n div 2 + 1)"
    by presburger
  with p show ?thesis
    by (simp add: tolerated_failures_def majority_def)
qed

end
