(* ===== verification/Identifiers.thy ===== *)
theory Identifiers
  imports Prelude
begin

text \<open>
  \<open>agent-broker-domain/src/identifiers.rs\<close>: the five validated identifier types. Each is a
  newtype over a string of bytes, ordered as its text is. \<open>valid_identifier\<close> is the grammar
  they promise; \<open>validated_text\<close> is the interface that persistence and the wire formats rely
  on, and every type interprets it.
\<close>

section \<open>Validation\<close>

record IdentifierError =
  ide_kind :: string
  ide_reason :: string

definition IdentifierError_display :: "IdentifierError \<Rightarrow> string" where
  "IdentifierError_display e = ''invalid '' @ ide_kind e @ '': '' @ ide_reason e"

definition IdentifierError_new :: "string \<Rightarrow> string \<Rightarrow> IdentifierError" where
  "IdentifierError_new kind reason = \<lparr>ide_kind = kind, ide_reason = reason\<rparr>"

definition MAX_IDENTIFIER_BYTES :: usize where "MAX_IDENTIFIER_BYTES = 128"

text \<open>\<open>u8::is_ascii_alphanumeric\<close>, and the bytes an identifier may hold after its first.\<close>

definition is_ascii_alphanumeric :: "char \<Rightarrow> bool" where
  "is_ascii_alphanumeric c \<longleftrightarrow> (let n = (of_char c :: nat) in
     48 \<le> n \<and> n \<le> 57 \<or> 65 \<le> n \<and> n \<le> 90 \<or> 97 \<le> n \<and> n \<le> 122)"

definition is_identifier_byte :: "char \<Rightarrow> bool" where
  "is_identifier_byte c \<longleftrightarrow>
     is_ascii_alphanumeric c \<or> c \<in> {CHR ''_'', CHR ''.'', CHR '':'', CHR ''-''}"

definition validate_identifier :: "string \<Rightarrow> string \<Rightarrow> IdentifierError + unit" where
  "validate_identifier raw kind =
     (if raw = [] then Err (IdentifierError_new kind ''must not be empty'')
      else if length raw > MAX_IDENTIFIER_BYTES then
        Err (IdentifierError_new kind ''must be at most 128 ASCII bytes'')
      else case raw of
        [] \<Rightarrow> Err (IdentifierError_new kind ''must not be empty'')
      | first # bytes \<Rightarrow>
          if \<not> is_ascii_alphanumeric first then
            Err (IdentifierError_new kind ''must start with an ASCII alphanumeric character'')
          else if \<not> list_all is_identifier_byte bytes then
            Err (IdentifierError_new kind ''contains unsupported characters'')
          else Ok ())"

section \<open>Identifier types\<close>

datatype NamespaceId = NamespaceId (ns_str: string)

instantiation NamespaceId :: linorder
begin

definition less_eq_NamespaceId :: "NamespaceId \<Rightarrow> NamespaceId \<Rightarrow> bool" where
  "a \<le> b \<longleftrightarrow> ns_str a \<le> ns_str b"

definition less_NamespaceId :: "NamespaceId \<Rightarrow> NamespaceId \<Rightarrow> bool" where
  "a < b \<longleftrightarrow> ns_str a < ns_str b"

instance
  by standard (auto simp: less_eq_NamespaceId_def less_NamespaceId_def NamespaceId.expand)

end

definition NamespaceId_new :: "string \<Rightarrow> IdentifierError + NamespaceId" where
  "NamespaceId_new raw = try_r (validate_identifier raw ''namespace_id'') (\<lambda>_. Ok (NamespaceId raw))"

datatype TaskId = TaskId (task_str: string)

instantiation TaskId :: linorder
begin

definition less_eq_TaskId :: "TaskId \<Rightarrow> TaskId \<Rightarrow> bool" where
  "a \<le> b \<longleftrightarrow> task_str a \<le> task_str b"

definition less_TaskId :: "TaskId \<Rightarrow> TaskId \<Rightarrow> bool" where
  "a < b \<longleftrightarrow> task_str a < task_str b"

instance
  by standard (auto simp: less_eq_TaskId_def less_TaskId_def TaskId.expand)

end

definition TaskId_new :: "string \<Rightarrow> IdentifierError + TaskId" where
  "TaskId_new raw = try_r (validate_identifier raw ''task_id'') (\<lambda>_. Ok (TaskId raw))"

datatype ConsumerGroupId = ConsumerGroupId (group_str: string)

instantiation ConsumerGroupId :: linorder
begin

definition less_eq_ConsumerGroupId :: "ConsumerGroupId \<Rightarrow> ConsumerGroupId \<Rightarrow> bool" where
  "a \<le> b \<longleftrightarrow> group_str a \<le> group_str b"

definition less_ConsumerGroupId :: "ConsumerGroupId \<Rightarrow> ConsumerGroupId \<Rightarrow> bool" where
  "a < b \<longleftrightarrow> group_str a < group_str b"

instance
  by standard (auto simp: less_eq_ConsumerGroupId_def less_ConsumerGroupId_def ConsumerGroupId.expand)

end

definition ConsumerGroupId_new :: "string \<Rightarrow> IdentifierError + ConsumerGroupId" where
  "ConsumerGroupId_new raw = try_r (validate_identifier raw ''group_id'') (\<lambda>_. Ok (ConsumerGroupId raw))"

datatype ConsumerId = ConsumerId (consumer_str: string)

instantiation ConsumerId :: linorder
begin

definition less_eq_ConsumerId :: "ConsumerId \<Rightarrow> ConsumerId \<Rightarrow> bool" where
  "a \<le> b \<longleftrightarrow> consumer_str a \<le> consumer_str b"

definition less_ConsumerId :: "ConsumerId \<Rightarrow> ConsumerId \<Rightarrow> bool" where
  "a < b \<longleftrightarrow> consumer_str a < consumer_str b"

instance
  by standard (auto simp: less_eq_ConsumerId_def less_ConsumerId_def ConsumerId.expand)

end

definition ConsumerId_new :: "string \<Rightarrow> IdentifierError + ConsumerId" where
  "ConsumerId_new raw = try_r (validate_identifier raw ''member_id'') (\<lambda>_. Ok (ConsumerId raw))"

datatype LeaseId = LeaseId (lease_str: string)

instantiation LeaseId :: linorder
begin

definition less_eq_LeaseId :: "LeaseId \<Rightarrow> LeaseId \<Rightarrow> bool" where
  "a \<le> b \<longleftrightarrow> lease_str a \<le> lease_str b"

definition less_LeaseId :: "LeaseId \<Rightarrow> LeaseId \<Rightarrow> bool" where
  "a < b \<longleftrightarrow> lease_str a < lease_str b"

instance
  by standard (auto simp: less_eq_LeaseId_def less_LeaseId_def LeaseId.expand)

end

definition LeaseId_new :: "string \<Rightarrow> IdentifierError + LeaseId" where
  "LeaseId_new raw = try_r (validate_identifier raw ''lease_id'') (\<lambda>_. Ok (LeaseId raw))"

section \<open>The identifier grammar\<close>

fun valid_identifier :: "usize \<Rightarrow> string \<Rightarrow> bool" where
  "valid_identifier n [] \<longleftrightarrow> False"
| "valid_identifier n (c # cs) \<longleftrightarrow>
     is_ascii_alphanumeric c \<and> list_all is_identifier_byte cs \<and> Suc (length cs) \<le> n"

lemma validate_identifier_Ok:
  "validate_identifier raw kind = Ok u \<longleftrightarrow> valid_identifier 128 raw"
  by (cases raw) (auto simp: validate_identifier_def MAX_IDENTIFIER_BYTES_def)

text \<open>
  A validated text type: construction accepts exactly the valid texts and keeps the text it was
  given, and the text determines the value.
\<close>

locale validated_text =
  fixes new :: "string \<Rightarrow> 'e + 'a" and as_str :: "'a \<Rightarrow> string" and valid :: "string \<Rightarrow> bool"
  assumes new_accepts: "valid s \<Longrightarrow> \<exists>x. new s = Ok x"
    and new_valid: "new s = Ok x \<Longrightarrow> valid s"
    and new_text: "new s = Ok x \<Longrightarrow> as_str x = s"
    and text_inj: "as_str x = as_str y \<Longrightarrow> x = y"
begin

lemma reparse: "valid (as_str x) \<Longrightarrow> new (as_str x) = Ok x"
  using new_accepts new_text text_inj by metis

lemma new_Ok_iff: "new s = Ok x \<longleftrightarrow> valid s \<and> as_str x = s"
  using reparse new_valid new_text by metis

lemma new_rejects: "\<not> valid s \<Longrightarrow> \<exists>e. new s = Err e"
  using new_valid by (cases "new s") auto

lemma reparse_list:
  "\<forall>x \<in> set xs. valid (as_str x) \<Longrightarrow> collect_results new (map as_str xs) = Ok xs"
  using collect_results_map [of xs new as_str id] reparse by simp

end

lemma NamespaceId_le [simp]: "NamespaceId a \<le> NamespaceId b \<longleftrightarrow> a \<le> b" "NamespaceId a < NamespaceId b \<longleftrightarrow> a < b"
  by (simp_all add: less_eq_NamespaceId_def less_NamespaceId_def)

lemma TaskId_le [simp]: "TaskId a \<le> TaskId b \<longleftrightarrow> a \<le> b" "TaskId a < TaskId b \<longleftrightarrow> a < b"
  by (simp_all add: less_eq_TaskId_def less_TaskId_def)

lemma ConsumerGroupId_le [simp]: "ConsumerGroupId a \<le> ConsumerGroupId b \<longleftrightarrow> a \<le> b" "ConsumerGroupId a < ConsumerGroupId b \<longleftrightarrow> a < b"
  by (simp_all add: less_eq_ConsumerGroupId_def less_ConsumerGroupId_def)

lemma ConsumerId_le [simp]: "ConsumerId a \<le> ConsumerId b \<longleftrightarrow> a \<le> b" "ConsumerId a < ConsumerId b \<longleftrightarrow> a < b"
  by (simp_all add: less_eq_ConsumerId_def less_ConsumerId_def)

lemma LeaseId_le [simp]: "LeaseId a \<le> LeaseId b \<longleftrightarrow> a \<le> b" "LeaseId a < LeaseId b \<longleftrightarrow> a < b"
  by (simp_all add: less_eq_LeaseId_def less_LeaseId_def)

interpretation nsid: validated_text NamespaceId_new ns_str "valid_identifier 128"
  by unfold_locales (auto simp: NamespaceId_new_def try_r_Ok validate_identifier_Ok NamespaceId.expand)

interpretation tid: validated_text TaskId_new task_str "valid_identifier 128"
  by unfold_locales (auto simp: TaskId_new_def try_r_Ok validate_identifier_Ok TaskId.expand)

interpretation gid: validated_text ConsumerGroupId_new group_str "valid_identifier 128"
  by unfold_locales (auto simp: ConsumerGroupId_new_def try_r_Ok validate_identifier_Ok ConsumerGroupId.expand)

interpretation cid: validated_text ConsumerId_new consumer_str "valid_identifier 128"
  by unfold_locales (auto simp: ConsumerId_new_def try_r_Ok validate_identifier_Ok ConsumerId.expand)

interpretation lid: validated_text LeaseId_new lease_str "valid_identifier 128"
  by unfold_locales (auto simp: LeaseId_new_def try_r_Ok validate_identifier_Ok LeaseId.expand)

end
