(* ===== verification/Fencing.thy ===== *)
theory Fencing
  imports Prelude
begin

text \<open>
  \<open>agent-broker-domain/src/fencing.rs\<close>: the monotonic counters that fence stale authority. All
  are 64-bit words; a term is never zero. \<open>fencing_counter\<close> states the contract, that \<open>next\<close>
  either adds exactly one or reports exhaustion, and each counter interprets it.
\<close>

datatype FencingValueError = ZeroTerm | Overflow (overflow_counter: string)

fun FencingValueError_display :: "FencingValueError \<Rightarrow> string" where
  "FencingValueError_display ZeroTerm = ''broker term must be at least 1''"
| "FencingValueError_display (Overflow counter) =
     counter @ '' overflowed and cannot advance without violating monotonic fencing''"

type_synonym Term = u64
type_synonym Generation = u64
type_synonym LeaseEpoch = u64
type_synonym Revision = u64

definition Term_INITIAL :: Term where "Term_INITIAL = 1"

definition Term_new :: "u64 \<Rightarrow> FencingValueError + Term" where
  "Term_new v = (if v = 0 then Err ZeroTerm else Ok v)"

definition Term_next :: "Term \<Rightarrow> FencingValueError + Term" where
  "Term_next self = (case checked_add self 1 of
     None \<Rightarrow> Err (Overflow ''term'') | Some v \<Rightarrow> Term_new v)"

text \<open>The \<open>next\<close> that the macro \<open>define_counter\<close> gives to each counter.\<close>

definition counter_next :: "string \<Rightarrow> u64 \<Rightarrow> FencingValueError + u64" where
  "counter_next counter self = (case checked_add self 1 of
     None \<Rightarrow> Err (Overflow counter) | Some v \<Rightarrow> Ok v)"

definition Generation_next :: "Generation \<Rightarrow> FencingValueError + Generation" where
  "Generation_next = counter_next ''generation''"

definition LeaseEpoch_next :: "LeaseEpoch \<Rightarrow> FencingValueError + LeaseEpoch" where
  "LeaseEpoch_next = counter_next ''lease_epoch''"

definition Revision_next :: "Revision \<Rightarrow> FencingValueError + Revision" where
  "Revision_next = counter_next ''revision''"

section \<open>The counter contract\<close>

locale fencing_counter =
  fixes "next" :: "u64 \<Rightarrow> FencingValueError + u64" and name :: string
  assumes next_Ok: "next x = Ok y \<Longrightarrow> unat y = unat x + 1"
    and next_Err: "next x = Err e \<Longrightarrow> e = Overflow name \<and> unat x = 2 ^ 64 - 1"
begin

lemma next_less: "next x = Ok y \<Longrightarrow> x < y"
  by (drule next_Ok) (simp add: word_less_nat_alt)

lemma next_le: "next x = Ok y \<Longrightarrow> x \<le> y"
  by (simp add: next_less less_imp_le)

lemma next_neq: "next x = Ok y \<Longrightarrow> y \<noteq> x"
  using next_less by blast

lemma next_inj: "next x = Ok z \<Longrightarrow> next y = Ok z \<Longrightarrow> x = y"
  using next_Ok by (metis add_right_cancel word_unat_eq_iff)

lemma next_pos: "next x = Ok y \<Longrightarrow> y \<noteq> 0"
  by (drule next_Ok) auto

lemma next_zero: "next x = Ok 0 \<longleftrightarrow> False"
  using next_pos by blast

lemma next_plus: "next x = Ok y \<Longrightarrow> y = x + 1"
  by (drule next_Ok) (metis of_nat_1 of_nat_add of_nat_unat ucast_id)

lemma next_total: "unat x < 2 ^ 64 - 1 \<Longrightarrow> next x = Ok (x + 1)"
  using next_Err next_plus by (cases "next x") fastforce+

text \<open>Values handed out one after the other are strictly ascending, so none repeats.\<close>

lemma chain_strict:
  "(\<And>i. Suc i < length xs \<Longrightarrow> next (xs ! i) = Ok (xs ! Suc i)) \<Longrightarrow> sorted_wrt (<) xs"
  by (simp add: sorted_wrt_iff_nth_Suc_transp next_less)

end

lemma counter_next_Ok: "counter_next n x = Ok y \<Longrightarrow> unat y = unat x + 1"
  by (auto simp: counter_next_def dest: checked_add_Some split: option.splits)

lemma counter_next_Err: "counter_next n x = Err e \<Longrightarrow> e = Overflow n \<and> unat x = 2 ^ 64 - 1"
  by (auto simp: counter_next_def checked_add_None split: option.splits)

interpretation generation: fencing_counter Generation_next "''generation''"
  by unfold_locales (auto simp: Generation_next_def dest: counter_next_Ok counter_next_Err)

interpretation lease_epoch: fencing_counter LeaseEpoch_next "''lease_epoch''"
  by unfold_locales (auto simp: LeaseEpoch_next_def dest: counter_next_Ok counter_next_Err)

interpretation revision: fencing_counter Revision_next "''revision''"
  by unfold_locales (auto simp: Revision_next_def dest: counter_next_Ok counter_next_Err)

interpretation term_counter: fencing_counter Term_next "''term''"
proof unfold_locales
  fix x y
  assume "Term_next x = Ok y"
  then show "unat y = unat x + 1"
    by (auto simp: Term_next_def Term_new_def dest: checked_add_Some split: option.splits if_splits)
next
  fix x e
  assume *: "Term_next x = Err e"
  have "checked_add x 1 \<noteq> Some 0" by (auto dest: checked_add_Some)
  with * show "e = Overflow ''term'' \<and> unat x = 2 ^ 64 - 1"
      by (auto simp: Term_next_def Term_new_def checked_add_None split: option.splits if_splits)
qed

declare generation.next_zero [simp] lease_epoch.next_zero [simp] revision.next_zero [simp]
  term_counter.next_zero [simp]

end
