(* ===== verification/Task.thy ===== *)
theory Task
  imports Identifiers Fencing
begin

text \<open>
  \<open>agent-broker-domain/src/task.rs\<close>: task text, the lease life cycle of one task and its logical
  checkpoint (\<open>checkpoint.rs\<close>).  Methods on \<open>&mut self\<close> return the new task; none of
  them assigns a field before its last fallible step, so an error leaves the task unchanged.
\<close>

section \<open>Validated text\<close>

type_synonym TimestampMs = u64
type_synonym TaskObjective = string
type_synonym TaskResult = string

definition MAX_OBJECTIVE_BYTES :: usize where "MAX_OBJECTIVE_BYTES = 16 * 1024"
definition MAX_RESULT_BYTES :: usize where "MAX_RESULT_BYTES = 64 * 1024"

datatype TaskTextError =
    Empty string
  | TooLarge string usize

fun TaskTextError_display :: "TaskTextError \<Rightarrow> string" where
  "TaskTextError_display (Empty field) = field @ '' must be a non-empty string''"
| "TaskTextError_display (TooLarge field max_bytes) =
     field @ '' exceeds the '' @ show_nat max_bytes @ ''-byte limit''"

text \<open>
  \<open>value.trim().is_empty()\<close> on the UTF-8 bytes of the text: every character is one of the
  code points of the Unicode property \<open>White_Space\<close>, which have one, two or three bytes.
\<close>

definition white_space_1 :: "nat \<Rightarrow> bool" where
  "white_space_1 b \<longleftrightarrow> 9 \<le> b \<and> b \<le> 13 \<or> b = 32"

definition white_space_2 :: "nat \<Rightarrow> nat \<Rightarrow> bool" where
  "white_space_2 b c \<longleftrightarrow> b = 0xC2 \<and> (c = 0x85 \<or> c = 0xA0)"

definition white_space_3 :: "nat \<Rightarrow> nat \<Rightarrow> nat \<Rightarrow> bool" where
  "white_space_3 b c d \<longleftrightarrow>
     b = 0xE1 \<and> c = 0x9A \<and> d = 0x80 \<or>
     b = 0xE2 \<and> c = 0x80 \<and> (0x80 \<le> d \<and> d \<le> 0x8A \<or> d = 0xA8 \<or> d = 0xA9 \<or> d = 0xAF) \<or>
     b = 0xE2 \<and> c = 0x81 \<and> d = 0x9F \<or>
     b = 0xE3 \<and> c = 0x80 \<and> d = 0x80"

fun blank_bytes :: "nat list \<Rightarrow> bool" where
  "blank_bytes [] = True"
| "blank_bytes [b] = white_space_1 b"
| "blank_bytes [b, c] =
     (if white_space_1 b then blank_bytes [c] else white_space_2 b c)"
| "blank_bytes (b # c # d # bs) =
     (if white_space_1 b then blank_bytes (c # d # bs)
      else if white_space_2 b c then blank_bytes (d # bs)
      else white_space_3 b c d \<and> blank_bytes bs)"

definition is_blank :: "string \<Rightarrow> bool" where
  "is_blank s = blank_bytes (map of_char s)"

definition validate_text :: "string \<Rightarrow> string \<Rightarrow> usize \<Rightarrow> TaskTextError + string" where
  "validate_text raw field max_bytes =
     (if is_blank raw then Err (Empty field)
      else if length raw > max_bytes then Err (TooLarge field max_bytes)
      else Ok raw)"

definition TaskObjective_new :: "string \<Rightarrow> TaskTextError + TaskObjective" where
  "TaskObjective_new raw = validate_text raw ''objective'' MAX_OBJECTIVE_BYTES"

definition TaskResult_new :: "string \<Rightarrow> TaskTextError + TaskResult" where
  "TaskResult_new raw = validate_text raw ''result'' MAX_RESULT_BYTES"

definition valid_text :: "usize \<Rightarrow> string \<Rightarrow> bool" where
  "valid_text n s \<longleftrightarrow> \<not> is_blank s \<and> length s \<le> n"

section \<open>Life cycle\<close>

datatype TaskStatus = Queued | Leased | Completed

fun TaskStatus_debug :: "TaskStatus \<Rightarrow> string" where
  "TaskStatus_debug TaskStatus.Queued = ''Queued''"
| "TaskStatus_debug TaskStatus.Leased = ''Leased''"
| "TaskStatus_debug TaskStatus.Completed = ''Completed''"

datatype TaskTransitionError =
    NotQueued TaskStatus
  | NotLeased TaskStatus
  | StaleGroup
  | StaleOwner
  | StaleGeneration
  | StaleLeaseEpoch
  | StaleLeaseId
  | LeaseExpired
  | AlreadyCompleted
  | FencingValue FencingValueError

fun TaskTransitionError_display :: "TaskTransitionError \<Rightarrow> string" where
  "TaskTransitionError_display (NotQueued status) = ''task is not queued: '' @ TaskStatus_debug status"
| "TaskTransitionError_display (NotLeased status) =
     ''task has no active lease: '' @ TaskStatus_debug status"
| "TaskTransitionError_display StaleGroup = ''task lease belongs to another Consumer Group''"
| "TaskTransitionError_display StaleOwner = ''task lease belongs to another member''"
| "TaskTransitionError_display StaleGeneration = ''task lease generation is stale''"
| "TaskTransitionError_display StaleLeaseEpoch = ''task lease epoch is stale''"
| "TaskTransitionError_display StaleLeaseId = ''task lease identity is stale''"
| "TaskTransitionError_display LeaseExpired = ''task lease has expired''"
| "TaskTransitionError_display AlreadyCompleted = ''task is already completed''"
| "TaskTransitionError_display (FencingValue e) = FencingValueError_display e"

record QueuedTask =
  queued_lease_epoch :: LeaseEpoch

record LeasedTask =
  leased_lease_id :: LeaseId
  leased_owner_member_id :: ConsumerId
  leased_group_id :: ConsumerGroupId
  leased_generation :: Generation
  leased_lease_epoch :: LeaseEpoch
  leased_expires_at_ms :: TimestampMs

record LeaseGrant =
  grant_lease_id :: LeaseId
  grant_owner_member_id :: ConsumerId
  grant_group_id :: ConsumerGroupId
  grant_generation :: Generation
  grant_expires_at_ms :: TimestampMs

record LeaseFence =
  fence_lease_id :: LeaseId
  fence_owner_member_id :: ConsumerId
  fence_group_id :: ConsumerGroupId
  fence_generation :: Generation
  fence_lease_epoch :: LeaseEpoch
  fence_observed_at_ms :: TimestampMs

datatype CompletionOutcome = Completed | AlreadyCompleted

record CompletedTask =
  completed_lease_id :: LeaseId
  completed_owner_member_id :: ConsumerId
  completed_group_id :: ConsumerGroupId
  completed_generation :: Generation
  completed_lease_epoch :: LeaseEpoch
  completed_result :: TaskResult
  completed_completed_at_ms :: TimestampMs

datatype TaskState =
    Queued QueuedTask
  | Leased LeasedTask
  | Completed CompletedTask

fun TaskState_status :: "TaskState \<Rightarrow> TaskStatus" where
  "TaskState_status (TaskState.Queued _) = TaskStatus.Queued"
| "TaskState_status (TaskState.Leased _) = TaskStatus.Leased"
| "TaskState_status (TaskState.Completed _) = TaskStatus.Completed"

record Task =
  task_id :: TaskId
  task_namespace_id :: NamespaceId
  task_objective :: TaskObjective
  task_created_at_ms :: TimestampMs
  task_revision :: Revision
  task_state :: TaskState

definition Task_new :: "TaskId \<Rightarrow> NamespaceId \<Rightarrow> TaskObjective \<Rightarrow> TimestampMs \<Rightarrow> Task" where
  "Task_new tid ns obj created =
     \<lparr>task_id = tid, task_namespace_id = ns, task_objective = obj, task_created_at_ms = created,
      task_revision = 1, task_state = TaskState.Queued \<lparr>queued_lease_epoch = 0\<rparr>\<rparr>"

definition Task_status :: "Task \<Rightarrow> TaskStatus" where
  "Task_status t = TaskState_status (task_state t)"

definition fv :: "FencingValueError + 'a \<Rightarrow> TaskTransitionError + 'a" where
  "fv = map_err FencingValue"

definition Task_claim :: "Task \<Rightarrow> LeaseGrant \<Rightarrow> TaskTransitionError + Task" where
  "Task_claim t grant =
     (case task_state t of
        TaskState.Queued queued \<Rightarrow>
          try_r (fv (LeaseEpoch_next (queued_lease_epoch queued))) (\<lambda>next_epoch.
          try_r (fv (Revision_next (task_revision t))) (\<lambda>next_revision.
          Ok (t\<lparr>task_state := TaskState.Leased
                  \<lparr>leased_lease_id = grant_lease_id grant,
                   leased_owner_member_id = grant_owner_member_id grant,
                   leased_group_id = grant_group_id grant,
                   leased_generation = grant_generation grant,
                   leased_lease_epoch = next_epoch,
                   leased_expires_at_ms = grant_expires_at_ms grant\<rparr>,
                task_revision := next_revision\<rparr>)))
      | _ \<Rightarrow> Err (NotQueued (Task_status t)))"

definition require_active_lease :: "Task \<Rightarrow> LeaseFence \<Rightarrow> TaskTransitionError + LeasedTask" where
  "require_active_lease t fence =
     (case task_state t of
        TaskState.Leased lease \<Rightarrow>
          if leased_group_id lease \<noteq> fence_group_id fence then Err StaleGroup
          else if leased_owner_member_id lease \<noteq> fence_owner_member_id fence then Err StaleOwner
          else if leased_generation lease \<noteq> fence_generation fence then Err StaleGeneration
          else if leased_lease_epoch lease \<noteq> fence_lease_epoch fence then Err StaleLeaseEpoch
          else if leased_lease_id lease \<noteq> fence_lease_id fence then Err StaleLeaseId
          else if leased_expires_at_ms lease \<le> fence_observed_at_ms fence then Err LeaseExpired
          else Ok lease
      | _ \<Rightarrow> Err (NotLeased (Task_status t)))"

definition Task_renew :: "Task \<Rightarrow> LeaseFence \<Rightarrow> TimestampMs \<Rightarrow> TaskTransitionError + Task" where
  "Task_renew t fence new_expires =
     try_r (require_active_lease t fence) (\<lambda>_.
     try_r (fv (Revision_next (task_revision t))) (\<lambda>next_revision.
     case task_state t of
       TaskState.Leased lease \<Rightarrow>
         Ok (t\<lparr>task_state := TaskState.Leased (lease\<lparr>leased_expires_at_ms := new_expires\<rparr>),
               task_revision := next_revision\<rparr>)
     | _ \<Rightarrow> Err (NotLeased (Task_status t))))"

definition Task_complete ::
  "Task \<Rightarrow> LeaseFence \<Rightarrow> TaskResult \<Rightarrow> TaskTransitionError + CompletionOutcome \<times> Task" where
  "Task_complete t fence result =
     (case task_state t of
        TaskState.Completed completed \<Rightarrow>
          if completed_lease_id completed = fence_lease_id fence \<and> completed_result completed = result
          then Ok (CompletionOutcome.AlreadyCompleted, t)
          else Err TaskTransitionError.AlreadyCompleted
      | _ \<Rightarrow>
          try_r (require_active_lease t fence) (\<lambda>lease.
          try_r (fv (Revision_next (task_revision t))) (\<lambda>next_revision.
          Ok (CompletionOutcome.Completed,
              t\<lparr>task_state := TaskState.Completed
                  \<lparr>completed_lease_id = leased_lease_id lease,
                   completed_owner_member_id = leased_owner_member_id lease,
                   completed_group_id = leased_group_id lease,
                   completed_generation = leased_generation lease,
                   completed_lease_epoch = leased_lease_epoch lease,
                   completed_result = result,
                   completed_completed_at_ms = fence_observed_at_ms fence\<rparr>,
                task_revision := next_revision\<rparr>))))"

definition requeue_if_expired :: "Task \<Rightarrow> TimestampMs \<Rightarrow> TaskTransitionError + bool \<times> Task" where
  "requeue_if_expired t now =
     (case task_state t of
        TaskState.Leased lease \<Rightarrow>
          if leased_expires_at_ms lease > now then Ok (False, t)
          else try_r (fv (Revision_next (task_revision t))) (\<lambda>next_revision.
               Ok (True, t\<lparr>task_state :=
                             TaskState.Queued \<lparr>queued_lease_epoch = leased_lease_epoch lease\<rparr>,
                           task_revision := next_revision\<rparr>))
      | _ \<Rightarrow> Ok (False, t))"

definition requeue_for_member ::
  "Task \<Rightarrow> ConsumerGroupId \<Rightarrow> ConsumerId \<Rightarrow> TaskTransitionError + bool \<times> Task" where
  "requeue_for_member t gid mid =
     (case task_state t of
        TaskState.Leased lease \<Rightarrow>
          if leased_group_id lease \<noteq> gid \<or> leased_owner_member_id lease \<noteq> mid then Ok (False, t)
          else try_r (fv (Revision_next (task_revision t))) (\<lambda>next_revision.
               Ok (True, t\<lparr>task_state :=
                             TaskState.Queued \<lparr>queued_lease_epoch = leased_lease_epoch lease\<rparr>,
                           task_revision := next_revision\<rparr>))
      | _ \<Rightarrow> Ok (False, t))"

section \<open>Checkpoints\<close>

datatype TaskCheckpointState =
    Queued LeaseEpoch
  | Leased LeaseId ConsumerId ConsumerGroupId Generation LeaseEpoch TimestampMs
  | Completed LeaseId ConsumerId ConsumerGroupId Generation LeaseEpoch TaskResult TimestampMs

record TaskCheckpoint =
  tc_task_id :: TaskId
  tc_namespace_id :: NamespaceId
  tc_objective :: TaskObjective
  tc_created_at_ms :: TimestampMs
  tc_revision :: Revision
  tc_state :: TaskCheckpointState

definition Task_checkpoint :: "Task \<Rightarrow> TaskCheckpoint" where
  "Task_checkpoint t =
     \<lparr>tc_task_id = task_id t, tc_namespace_id = task_namespace_id t,
      tc_objective = task_objective t, tc_created_at_ms = task_created_at_ms t,
      tc_revision = task_revision t,
      tc_state =
        (case task_state t of
           TaskState.Queued queued \<Rightarrow> TaskCheckpointState.Queued (queued_lease_epoch queued)
         | TaskState.Leased lease \<Rightarrow>
             TaskCheckpointState.Leased (leased_lease_id lease) (leased_owner_member_id lease)
               (leased_group_id lease) (leased_generation lease) (leased_lease_epoch lease)
               (leased_expires_at_ms lease)
         | TaskState.Completed completed \<Rightarrow>
             TaskCheckpointState.Completed (completed_lease_id completed)
               (completed_owner_member_id completed) (completed_group_id completed)
               (completed_generation completed) (completed_lease_epoch completed)
               (completed_result completed) (completed_completed_at_ms completed))\<rparr>"

definition Task_from_checkpoint :: "TaskCheckpoint \<Rightarrow> Task" where
  "Task_from_checkpoint c =
     \<lparr>task_id = tc_task_id c, task_namespace_id = tc_namespace_id c,
      task_objective = tc_objective c, task_created_at_ms = tc_created_at_ms c,
      task_revision = tc_revision c,
      task_state =
        (case tc_state c of
           TaskCheckpointState.Queued epoch \<Rightarrow> TaskState.Queued \<lparr>queued_lease_epoch = epoch\<rparr>
         | TaskCheckpointState.Leased lid mid gid gen epoch expires \<Rightarrow>
             TaskState.Leased
               \<lparr>leased_lease_id = lid, leased_owner_member_id = mid, leased_group_id = gid,
                leased_generation = gen, leased_lease_epoch = epoch,
                leased_expires_at_ms = expires\<rparr>
         | TaskCheckpointState.Completed lid mid gid gen epoch result at \<Rightarrow>
             TaskState.Completed
               \<lparr>completed_lease_id = lid, completed_owner_member_id = mid,
                completed_group_id = gid, completed_generation = gen,
                completed_lease_epoch = epoch, completed_result = result,
                completed_completed_at_ms = at\<rparr>)\<rparr>"

section \<open>Steps of one task\<close>

text \<open>Everything that may happen to a published task until it is pruned.\<close>

inductive task_step :: "Task \<Rightarrow> Task \<Rightarrow> bool" where
  claim: "Task_claim t grant = Ok t' \<Longrightarrow> task_step t t'"
| renew: "Task_renew t fence expires = Ok t' \<Longrightarrow> task_step t t'"
| complete: "Task_complete t fence result = Ok (outcome, t') \<Longrightarrow> task_step t t'"
| expire: "requeue_if_expired t now = Ok (changed, t') \<Longrightarrow> task_step t t'"
| leave: "requeue_for_member t gid mid = Ok (changed, t') \<Longrightarrow> task_step t t'"

definition lease_epoch_of :: "Task \<Rightarrow> LeaseEpoch" where
  "lease_epoch_of t =
     (case task_state t of
        TaskState.Queued q \<Rightarrow> queued_lease_epoch q
      | TaskState.Leased l \<Rightarrow> leased_lease_epoch l
      | TaskState.Completed c \<Rightarrow> completed_lease_epoch c)"

text \<open>The lease identity that owns, or completed, the task.\<close>

definition tenure_of :: "Task \<Rightarrow> (LeaseId \<times> ConsumerId \<times> ConsumerGroupId \<times> Generation) option" where
  "tenure_of t =
     (case task_state t of
        TaskState.Queued q \<Rightarrow> None
      | TaskState.Leased l \<Rightarrow>
          Some (leased_lease_id l, leased_owner_member_id l, leased_group_id l, leased_generation l)
      | TaskState.Completed c \<Rightarrow>
          Some (completed_lease_id c, completed_owner_member_id c, completed_group_id c,
                completed_generation c))"

lemma fv_simps [simp]: "fv x = Ok y \<longleftrightarrow> x = Ok y" "fv x = Err e \<longleftrightarrow> (\<exists>f. x = Err f \<and> e = FencingValue f)"
  by (auto simp: fv_def map_err_Ok_iff map_err_Err_iff)

lemma validate_text_Ok: "validate_text s f n = Ok x \<longleftrightarrow> valid_text n s \<and> x = s"
  by (auto simp: validate_text_def valid_text_def)

lemma Task_claim_Ok:
  "Task_claim t g = Ok t' \<longleftrightarrow>
     (\<exists>q e r. task_state t = TaskState.Queued q \<and> LeaseEpoch_next (queued_lease_epoch q) = Ok e \<and>
        Revision_next (task_revision t) = Ok r \<and>
        t' = t\<lparr>task_state := TaskState.Leased
                 \<lparr>leased_lease_id = grant_lease_id g, leased_owner_member_id = grant_owner_member_id g,
                  leased_group_id = grant_group_id g, leased_generation = grant_generation g,
                  leased_lease_epoch = e, leased_expires_at_ms = grant_expires_at_ms g\<rparr>,
               task_revision := r\<rparr>)"
  by (auto simp: Task_claim_def try_r_Ok split: TaskState.splits)

lemma require_active_lease_Ok:
  "require_active_lease t f = Ok l \<longleftrightarrow>
     task_state t = TaskState.Leased l \<and> leased_group_id l = fence_group_id f \<and>
     leased_owner_member_id l = fence_owner_member_id f \<and> leased_generation l = fence_generation f \<and>
     leased_lease_epoch l = fence_lease_epoch f \<and> leased_lease_id l = fence_lease_id f \<and>
     fence_observed_at_ms f < leased_expires_at_ms l"
  by (auto simp: require_active_lease_def split: TaskState.splits if_splits)

lemma Task_renew_Ok:
  "Task_renew t f x = Ok t' \<longleftrightarrow>
     (\<exists>l r. require_active_lease t f = Ok l \<and> Revision_next (task_revision t) = Ok r \<and>
        t' = t\<lparr>task_state := TaskState.Leased (l\<lparr>leased_expires_at_ms := x\<rparr>), task_revision := r\<rparr>)"
  by (auto simp: Task_renew_def try_r_Ok require_active_lease_Ok)

definition completed_by :: "LeasedTask \<Rightarrow> TaskResult \<Rightarrow> TimestampMs \<Rightarrow> CompletedTask" where
  "completed_by l result at =
     \<lparr>completed_lease_id = leased_lease_id l, completed_owner_member_id = leased_owner_member_id l,
      completed_group_id = leased_group_id l, completed_generation = leased_generation l,
      completed_lease_epoch = leased_lease_epoch l, completed_result = result,
      completed_completed_at_ms = at\<rparr>"

lemma Task_complete_Ok:
  "Task_complete t f res = Ok (oc, t') \<longleftrightarrow>
     (\<exists>c. task_state t = TaskState.Completed c \<and> completed_lease_id c = fence_lease_id f \<and>
        completed_result c = res \<and> oc = CompletionOutcome.AlreadyCompleted \<and> t' = t) \<or>
     (\<exists>l r. require_active_lease t f = Ok l \<and> Revision_next (task_revision t) = Ok r \<and>
        oc = CompletionOutcome.Completed \<and>
        t' = t\<lparr>task_state := TaskState.Completed (completed_by l res (fence_observed_at_ms f)),
               task_revision := r\<rparr>)"
  by (auto simp: Task_complete_def try_r_Ok require_active_lease_Ok completed_by_def
      split: TaskState.splits)

lemma requeue_if_expired_Ok:
  "requeue_if_expired t now = Ok (b, t') \<longleftrightarrow>
     (\<not> b \<and> t' = t \<and> (\<forall>l. task_state t = TaskState.Leased l \<longrightarrow> now < leased_expires_at_ms l)) \<or>
     (b \<and> (\<exists>l r. task_state t = TaskState.Leased l \<and> leased_expires_at_ms l \<le> now \<and>
        Revision_next (task_revision t) = Ok r \<and>
        t' = t\<lparr>task_state := TaskState.Queued \<lparr>queued_lease_epoch = leased_lease_epoch l\<rparr>,
               task_revision := r\<rparr>))"
  by (auto simp: requeue_if_expired_def try_r_Ok split: TaskState.splits)

lemma requeue_for_member_Ok:
  "requeue_for_member t gid mid = Ok (b, t') \<longleftrightarrow>
     (\<not> b \<and> t' = t \<and> (\<forall>l. task_state t = TaskState.Leased l \<longrightarrow>
        \<not> (leased_group_id l = gid \<and> leased_owner_member_id l = mid))) \<or>
     (b \<and> (\<exists>l r. task_state t = TaskState.Leased l \<and> leased_group_id l = gid \<and>
        leased_owner_member_id l = mid \<and> Revision_next (task_revision t) = Ok r \<and>
        t' = t\<lparr>task_state := TaskState.Queued \<lparr>queued_lease_epoch = leased_lease_epoch l\<rparr>,
               task_revision := r\<rparr>))"
  by (auto simp: requeue_for_member_def try_r_Ok split: TaskState.splits)

lemmas task_op_Ok =
  Task_claim_Ok Task_renew_Ok Task_complete_Ok requeue_if_expired_Ok requeue_for_member_Ok

lemma Task_checkpoint_round [simp]: "Task_from_checkpoint (Task_checkpoint t) = t"
  by (cases "task_state t") (auto simp: Task_from_checkpoint_def Task_checkpoint_def)

lemma Task_from_checkpoint_round [simp]: "Task_checkpoint (Task_from_checkpoint c) = c"
  by (cases "tc_state c") (auto simp: Task_from_checkpoint_def Task_checkpoint_def)

section \<open>Fencing of one task\<close>

definition same_identity :: "Task \<Rightarrow> Task \<Rightarrow> bool" where
  "same_identity t t' \<longleftrightarrow> task_id t' = task_id t \<and> task_namespace_id t' = task_namespace_id t \<and>
     task_objective t' = task_objective t \<and> task_created_at_ms t' = task_created_at_ms t"

inductive_cases task_stepE: "task_step t t'"

lemma task_step_identity: "task_step t t' \<Longrightarrow> same_identity t t'"
  by (auto simp: same_identity_def task_op_Ok elim!: task_stepE)

lemma task_step_revision: "task_step t t' \<Longrightarrow> t' = t \<or> Revision_next (task_revision t) = Ok (task_revision t')"
  by (auto simp: task_op_Ok elim!: task_stepE)

lemma task_step_epoch_le: "task_step t t' \<Longrightarrow> lease_epoch_of t \<le> lease_epoch_of t'"
  by (auto simp: task_op_Ok require_active_lease_Ok lease_epoch_of_def completed_by_def
      dest!: lease_epoch.next_le elim!: task_stepE)

lemma task_step_tenure:
  "task_step t t' \<Longrightarrow> lease_epoch_of t' = lease_epoch_of t \<Longrightarrow> tenure_of t' \<in> {tenure_of t, None}"
  by (auto simp: task_op_Ok require_active_lease_Ok lease_epoch_of_def tenure_of_def completed_by_def
      dest!: lease_epoch.next_neq elim!: task_stepE)

lemma task_step_completed:
  "task_step t t' \<Longrightarrow> task_state t = TaskState.Completed c \<Longrightarrow> t' = t"
  by (auto simp: task_op_Ok require_active_lease_Ok elim!: task_stepE)

lemma task_run_epoch_le: "task_step\<^sup>*\<^sup>* t t' \<Longrightarrow> lease_epoch_of t \<le> lease_epoch_of t'"
  by (induction rule: rtranclp_induct) (auto dest: task_step_epoch_le)

lemma task_run_identity: "task_step\<^sup>*\<^sup>* t t' \<Longrightarrow> same_identity t t'"
  by (induction rule: rtranclp_induct) (auto simp: same_identity_def dest!: task_step_identity)

lemma task_run_revision_le: "task_step\<^sup>*\<^sup>* t t' \<Longrightarrow> task_revision t \<le> task_revision t'"
  by (induction rule: rtranclp_induct)
    (auto dest!: task_step_revision dest: revision.next_le order_trans)

lemma task_run_tenure:
  assumes "task_step\<^sup>*\<^sup>* t t'" "lease_epoch_of t' = lease_epoch_of t"
  shows "tenure_of t' \<in> {tenure_of t, None}"
  using assms
proof (induction rule: rtranclp_induct)
  case (step u v)
  have "lease_epoch_of u = lease_epoch_of t" "lease_epoch_of v = lease_epoch_of u"
    using step task_run_epoch_le task_step_epoch_le by (fastforce intro: antisym)+
  with step show ?case using task_step_tenure by fastforce
qed simp

lemma task_run_completed:
  assumes "task_step\<^sup>*\<^sup>* t t'" "task_state t = TaskState.Completed c"
  shows "t' = t"
  using assms by (induction rule: rtranclp_induct) (auto dest: task_step_completed)

lemma fence_accepts_tenure:
  assumes "require_active_lease t f = Ok l"
  shows "lease_epoch_of t = fence_lease_epoch f"
    and "tenure_of t = Some (fence_lease_id f, fence_owner_member_id f, fence_group_id f,
           fence_generation f)"
  using assms by (auto simp: require_active_lease_Ok lease_epoch_of_def tenure_of_def)

text \<open>A fence of the epoch in which the task went back to the queue is never accepted again.\<close>

lemma requeued_fence_rejected:
  assumes "task_state t = TaskState.Queued q" "task_step\<^sup>*\<^sup>* t t'"
    and "fence_lease_epoch f \<le> queued_lease_epoch q"
  shows "require_active_lease t' f \<noteq> Ok l"
proof
  assume acc: "require_active_lease t' f = Ok l"
  have "lease_epoch_of t' = lease_epoch_of t"
    using fence_accepts_tenure(1) [OF acc] task_run_epoch_le [OF assms(2)] assms(1,3)
    by (simp add: lease_epoch_of_def)
  from task_run_tenure [OF assms(2) this] fence_accepts_tenure(2) [OF acc] assms(1)
  show False by (simp add: tenure_of_def)
qed

end
