(* ===== verification/Group.thy ===== *)
theory Group
  imports Task
begin

text \<open>
  \<open>agent-broker-domain/src/group.rs\<close>: capabilities, logical consumers, consumer groups with
  their membership generation, and the read-only group directory.  Group methods return the new
  group; as in the source, no field is assigned before the last fallible step.
\<close>

section \<open>Capabilities\<close>

definition MAX_CAPABILITIES :: usize where "MAX_CAPABILITIES = 64"
definition MAX_CAPABILITY_BYTES :: usize where "MAX_CAPABILITY_BYTES = 64"

datatype Capability = Capability (cap_str: string)

instantiation Capability :: linorder
begin

definition less_eq_Capability :: "Capability \<Rightarrow> Capability \<Rightarrow> bool" where
  "a \<le> b \<longleftrightarrow> cap_str a \<le> cap_str b"

definition less_Capability :: "Capability \<Rightarrow> Capability \<Rightarrow> bool" where
  "a < b \<longleftrightarrow> cap_str a < cap_str b"

instance
  by standard (auto simp: less_eq_Capability_def less_Capability_def Capability.expand)

end

datatype CapabilitiesError =
    TooMany usize
  | InvalidCapability string

fun CapabilitiesError_display :: "CapabilitiesError \<Rightarrow> string" where
  "CapabilitiesError_display (TooMany n) =
     ''capabilities supports at most '' @ show_nat n @ '' values''"
| "CapabilitiesError_display (InvalidCapability reason) = reason"

definition Capability_new :: "string \<Rightarrow> CapabilitiesError + Capability" where
  "Capability_new raw =
     (if raw = [] then Err (InvalidCapability ''capability must not be empty'')
      else if length raw > MAX_CAPABILITY_BYTES then
        Err (InvalidCapability ''capability must be at most 64 ASCII bytes'')
      else case raw of
        [] \<Rightarrow> Err (InvalidCapability ''capability must not be empty'')
      | first # bytes \<Rightarrow>
          if \<not> is_ascii_alphanumeric first then
            Err (InvalidCapability ''capability must start with an ASCII alphanumeric character'')
          else if \<not> list_all (\<lambda>byte. is_ascii_alphanumeric byte \<or>
                      byte \<in> {CHR ''_'', CHR ''.'', CHR '':'', CHR ''-''}) bytes then
            Err (InvalidCapability ''capability contains unsupported characters'')
          else Ok (Capability raw))"

text \<open>A \<open>Capabilities\<close> value is the boxed slice of the normalized set.\<close>

type_synonym Capabilities = "Capability list"

definition Capabilities_new :: "string list \<Rightarrow> CapabilitiesError + Capabilities" where
  "Capabilities_new vs =
     (if length vs > MAX_CAPABILITIES then Err (TooMany MAX_CAPABILITIES)
      else try_r (collect_results Capability_new vs) (\<lambda>normalized.
           Ok (sorted_list_of_fset (fset_of_list normalized))))"

definition contains_all :: "Capabilities \<Rightarrow> Capabilities \<Rightarrow> bool" where
  "contains_all self required \<longleftrightarrow>
     list_all (\<lambda>capability. bsearch id self capability \<noteq> None) required"

section \<open>Consumers\<close>

record Consumer =
  consumer_id :: ConsumerId
  consumer_capabilities :: Capabilities
  consumer_joined_at_ms :: TimestampMs
  consumer_last_heartbeat_at_ms :: TimestampMs
  consumer_revision :: Revision

definition Consumer_new :: "ConsumerId \<Rightarrow> Capabilities \<Rightarrow> TimestampMs \<Rightarrow> Consumer" where
  "Consumer_new mid caps now =
     \<lparr>consumer_id = mid, consumer_capabilities = caps, consumer_joined_at_ms = now,
      consumer_last_heartbeat_at_ms = now, consumer_revision = 1\<rparr>"

record MemberCheckpoint =
  mc_member_id :: ConsumerId
  mc_capabilities :: Capabilities
  mc_joined_at_ms :: TimestampMs
  mc_last_heartbeat_at_ms :: TimestampMs
  mc_revision :: Revision

definition Consumer_checkpoint :: "Consumer \<Rightarrow> MemberCheckpoint" where
  "Consumer_checkpoint c =
     \<lparr>mc_member_id = consumer_id c, mc_capabilities = consumer_capabilities c,
      mc_joined_at_ms = consumer_joined_at_ms c,
      mc_last_heartbeat_at_ms = consumer_last_heartbeat_at_ms c,
      mc_revision = consumer_revision c\<rparr>"

definition Consumer_from_checkpoint :: "MemberCheckpoint \<Rightarrow> Consumer" where
  "Consumer_from_checkpoint c =
     \<lparr>consumer_id = mc_member_id c, consumer_capabilities = mc_capabilities c,
      consumer_joined_at_ms = mc_joined_at_ms c,
      consumer_last_heartbeat_at_ms = mc_last_heartbeat_at_ms c,
      consumer_revision = mc_revision c\<rparr>"

section \<open>Consumer groups\<close>

datatype JoinOutcome = Added | Refreshed | Unchanged

datatype HeartbeatOutcome = Updated | Unchanged

datatype ConsumerGroupError =
    StaleGeneration Generation Generation
  | MemberNotFound ConsumerId
  | CapabilityConflict ConsumerId
  | MemberCapacityReached usize
  | InvalidMemberCapacity
  | FencingValue FencingValueError

fun ConsumerGroupError_display :: "ConsumerGroupError \<Rightarrow> string" where
  "ConsumerGroupError_display (ConsumerGroupError.StaleGeneration expected actual) =
     ''Consumer Group generation is stale: expected '' @ show_u64 expected @ '', actual '' @
     show_u64 actual"
| "ConsumerGroupError_display (MemberNotFound mid) = ''member '' @ consumer_str mid @ '' does not exist''"
| "ConsumerGroupError_display (CapabilityConflict mid) =
     ''member '' @ consumer_str mid @ '' rejoined with different capabilities''"
| "ConsumerGroupError_display (MemberCapacityReached n) =
     ''Consumer Group member capacity reached ('' @ show_nat n @ '')''"
| "ConsumerGroupError_display InvalidMemberCapacity = ''max_group_members must be positive''"
| "ConsumerGroupError_display (ConsumerGroupError.FencingValue e) = FencingValueError_display e"

record ConsumerGroup =
  group_id :: ConsumerGroupId
  group_namespace_id :: NamespaceId
  group_generation :: Generation
  group_revision :: Revision
  group_consumers :: "(ConsumerId, Consumer) fmap"

definition ConsumerGroup_new :: "ConsumerGroupId \<Rightarrow> NamespaceId \<Rightarrow> ConsumerGroup" where
  "ConsumerGroup_new gid ns =
     \<lparr>group_id = gid, group_namespace_id = ns, group_generation = 0, group_revision = 1,
      group_consumers = fmempty\<rparr>"

definition consumer_count :: "ConsumerGroup \<Rightarrow> usize" where
  "consumer_count g = fm_len (group_consumers g)"

definition group_fv :: "FencingValueError + 'a \<Rightarrow> ConsumerGroupError + 'a" where
  "group_fv = map_err ConsumerGroupError.FencingValue"

definition ConsumerGroup_join ::
  "ConsumerGroup \<Rightarrow> ConsumerId \<Rightarrow> Capabilities \<Rightarrow> TimestampMs \<Rightarrow> usize
   \<Rightarrow> ConsumerGroupError + JoinOutcome \<times> ConsumerGroup" where
  "ConsumerGroup_join g mid caps now max_members =
     (case fmlookup (group_consumers g) mid of
        Some member \<Rightarrow>
          if consumer_capabilities member \<noteq> caps then Err (CapabilityConflict mid)
          else if now \<le> consumer_last_heartbeat_at_ms member then Ok (JoinOutcome.Unchanged, g)
          else
            try_r (group_fv (Revision_next (consumer_revision member))) (\<lambda>next_member_revision.
            try_r (group_fv (Revision_next (group_revision g))) (\<lambda>next_group_revision.
            Ok (Refreshed,
                g\<lparr>group_consumers := fmupd mid
                     (member\<lparr>consumer_last_heartbeat_at_ms := now,
                             consumer_revision := next_member_revision\<rparr>) (group_consumers g),
                  group_revision := next_group_revision\<rparr>)))
      | None \<Rightarrow>
          if max_members = 0 then Err InvalidMemberCapacity
          else if fm_len (group_consumers g) \<ge> max_members then Err (MemberCapacityReached max_members)
          else
            try_r (group_fv (Generation_next (group_generation g))) (\<lambda>next_generation.
            try_r (group_fv (Revision_next (group_revision g))) (\<lambda>next_group_revision.
            Ok (Added,
                g\<lparr>group_consumers := fmupd mid (Consumer_new mid caps now) (group_consumers g),
                  group_generation := next_generation,
                  group_revision := next_group_revision\<rparr>))))"

definition require_generation :: "ConsumerGroup \<Rightarrow> Generation \<Rightarrow> ConsumerGroupError + unit" where
  "require_generation g expected =
     (if group_generation g \<noteq> expected
      then Err (ConsumerGroupError.StaleGeneration expected (group_generation g)) else Ok ())"

definition ConsumerGroup_heartbeat ::
  "ConsumerGroup \<Rightarrow> ConsumerId \<Rightarrow> Generation \<Rightarrow> TimestampMs
   \<Rightarrow> ConsumerGroupError + HeartbeatOutcome \<times> ConsumerGroup" where
  "ConsumerGroup_heartbeat g mid expected now =
     try_r (require_generation g expected) (\<lambda>_.
     case fmlookup (group_consumers g) mid of
       None \<Rightarrow> Err (MemberNotFound mid)
     | Some member \<Rightarrow>
         if now \<le> consumer_last_heartbeat_at_ms member then Ok (HeartbeatOutcome.Unchanged, g)
         else
           try_r (group_fv (Revision_next (consumer_revision member))) (\<lambda>next_member_revision.
           try_r (group_fv (Revision_next (group_revision g))) (\<lambda>next_group_revision.
           Ok (Updated,
               g\<lparr>group_consumers := fmupd mid
                    (member\<lparr>consumer_last_heartbeat_at_ms := now,
                            consumer_revision := next_member_revision\<rparr>) (group_consumers g),
                 group_revision := next_group_revision\<rparr>))))"

definition ConsumerGroup_leave ::
  "ConsumerGroup \<Rightarrow> ConsumerId \<Rightarrow> Generation \<Rightarrow> ConsumerGroupError + Consumer \<times> ConsumerGroup" where
  "ConsumerGroup_leave g mid expected =
     try_r (require_generation g expected) (\<lambda>_.
     if fmlookup (group_consumers g) mid = None then Err (MemberNotFound mid)
     else
       try_r (group_fv (Generation_next (group_generation g))) (\<lambda>next_generation.
       try_r (group_fv (Revision_next (group_revision g))) (\<lambda>next_revision.
       case fmlookup (group_consumers g) mid of
         None \<Rightarrow> Err (MemberNotFound mid)
       | Some member \<Rightarrow>
           Ok (member,
               g\<lparr>group_consumers := fmdrop mid (group_consumers g),
                 group_generation := next_generation,
                 group_revision := next_revision\<rparr>))))"

text \<open>
  The members whose heartbeat is at or before the cut, oldest heartbeat first, as many as asked
  for; and the removal loop over them.
\<close>

definition stale_ids :: "ConsumerGroup \<Rightarrow> TimestampMs \<Rightarrow> usize \<Rightarrow> ConsumerId list" where
  "stale_ids g stale_before max_members =
     map snd (take max_members (sorted_list_of_fset (fset_of_list
       (map (\<lambda>m. (consumer_last_heartbeat_at_ms m, consumer_id m))
         (filter (\<lambda>m. consumer_last_heartbeat_at_ms m \<le> stale_before)
           (fm_values (group_consumers g)))))))"

fun remove_members ::
  "ConsumerId list \<Rightarrow> (ConsumerId, Consumer) fmap \<Rightarrow> Consumer list \<times> (ConsumerId, Consumer) fmap" where
  "remove_members [] cs = ([], cs)"
| "remove_members (mid # mids) cs =
     (case fmlookup cs mid of
        None \<Rightarrow> remove_members mids cs
      | Some member \<Rightarrow>
          (case remove_members mids (fmdrop mid cs) of (removed, cs') \<Rightarrow> (member # removed, cs')))"

definition ConsumerGroup_reap_stale_members ::
  "ConsumerGroup \<Rightarrow> TimestampMs \<Rightarrow> usize \<Rightarrow> ConsumerGroupError + Consumer list \<times> ConsumerGroup" where
  "ConsumerGroup_reap_stale_members g stale_before max_members =
     (if max_members = 0 then Err InvalidMemberCapacity
      else if stale_ids g stale_before max_members = [] then Ok ([], g)
      else
        try_r (group_fv (Generation_next (group_generation g))) (\<lambda>next_generation.
        try_r (group_fv (Revision_next (group_revision g))) (\<lambda>next_revision.
        case remove_members (stale_ids g stale_before max_members) (group_consumers g) of
          (removed, cs) \<Rightarrow>
            Ok (removed,
                g\<lparr>group_consumers := cs, group_generation := next_generation,
                  group_revision := next_revision\<rparr>))))"

section \<open>Summaries and the directory\<close>

record ConsumerGroupSummary =
  gs_group_id :: ConsumerGroupId
  gs_namespace_id :: NamespaceId
  gs_generation :: Generation
  gs_revision :: Revision
  gs_consumer_count :: usize

record ConsumerGroupDirectory =
  dir_term :: Term
  dir_revision :: Revision
  dir_groups :: "ConsumerGroupSummary list"

definition ConsumerGroup_summary :: "ConsumerGroup \<Rightarrow> ConsumerGroupSummary" where
  "ConsumerGroup_summary g =
     \<lparr>gs_group_id = group_id g, gs_namespace_id = group_namespace_id g,
      gs_generation = group_generation g, gs_revision = group_revision g,
      gs_consumer_count = consumer_count g\<rparr>"

definition directory_group ::
  "ConsumerGroupDirectory \<Rightarrow> ConsumerGroupId \<Rightarrow> ConsumerGroupSummary option" where
  "directory_group d gid =
     map_option (\<lambda>index. dir_groups d ! index) (bsearch gs_group_id (dir_groups d) gid)"

section \<open>Checkpoints\<close>

datatype CheckpointError =
    ZeroEntityRevision string
  | DuplicateNamespace NamespaceId
  | DuplicateTask TaskId
  | DuplicateConsumerGroup ConsumerGroupId
  | DuplicateMember ConsumerId
  | DuplicateActiveLease LeaseId
  | UnknownNamespace string NamespaceId

fun CheckpointError_display :: "CheckpointError \<Rightarrow> string" where
  "CheckpointError_display (ZeroEntityRevision entity) =
     entity @ '' checkpoint revision must be positive''"
| "CheckpointError_display (DuplicateNamespace ns) =
     ''duplicate namespace '' @ ns_str ns @ '' in checkpoint''"
| "CheckpointError_display (DuplicateTask tid) =
     ''duplicate task '' @ task_str tid @ '' in checkpoint''"
| "CheckpointError_display (DuplicateConsumerGroup gid) =
     ''duplicate Consumer Group '' @ group_str gid @ '' in checkpoint''"
| "CheckpointError_display (DuplicateMember mid) =
     ''duplicate member '' @ consumer_str mid @ '' in checkpoint''"
| "CheckpointError_display (DuplicateActiveLease lid) =
     ''duplicate active lease '' @ lease_str lid @ '' in checkpoint''"
| "CheckpointError_display (UnknownNamespace entity ns) =
     entity @ '' checkpoint references unknown namespace '' @ ns_str ns"

record ConsumerGroupCheckpoint =
  gc_group_id :: ConsumerGroupId
  gc_namespace_id :: NamespaceId
  gc_generation :: Generation
  gc_revision :: Revision
  gc_members :: "MemberCheckpoint list"

definition ConsumerGroup_checkpoint :: "ConsumerGroup \<Rightarrow> ConsumerGroupCheckpoint" where
  "ConsumerGroup_checkpoint g =
     \<lparr>gc_group_id = group_id g, gc_namespace_id = group_namespace_id g,
      gc_generation = group_generation g, gc_revision = group_revision g,
      gc_members = map Consumer_checkpoint (fm_values (group_consumers g))\<rparr>"

fun restore_members ::
  "MemberCheckpoint list \<Rightarrow> (ConsumerId, Consumer) fmap
   \<Rightarrow> CheckpointError + (ConsumerId, Consumer) fmap" where
  "restore_members [] cs = Ok cs"
| "restore_members (m # ms) cs =
     (if fmlookup cs (mc_member_id m) \<noteq> None then Err (DuplicateMember (mc_member_id m))
      else restore_members ms (fmupd (mc_member_id m) (Consumer_from_checkpoint m) cs))"

definition ConsumerGroup_from_checkpoint ::
  "ConsumerGroupCheckpoint \<Rightarrow> CheckpointError + ConsumerGroup" where
  "ConsumerGroup_from_checkpoint c =
     try_r (restore_members (gc_members c) fmempty) (\<lambda>consumers.
     Ok \<lparr>group_id = gc_group_id c, group_namespace_id = gc_namespace_id c,
         group_generation = gc_generation c, group_revision = gc_revision c,
         group_consumers = consumers\<rparr>)"

section \<open>Capability sets\<close>

definition normalized :: "Capabilities \<Rightarrow> bool" where
  "normalized cs \<longleftrightarrow> sorted_wrt (<) cs \<and> length cs \<le> MAX_CAPABILITIES \<and>
     (\<forall>c \<in> set cs. valid_identifier MAX_CAPABILITY_BYTES (cap_str c))"

interpretation cap: validated_text Capability_new cap_str "valid_identifier 64"
proof unfold_locales
  fix s x y
  show "valid_identifier 64 s \<Longrightarrow> \<exists>x. Capability_new s = Ok x"
    by (auto simp: Capability_new_def MAX_CAPABILITY_BYTES_def
        is_identifier_byte_def list_all_iff split: list.splits)
  show "Capability_new s = Ok x \<Longrightarrow> valid_identifier 64 s"
    by (auto simp: Capability_new_def MAX_CAPABILITY_BYTES_def
        is_identifier_byte_def list_all_iff split: list.splits if_splits)
  show "Capability_new s = Ok x \<Longrightarrow> cap_str x = s"
    by (auto simp: Capability_new_def split: list.splits if_splits)
qed (simp add: Capability.expand)

lemma Capabilities_new_Ok:
  "Capabilities_new vs = Ok cs \<longleftrightarrow>
     length vs \<le> 64 \<and> (\<forall>v \<in> set vs. valid_identifier 64 v) \<and>
     cs = sorted_list_of_set (Capability ` set vs)"
proof -
  have *: "collect_results Capability_new vs = Ok ds \<longleftrightarrow>
      (\<forall>v \<in> set vs. valid_identifier 64 v) \<and> ds = map Capability vs" for ds
    by (induction vs arbitrary: ds)
      (auto simp: try_r_Ok cap.new_Ok_iff Capability.expand)
  have "sorted_list_of_fset (fset_of_list (map Capability vs)) = sorted_list_of_set (Capability ` set vs)"
    by (simp add: sorted_list_of_fset.rep_eq fset_of_list.rep_eq)
  then show ?thesis
    by (auto simp: Capabilities_new_def try_r_Ok * MAX_CAPABILITIES_def)
qed

lemma Capabilities_new_normalized:
  assumes "Capabilities_new vs = Ok cs"
  shows "normalized cs"
proof -
  have "card (Capability ` set vs) \<le> 64"
    using assms card_image_le [of "set vs" Capability] card_length [of vs]
    by (simp add: Capabilities_new_Ok)
  with assms show ?thesis
    by (auto simp: Capabilities_new_Ok normalized_def MAX_CAPABILITIES_def MAX_CAPABILITY_BYTES_def)
qed

lemma contains_all_subset:
  assumes "sorted_wrt (<) self"
  shows "contains_all self required \<longleftrightarrow> set required \<subseteq> set self"
proof -
  have "bsearch id self c \<noteq> None \<longleftrightarrow> c \<in> set self" for c
    using bsearch_Some_iff [of id self c] assms strict_sorted_imp_sorted [of self] by auto
  then show ?thesis by (auto simp: contains_all_def list_all_iff)
qed

section \<open>Membership\<close>

definition group_wf :: "ConsumerGroup \<Rightarrow> bool" where
  "group_wf g \<longleftrightarrow> group_revision g \<noteq> 0 \<and>
     (\<forall>mid c. fmlookup (group_consumers g) mid = Some c \<longrightarrow>
        consumer_id c = mid \<and> consumer_revision c \<noteq> 0)"

abbreviation members :: "ConsumerGroup \<Rightarrow> ConsumerId set" where
  "members g \<equiv> fset (fmdom (group_consumers g))"

lemma group_fv_simps [simp]:
  "group_fv x = Ok y \<longleftrightarrow> x = Ok y"
  "group_fv x = Err e \<longleftrightarrow> (\<exists>f. x = Err f \<and> e = ConsumerGroupError.FencingValue f)"
  by (auto simp: group_fv_def map_err_Err_iff)

lemma require_generation_Ok [simp]: "require_generation g n = Ok u \<longleftrightarrow> group_generation g = n"
  by (auto simp: require_generation_def)

text \<open>The membership of a group and its generation after each operation.\<close>

definition touched :: "ConsumerId \<Rightarrow> TimestampMs \<Rightarrow> ConsumerGroup \<Rightarrow> ConsumerGroup \<Rightarrow> bool" where
  "touched mid now g g' \<longleftrightarrow>
     (\<exists>m mr r. fmlookup (group_consumers g) mid = Some m \<and> consumer_last_heartbeat_at_ms m < now \<and>
        Revision_next (consumer_revision m) = Ok mr \<and> Revision_next (group_revision g) = Ok r \<and>
        g' = g\<lparr>group_consumers := fmupd mid
                 (m\<lparr>consumer_last_heartbeat_at_ms := now, consumer_revision := mr\<rparr>)
                 (group_consumers g), group_revision := r\<rparr>)"

lemma join_Ok:
  "ConsumerGroup_join g mid caps now n = Ok (oc, g') \<longleftrightarrow>
     (case fmlookup (group_consumers g) mid of
        Some m \<Rightarrow> consumer_capabilities m = caps \<and>
          (oc = JoinOutcome.Unchanged \<and> now \<le> consumer_last_heartbeat_at_ms m \<and> g' = g \<or>
           oc = Refreshed \<and> touched mid now g g')
      | None \<Rightarrow> oc = Added \<and> consumer_count g < n \<and>
          (\<exists>gen r. Generation_next (group_generation g) = Ok gen \<and>
             Revision_next (group_revision g) = Ok r \<and>
             g' = g\<lparr>group_consumers := fmupd mid (Consumer_new mid caps now) (group_consumers g),
                    group_generation := gen, group_revision := r\<rparr>))"
  by (auto simp: ConsumerGroup_join_def touched_def consumer_count_def try_r_Ok split: option.splits)

lemma heartbeat_Ok:
  "ConsumerGroup_heartbeat g mid gen now = Ok (oc, g') \<longleftrightarrow>
     group_generation g = gen \<and>
     (oc = HeartbeatOutcome.Unchanged \<and> g' = g \<and>
        (\<exists>m. fmlookup (group_consumers g) mid = Some m \<and> now \<le> consumer_last_heartbeat_at_ms m) \<or>
      oc = Updated \<and> touched mid now g g')"
  by (auto simp: ConsumerGroup_heartbeat_def touched_def try_r_Ok split: option.splits)

lemma leave_Ok:
  "ConsumerGroup_leave g mid gen = Ok (m, g') \<longleftrightarrow>
     group_generation g = gen \<and> fmlookup (group_consumers g) mid = Some m \<and>
     (\<exists>gen' r. Generation_next (group_generation g) = Ok gen' \<and> Revision_next (group_revision g) = Ok r \<and>
        g' = g\<lparr>group_consumers := fmdrop mid (group_consumers g),
               group_generation := gen', group_revision := r\<rparr>)"
  by (auto simp: ConsumerGroup_leave_def try_r_Ok split: option.splits)

lemma remove_members_spec:
  assumes "distinct mids" "\<forall>mid \<in> set mids. mid |\<in>| fmdom cs"
  shows "remove_members mids cs =
           (map (\<lambda>mid. the (fmlookup cs mid)) mids, fmfilter (\<lambda>mid. mid \<notin> set mids) cs)"
  using assms
proof (induction mids arbitrary: cs)
  case (Cons mid mids)
  then obtain m where m: "fmlookup cs mid = Some m" by (meson fmdomE list.set_intros(1))
  have "fmfilter (\<lambda>k. k \<notin> set mids) (fmdrop mid cs) = fmfilter (\<lambda>k. k \<notin> set (mid # mids)) cs"
    by (rule fmap_ext) auto
  moreover have "remove_members mids (fmdrop mid cs) =
      (map (\<lambda>k. the (fmlookup (fmdrop mid cs) k)) mids,
       fmfilter (\<lambda>k. k \<notin> set mids) (fmdrop mid cs))"
    using Cons.prems by (intro Cons.IH) auto
  ultimately show ?case using m Cons.prems by auto
qed (auto intro: fmap_ext)

lemma stale_ids_members:
  assumes "group_wf g" "mid \<in> set (stale_ids g before n)"
  shows "\<exists>m. fmlookup (group_consumers g) mid = Some m \<and> consumer_last_heartbeat_at_ms m \<le> before"
proof -
  from assms(2) obtain m where "m \<in> set (fm_values (group_consumers g))"
    "consumer_id m = mid" "consumer_last_heartbeat_at_ms m \<le> before"
    by (auto simp: stale_ids_def fset_of_list_elem dest!: in_set_takeD)
  with assms(1) show ?thesis
    by (auto simp: in_fm_values group_wf_def)
qed

lemma distinct_stale_ids:
  assumes "group_wf g"
  shows "distinct (stale_ids g before n)"
proof -
  let ?xs = "map (\<lambda>m. (consumer_last_heartbeat_at_ms m, consumer_id m))
      (filter (\<lambda>m. consumer_last_heartbeat_at_ms m \<le> before) (fm_values (group_consumers g)))"
  have "inj_on snd (set ?xs)"
    using assms by (auto simp: inj_on_def in_fm_values group_wf_def)
  moreover have "set (take n (sorted_list_of_fset (fset_of_list ?xs))) \<subseteq> set ?xs"
    by (rule subset_trans [OF set_take_subset]) (simp only: set_sorted_fset_of_list subset_refl)
  ultimately have "inj_on snd (set (take n (sorted_list_of_fset (fset_of_list ?xs))))"
    by (rule inj_on_subset)
  then show ?thesis
    unfolding stale_ids_def distinct_map
    by (simp only: distinct_take distinct_sorted_list_of_fset simp_thms)
qed

lemma reap_Ok:
  assumes "group_wf g"
  shows "ConsumerGroup_reap_stale_members g before n = Ok (removed, g') \<longleftrightarrow>
     n \<noteq> 0 \<and> removed = map (\<lambda>mid. the (fmlookup (group_consumers g) mid)) (stale_ids g before n) \<and>
     (if stale_ids g before n = [] then g' = g
      else \<exists>gen r. Generation_next (group_generation g) = Ok gen \<and>
        Revision_next (group_revision g) = Ok r \<and>
        g' = g\<lparr>group_consumers :=
                 fmfilter (\<lambda>mid. mid \<notin> set (stale_ids g before n)) (group_consumers g),
               group_generation := gen, group_revision := r\<rparr>)"
proof -
  have "\<forall>mid \<in> set (stale_ids g before n). mid |\<in>| fmdom (group_consumers g)"
    using stale_ids_members [OF assms] by (fastforce simp: fmlookup_dom_iff)
  then have "remove_members (stale_ids g before n) (group_consumers g) =
      (map (\<lambda>mid. the (fmlookup (group_consumers g) mid)) (stale_ids g before n),
       fmfilter (\<lambda>mid. mid \<notin> set (stale_ids g before n)) (group_consumers g))"
    using distinct_stale_ids [OF assms] by (simp add: remove_members_spec)
  then show ?thesis
    by (auto simp: ConsumerGroup_reap_stale_members_def try_r_Ok)
qed

section \<open>Invariant\<close>

lemma group_wf_new: "group_wf (ConsumerGroup_new gid ns)"
  by (simp add: group_wf_def ConsumerGroup_new_def)

lemma group_wf_touched: "group_wf g \<Longrightarrow> touched mid now g g' \<Longrightarrow> group_wf g'"
  by (auto simp: group_wf_def touched_def split: if_splits)

lemma group_wf_join:
  "group_wf g \<Longrightarrow> ConsumerGroup_join g mid caps now n = Ok (oc, g') \<Longrightarrow> group_wf g'"
  by (cases "fmlookup (group_consumers g) mid")
    (auto simp: join_Ok group_wf_touched, auto simp: group_wf_def Consumer_new_def split: if_splits)

lemma group_wf_heartbeat:
  "group_wf g \<Longrightarrow> ConsumerGroup_heartbeat g mid gen now = Ok (oc, g') \<Longrightarrow> group_wf g'"
  by (auto simp: heartbeat_Ok group_wf_touched)

lemma group_wf_leave:
  "group_wf g \<Longrightarrow> ConsumerGroup_leave g mid gen = Ok (m, g') \<Longrightarrow> group_wf g'"
  by (auto simp: leave_Ok group_wf_def split: if_splits)

lemma group_wf_reap:
  "group_wf g \<Longrightarrow> ConsumerGroup_reap_stale_members g before n = Ok (ms, g') \<Longrightarrow> group_wf g'"
  by (auto simp: reap_Ok group_wf_def split: if_splits)

lemma touched_members: "touched mid now g g' \<Longrightarrow> members g' = members g \<and> group_generation g' = group_generation g"
  by (auto simp: touched_def fmlookup_dom_iff)

text \<open>The membership generation advances exactly when the set of members changes.\<close>

lemma join_generation:
  assumes "ConsumerGroup_join g mid caps now n = Ok (oc, g')"
  shows "members g' = insert mid (members g) \<and> group_generation g \<le> group_generation g' \<and>
    (group_generation g' = group_generation g \<longleftrightarrow> mid \<in> members g)"
proof (cases "fmlookup (group_consumers g) mid")
  case None
  with assms obtain gen where "Generation_next (group_generation g) = Ok gen"
    "group_generation g' = gen" "group_consumers g' = fmupd mid (Consumer_new mid caps now) (group_consumers g)"
    by (auto simp: join_Ok)
  with None show ?thesis
    using generation.next_less [of "group_generation g" gen] by (auto simp: fmdom_notI)
next
  case (Some m)
  then have "mid \<in> members g" by (simp add: fmdomI)
  moreover from Some assms have "g' = g \<or> touched mid now g g'" by (auto simp: join_Ok)
  ultimately show ?thesis using touched_members [of mid now g g'] by auto
qed

lemma leave_generation:
  assumes "ConsumerGroup_leave g mid gen = Ok (m, g')"
  shows "members g' = members g - {mid}" "mid \<in> members g" "group_generation g < group_generation g'"
  using assms by (auto simp: leave_Ok fmlookup_dom_iff dest: generation.next_less)

section \<open>Checkpoint round trip\<close>

lemma Consumer_checkpoint_round [simp]:
  "Consumer_from_checkpoint (Consumer_checkpoint c) = c"
  "Consumer_checkpoint (Consumer_from_checkpoint mc) = mc"
  by (simp_all add: Consumer_from_checkpoint_def Consumer_checkpoint_def)

end
