(* ===== verification/Coordinator.thy ===== *)
theory Coordinator
  imports Group
begin

text \<open>
  \<open>agent-broker-domain/src/group/coordinator.rs\<close>: membership operations on the registry of
  all groups.  \<open>group_mut\<close> selects the group; the operation's new group replaces it.
\<close>

datatype GroupCoordinatorError =
    GroupNotFound ConsumerGroupId
  | Transition ConsumerGroupError

fun GroupCoordinatorError_display :: "GroupCoordinatorError \<Rightarrow> string" where
  "GroupCoordinatorError_display (GroupNotFound gid) =
     ''Consumer Group '' @ group_str gid @ '' does not exist''"
| "GroupCoordinatorError_display (Transition e) = ConsumerGroupError_display e"

type_synonym group_registry = "(ConsumerGroupId, ConsumerGroup) fmap"

definition group_mut :: "group_registry \<Rightarrow> ConsumerGroupId \<Rightarrow> GroupCoordinatorError + ConsumerGroup" where
  "group_mut groups gid =
     (case fmlookup groups gid of None \<Rightarrow> Err (GroupNotFound gid) | Some g \<Rightarrow> Ok g)"

text \<open>\<open>group_mut(..)?.op(..).map_err(Into::into)\<close>, the updated group written back.\<close>

definition coordinate ::
  "(ConsumerGroup \<Rightarrow> ConsumerGroupError + 'a \<times> ConsumerGroup) \<Rightarrow> group_registry \<Rightarrow> ConsumerGroupId
   \<Rightarrow> GroupCoordinatorError + 'a \<times> group_registry" where
  "coordinate op groups gid =
     try_r (group_mut groups gid) (\<lambda>g.
     try_r (map_err Transition (op g)) (\<lambda>(outcome, g').
     Ok (outcome, fmupd gid g' groups)))"

definition coordinator_join ::
  "group_registry \<Rightarrow> ConsumerGroupId \<Rightarrow> ConsumerId \<Rightarrow> Capabilities \<Rightarrow> TimestampMs \<Rightarrow> usize
   \<Rightarrow> GroupCoordinatorError + JoinOutcome \<times> group_registry" where
  "coordinator_join groups gid mid caps now max_members =
     coordinate (\<lambda>g. ConsumerGroup_join g mid caps now max_members) groups gid"

definition coordinator_heartbeat ::
  "group_registry \<Rightarrow> ConsumerGroupId \<Rightarrow> ConsumerId \<Rightarrow> Generation \<Rightarrow> TimestampMs
   \<Rightarrow> GroupCoordinatorError + HeartbeatOutcome \<times> group_registry" where
  "coordinator_heartbeat groups gid mid expected now =
     coordinate (\<lambda>g. ConsumerGroup_heartbeat g mid expected now) groups gid"

definition coordinator_leave ::
  "group_registry \<Rightarrow> ConsumerGroupId \<Rightarrow> ConsumerId \<Rightarrow> Generation
   \<Rightarrow> GroupCoordinatorError + Consumer \<times> group_registry" where
  "coordinator_leave groups gid mid expected =
     coordinate (\<lambda>g. ConsumerGroup_leave g mid expected) groups gid"

definition coordinator_reap_stale_members ::
  "group_registry \<Rightarrow> ConsumerGroupId \<Rightarrow> TimestampMs \<Rightarrow> usize
   \<Rightarrow> GroupCoordinatorError + Consumer list \<times> group_registry" where
  "coordinator_reap_stale_members groups gid stale_before max_members =
     coordinate (\<lambda>g. ConsumerGroup_reap_stale_members g stale_before max_members) groups gid"

definition require_member ::
  "group_registry \<Rightarrow> ConsumerGroupId \<Rightarrow> ConsumerId \<Rightarrow> Generation
   \<Rightarrow> GroupCoordinatorError + NamespaceId \<times> Generation" where
  "require_member groups gid mid expected =
     (case fmlookup groups gid of
        None \<Rightarrow> Err (GroupNotFound gid)
      | Some g \<Rightarrow>
          try_r (map_err Transition (require_generation g expected)) (\<lambda>_.
          if fmlookup (group_consumers g) mid = None then Err (Transition (MemberNotFound mid))
          else Ok (group_namespace_id g, group_generation g)))"

definition consumers_matching_capabilities ::
  "group_registry \<Rightarrow> ConsumerGroupId \<Rightarrow> Capabilities \<Rightarrow> GroupCoordinatorError + ConsumerId list" where
  "consumers_matching_capabilities groups gid required =
     (case fmlookup groups gid of
        None \<Rightarrow> Err (GroupNotFound gid)
      | Some g \<Rightarrow>
          Ok (map consumer_id
               (filter (\<lambda>c. contains_all (consumer_capabilities c) required)
                 (fm_values (group_consumers g)))))"

lemma coordinate_Ok:
  "coordinate op groups gid = Ok (oc, groups') \<longleftrightarrow>
     (\<exists>g g'. fmlookup groups gid = Some g \<and> op g = Ok (oc, g') \<and> groups' = fmupd gid g' groups)"
  by (auto simp: coordinate_def group_mut_def try_r_Ok split: option.splits)

lemmas coordinator_Ok =
  coordinator_join_def coordinator_heartbeat_def coordinator_leave_def
  coordinator_reap_stale_members_def coordinate_Ok

lemma require_member_Ok:
  "require_member groups gid mid gen = Ok (ns, gen') \<longleftrightarrow>
     (\<exists>g. fmlookup groups gid = Some g \<and> group_generation g = gen \<and> mid \<in> members g \<and>
        ns = group_namespace_id g \<and> gen' = gen)"
  by (auto simp: require_member_def try_r_Ok fmlookup_dom_iff split: option.splits)

text \<open>Candidates are exactly the members whose capability set includes the required one.\<close>

lemma matching_consumers:
  assumes "fmlookup groups gid = Some g" "group_wf g"
    and "\<And>c. c \<in> set (fm_values (group_consumers g)) \<Longrightarrow> sorted_wrt (<) (consumer_capabilities c)"
  shows "\<exists>ids. consumers_matching_capabilities groups gid required = Ok ids \<and> sorted_wrt (<) ids \<and>
    set ids = {mid. \<exists>c. fmlookup (group_consumers g) mid = Some c \<and>
                 set required \<subseteq> set (consumer_capabilities c)}"
proof -
  define P where "P c \<longleftrightarrow> contains_all (consumer_capabilities c) required" for c :: Consumer
  define es where "es = sorted_list_of_fmap (group_consumers g)"
  define ids where "ids = map fst (filter (\<lambda>e. P (snd e)) es)"
  have P: "P c \<longleftrightarrow> set required \<subseteq> set (consumer_capabilities c)"
    if "fmlookup (group_consumers g) mid = Some c" for mid c
  proof -
    have "sorted_wrt (<) (consumer_capabilities c)"
      using that by (intro assms(3)) (auto simp: in_fm_values)
    then show ?thesis by (simp add: P_def contains_all_subset)
  qed
  have "map consumer_id (filter P (fm_values (group_consumers g))) = ids"
    using assms(2) by (auto simp: ids_def es_def fm_values_def filter_map o_def set_entries group_wf_def)
  then have "consumers_matching_capabilities groups gid required = Ok ids"
    using assms(1) by (simp add: consumers_matching_capabilities_def P_def [abs_def])
  moreover have "sorted_wrt (<) (map fst es)"
    by (simp add: es_def)
  then have "sorted_wrt (<) ids"
    unfolding ids_def sorted_wrt_map by (rule sorted_wrt_filter)
  moreover have "set ids = {mid. \<exists>c. fmlookup (group_consumers g) mid = Some c \<and>
      set required \<subseteq> set (consumer_capabilities c)}"
    using P by (auto simp: ids_def es_def set_entries image_iff)
  ultimately show ?thesis by blast
qed

end
