(* ===== verification/Commands.thy ===== *)
theory Commands
  imports Coordinator
begin

text \<open>
  \<open>agent-broker-domain/src/commands.rs\<close> and \<open>results.rs\<close>: the commands of the state
  machine, their results and the change sets.  Field names carry a prefix per record, since record
  fields are global names.
\<close>

section \<open>Commands\<close>

record EnsureNamespaceCommand =
  en_namespace_id :: NamespaceId
  en_max_namespaces :: usize

record PublishTaskCommand =
  pt_namespace_id :: NamespaceId
  pt_task_id :: TaskId
  pt_objective :: TaskObjective
  pt_created_at_ms :: TimestampMs
  pt_max_namespace_tasks :: usize

record EnsureConsumerGroupCommand =
  eg_namespace_id :: NamespaceId
  eg_group_id :: ConsumerGroupId
  eg_max_namespace_groups :: usize

record JoinConsumerGroupCommand =
  jg_group_id :: ConsumerGroupId
  jg_member_id :: ConsumerId
  jg_capabilities :: Capabilities
  jg_now_ms :: TimestampMs
  jg_max_group_members :: usize

record HeartbeatCommand =
  hb_group_id :: ConsumerGroupId
  hb_member_id :: ConsumerId
  hb_expected_generation :: Generation
  hb_now_ms :: TimestampMs

record LeaveConsumerGroupCommand =
  lg_group_id :: ConsumerGroupId
  lg_member_id :: ConsumerId
  lg_expected_generation :: Generation

record ReapStaleMembersCommand =
  rs_stale_before_ms :: TimestampMs
  rs_max_members :: usize

record ClaimTaskCommand =
  ct_group_id :: ConsumerGroupId
  ct_member_id :: ConsumerId
  ct_expected_term :: Term
  ct_expected_generation :: Generation
  ct_lease_id :: LeaseId
  ct_now_ms :: TimestampMs
  ct_lease_duration_ms :: u64

record RenewTaskLeaseCommand =
  rl_task_id :: TaskId
  rl_group_id :: ConsumerGroupId
  rl_member_id :: ConsumerId
  rl_expected_term :: Term
  rl_expected_generation :: Generation
  rl_expected_lease_epoch :: LeaseEpoch
  rl_lease_id :: LeaseId
  rl_now_ms :: TimestampMs
  rl_lease_duration_ms :: u64

record CompleteTaskCommand =
  cm_task_id :: TaskId
  cm_group_id :: ConsumerGroupId
  cm_member_id :: ConsumerId
  cm_expected_term :: Term
  cm_expected_generation :: Generation
  cm_expected_lease_epoch :: LeaseEpoch
  cm_lease_id :: LeaseId
  cm_result :: TaskResult
  cm_completed_at_ms :: TimestampMs

record PruneCompletedTasksCommand =
  pc_completed_before_ms :: TimestampMs
  pc_max_tasks :: usize

record AdvanceTermCommand =
  at_expected_term :: Term
  at_new_term :: Term

datatype BrokerCommand =
    EnsureNamespace EnsureNamespaceCommand
  | PublishTask PublishTaskCommand
  | EnsureConsumerGroup EnsureConsumerGroupCommand
  | JoinConsumerGroup JoinConsumerGroupCommand
  | Heartbeat HeartbeatCommand
  | LeaveConsumerGroup LeaveConsumerGroupCommand
  | ReapStaleMembers ReapStaleMembersCommand
  | ClaimTask ClaimTaskCommand
  | RenewTaskLease RenewTaskLeaseCommand
  | CompleteTask CompleteTaskCommand
  | PruneCompletedTasks PruneCompletedTasksCommand
  | AdvanceTerm AdvanceTermCommand

section \<open>Results\<close>

record MutationMetadata =
  md_term :: Term
  md_revision :: Revision

record NamespaceResult =
  nr_metadata :: MutationMetadata
  nr_namespace_id :: NamespaceId
  nr_namespace_revision :: Revision

record TaskPublishedResult =
  tp_metadata :: MutationMetadata
  tp_task_id :: TaskId
  tp_task_revision :: Revision
  tp_status :: TaskStatus

record ConsumerGroupResult =
  gr_metadata :: MutationMetadata
  gr_group_id :: ConsumerGroupId
  gr_generation :: Generation
  gr_group_revision :: Revision
  gr_member_count :: usize

record HeartbeatResult =
  hr_metadata :: MutationMetadata
  hr_group_id :: ConsumerGroupId
  hr_member_id :: ConsumerId
  hr_generation :: Generation
  hr_member_revision :: Revision

record StaleMembersReapedResult =
  sr_metadata :: MutationMetadata
  sr_reaped_count :: usize
  sr_affected_group_count :: usize

record TaskClaimResult =
  cr_metadata :: MutationMetadata
  cr_task_id :: "TaskId option"
  cr_objective :: "TaskObjective option"
  cr_task_revision :: "Revision option"
  cr_lease_id :: "LeaseId option"
  cr_lease_epoch :: "LeaseEpoch option"
  cr_lease_expires_at_ms :: "TimestampMs option"
  cr_generation :: Generation

record TaskLeaseRenewedResult =
  rr_metadata :: MutationMetadata
  rr_task_id :: TaskId
  rr_task_revision :: Revision
  rr_lease_id :: LeaseId
  rr_lease_epoch :: LeaseEpoch
  rr_lease_expires_at_ms :: TimestampMs
  rr_generation :: Generation

record TaskCompletedResult =
  cd_metadata :: MutationMetadata
  cd_task_id :: TaskId
  cd_task_revision :: Revision
  cd_status :: TaskStatus

record CompletedTasksPrunedResult =
  pr_metadata :: MutationMetadata
  pr_pruned_count :: usize

record TermAdvancedResult =
  ta_metadata :: MutationMetadata

record StateChangeSet =
  cs_namespaces :: "NamespaceId list"
  cs_tasks :: "TaskId list"
  cs_deleted_tasks :: "TaskId list"
  cs_groups :: "ConsumerGroupId list"

definition StateChangeSet_is_empty :: "StateChangeSet \<Rightarrow> bool" where
  "StateChangeSet_is_empty c \<longleftrightarrow>
     cs_namespaces c = [] \<and> cs_tasks c = [] \<and> cs_deleted_tasks c = [] \<and> cs_groups c = []"

datatype BrokerMutationResult =
    Namespace NamespaceResult
  | TaskPublished TaskPublishedResult
  | ConsumerGroup ConsumerGroupResult
  | Heartbeat HeartbeatResult
  | StaleMembersReaped StaleMembersReapedResult
  | TaskClaim TaskClaimResult
  | TaskLeaseRenewed TaskLeaseRenewedResult
  | TaskCompleted TaskCompletedResult
  | CompletedTasksPruned CompletedTasksPrunedResult
  | TermAdvanced TermAdvancedResult

record AppliedMutation =
  am_result :: BrokerMutationResult
  am_changes :: StateChangeSet

end
