(* ===== verification/Min_Heap.thy ===== *)
theory Min_Heap
  imports Prelude
begin

text \<open>
  \<open>BinaryHeap<Reverse<T>>\<close>, the priority queue of the derived indexes. The locale states what
  the state machine relies on: \<open>push\<close> adds one element, \<open>pop\<close> removes a least one. The
  model is the ascending list of the elements, interpreted below.
\<close>

locale min_heap =
  fixes empty :: "'h"
    and push :: "'a::linorder \<Rightarrow> 'h \<Rightarrow> 'h"
    and pop :: "'h \<Rightarrow> ('a \<times> 'h) option"
    and items :: "'h \<Rightarrow> 'a multiset"
    and invar :: "'h \<Rightarrow> bool"
  assumes items_empty: "items empty = {#}"
    and invar_empty: "invar empty"
    and items_push: "invar h \<Longrightarrow> items (push x h) = add_mset x (items h)"
    and invar_push: "invar h \<Longrightarrow> invar (push x h)"
    and pop_None: "invar h \<Longrightarrow> pop h = None \<longleftrightarrow> items h = {#}"
    and items_pop: "invar h \<Longrightarrow> pop h = Some (x, h') \<Longrightarrow> items h = add_mset x (items h')"
    and pop_least: "invar h \<Longrightarrow> pop h = Some (x, h') \<Longrightarrow> y \<in># items h \<Longrightarrow> x \<le> y"
    and invar_pop: "invar h \<Longrightarrow> pop h = Some (x, h') \<Longrightarrow> invar h'"
begin

lemma pop_Min:
  assumes "invar h" "pop h = Some (x, h')"
  shows "x = Min_mset (items h) \<and> x \<in># items h"
  using items_pop [OF assms] pop_least [OF assms]
  by (auto intro!: Min_eqI [symmetric])

lemma pop_exists:
  assumes "invar h" "x \<in># items h"
  obtains y h' where "pop h = Some (y, h')" "y \<le> x"
proof -
  from assms pop_None have "pop h \<noteq> None" by force
  then obtain y h' where "pop h = Some (y, h')" by auto
  with assms pop_least that show ?thesis by blast
qed

lemma pop_size: "invar h \<Longrightarrow> pop h = Some (x, h') \<Longrightarrow> size (items h') < size (items h)"
  by (simp add: items_pop)

lemma pop_push:
  assumes "invar h" "pop (push x h) = Some (y, h')"
  shows "y \<le> x \<and> (y \<noteq> x \<longrightarrow> x \<in># items h')"
proof -
  note inv = invar_push [OF assms(1)]
  have "y \<le> x" using pop_least [OF inv assms(2)] items_push [OF assms(1)] by simp
  moreover have "add_mset x (items h) = add_mset y (items h')"
    using items_pop [OF inv assms(2)] items_push [OF assms(1)] by simp
  then have "x \<in># add_mset y (items h')" by (metis union_single_eq_member)
  ultimately show ?thesis by auto
qed

end

type_synonym 'a heap = "'a list"

definition heap_push :: "'a::linorder \<Rightarrow> 'a heap \<Rightarrow> 'a heap" where
  "heap_push x h = insort x h"

fun heap_pop :: "'a heap \<Rightarrow> ('a \<times> 'a heap) option" where
  "heap_pop [] = None"
| "heap_pop (x # h) = Some (x, h)"

definition heap_peek :: "'a heap \<Rightarrow> 'a option" where
  "heap_peek h = map_option fst (heap_pop h)"

interpretation bh: min_heap "[]" heap_push heap_pop mset sorted
proof unfold_locales
  fix h h' :: "'a::linorder list" and x y :: 'a
  assume "sorted h" "heap_pop h = Some (x, h')"
  then show "y \<in># mset h \<Longrightarrow> x \<le> y" by (cases h) auto
next
  fix h h' :: "'a::linorder list" and x :: 'a
  assume "sorted h" "heap_pop h = Some (x, h')"
  then show "sorted h'" by (cases h) auto
next
  fix h h' :: "'a::linorder list" and x :: 'a
  assume "heap_pop h = Some (x, h')"
  then show "mset h = add_mset x (mset h')" by (cases h) auto
next
  fix h :: "'a::linorder list"
  show "heap_pop h = None \<longleftrightarrow> mset h = {#}" by (cases h) auto
qed (auto simp: heap_push_def sorted_insort)

lemma heap_pop_Some [simp]: "heap_pop h = Some (x, h') \<longleftrightarrow> h = x # h'"
  by (cases h) auto

lemma heap_pop_None [simp]: "heap_pop h = None \<longleftrightarrow> h = []"
  by (cases h) auto

lemma heap_peek_simps [simp]: "heap_peek [] = None" "heap_peek (x # h) = Some x"
  by (simp_all add: heap_peek_def)

lemma set_heap_push [simp]: "set (heap_push x h) = insert x (set h)"
  by (simp add: heap_push_def set_insort_key)

lemma strict_heap_push [simp]:
  "sorted_wrt (<) (heap_push x h) \<longleftrightarrow> sorted_wrt (<) h \<and> x \<notin> set h"
  by (auto simp: heap_push_def strict_sorted_iff sorted_insort distinct_insort)

lemma strict_heap_eqI:
  assumes "sorted_wrt (<) h" "sorted_wrt (<) h'" "set h = set h'"
  shows "h = (h' :: 'a::linorder heap)"
  using assms by (metis strict_sorted_equal)

end
