(* ===== verification/State_Machine.thy ===== *)
theory State_Machine
  imports Commands Min_Heap
begin

text \<open>
  \<open>agent-broker-domain/src/state_machine.rs\<close>: the authoritative state, the derived indexes and
  every command handler.  A handler maps the machine to its result and the machine it leaves
  behind, also when it fails: some handlers mutate before their last fallible step.
\<close>

section \<open>State\<close>

record Namespace =
  namespace_id :: NamespaceId
  namespace_revision :: Revision

definition Namespace_new :: "NamespaceId \<Rightarrow> Namespace" where
  "Namespace_new ns = \<lparr>namespace_id = ns, namespace_revision = 1\<rparr>"

record BrokerState =
  st_term :: Term
  st_revision :: Revision
  st_namespaces :: "(NamespaceId, Namespace) fmap"
  st_tasks :: "(TaskId, Task) fmap"
  st_groups :: group_registry

definition BrokerState_default :: BrokerState where
  "BrokerState_default =
     \<lparr>st_term = Term_INITIAL, st_revision = 0, st_namespaces = fmempty, st_tasks = fmempty,
      st_groups = fmempty\<rparr>"

definition group_summaries :: "BrokerState \<Rightarrow> ConsumerGroupSummary list" where
  "group_summaries s = map ConsumerGroup_summary (fm_values (st_groups s))"

definition group_summary :: "BrokerState \<Rightarrow> ConsumerGroupId \<Rightarrow> ConsumerGroupSummary option" where
  "group_summary s gid = map_option ConsumerGroup_summary (fmlookup (st_groups s) gid)"

definition group_directory :: "BrokerState \<Rightarrow> ConsumerGroupDirectory" where
  "group_directory s =
     \<lparr>dir_term = st_term s, dir_revision = st_revision s, dir_groups = group_summaries s\<rparr>"

datatype StateMachineError =
    InvalidCapacity string
  | CapacityExceeded string usize
  | NamespaceNotFound NamespaceId
  | TaskConflict TaskId
  | TaskNotFound TaskId
  | LeaseIdConflict LeaseId
  | StaleTerm Term Term
  | NewTermNotGreater Term Term
  | TaskCountUnderflow NamespaceId
  | TimestampOverflow
  | TaskTransition TaskTransitionError
  | ConsumerGroupConflict ConsumerGroupId
  | ConsumerGroupNotFound ConsumerGroupId
  | ConsumerGroupTransition ConsumerGroupError
  | FencingValue FencingValueError

fun StateMachineError_display :: "StateMachineError \<Rightarrow> string" where
  "StateMachineError_display (InvalidCapacity field) = field @ '' must be positive''"
| "StateMachineError_display (CapacityExceeded resource n) =
     resource @ '' capacity reached ('' @ show_nat n @ '')''"
| "StateMachineError_display (NamespaceNotFound ns) =
     ''namespace '' @ ns_str ns @ '' does not exist''"
| "StateMachineError_display (TaskConflict tid) =
     ''task '' @ task_str tid @ '' already exists with different content''"
| "StateMachineError_display (TaskNotFound tid) = ''task '' @ task_str tid @ '' does not exist''"
| "StateMachineError_display (LeaseIdConflict lid) =
     ''lease ID '' @ lease_str lid @ '' is already in use''"
| "StateMachineError_display (StaleTerm expected actual) =
     ''Broker term is stale: expected '' @ show_u64 expected @ '', actual '' @ show_u64 actual"
| "StateMachineError_display (NewTermNotGreater current proposed) =
     ''new Broker term '' @ show_u64 proposed @ '' must be greater than current term '' @
     show_u64 current"
| "StateMachineError_display (TaskCountUnderflow ns) =
     ''namespace '' @ ns_str ns @ '' task count underflow during pruning''"
| "StateMachineError_display TimestampOverflow = ''timestamp arithmetic overflowed''"
| "StateMachineError_display (TaskTransition e) = TaskTransitionError_display e"
| "StateMachineError_display (ConsumerGroupConflict gid) =
     ''Consumer Group '' @ group_str gid @ '' belongs to another namespace''"
| "StateMachineError_display (ConsumerGroupNotFound gid) =
     ''Consumer Group '' @ group_str gid @ '' does not exist''"
| "StateMachineError_display (ConsumerGroupTransition e) = ConsumerGroupError_display e"
| "StateMachineError_display (StateMachineError.FencingValue e) = FencingValueError_display e"

text \<open>The \<open>From\<close> conversions that \<open>?\<close> applies.\<close>

fun from_coordinator :: "GroupCoordinatorError \<Rightarrow> StateMachineError" where
  "from_coordinator (GroupNotFound gid) = ConsumerGroupNotFound gid"
| "from_coordinator (Transition e) = ConsumerGroupTransition e"

abbreviation sm_fv :: "FencingValueError + 'a \<Rightarrow> StateMachineError + 'a" where
  "sm_fv \<equiv> map_err StateMachineError.FencingValue"

type_synonym ready_heap = "(TimestampMs \<times> TaskId) heap"
type_synonym expiration_heap = "(TimestampMs \<times> TaskId \<times> LeaseEpoch) heap"

record BrokerStateMachine =
  sm_state :: BrokerState
  ready_tasks :: "(NamespaceId, ready_heap) fmap"
  lease_expirations :: "(NamespaceId, expiration_heap) fmap"
  active_lease_tasks :: "(LeaseId, TaskId) fmap"
  member_lease_tasks :: "(ConsumerGroupId \<times> ConsumerId, TaskId fset) fmap"
  completed_tasks :: "(TimestampMs \<times> TaskId) heap"
  namespace_task_counts :: "(NamespaceId, usize) fmap"
  namespace_group_counts :: "(NamespaceId, usize) fmap"
  changed_namespaces :: "NamespaceId fset"
  changed_tasks :: "TaskId fset"
  deleted_tasks :: "TaskId fset"
  changed_groups :: "ConsumerGroupId fset"

definition BrokerStateMachine_default :: BrokerStateMachine where
  "BrokerStateMachine_default =
     \<lparr>sm_state = BrokerState_default, ready_tasks = fmempty, lease_expirations = fmempty,
      active_lease_tasks = fmempty, member_lease_tasks = fmempty, completed_tasks = [],
      namespace_task_counts = fmempty, namespace_group_counts = fmempty,
      changed_namespaces = {||}, changed_tasks = {||}, deleted_tasks = {||},
      changed_groups = {||}\<rparr>"

abbreviation the_tasks :: "BrokerStateMachine \<Rightarrow> (TaskId, Task) fmap" where
  "the_tasks m \<equiv> st_tasks (sm_state m)"

abbreviation the_groups :: "BrokerStateMachine \<Rightarrow> group_registry" where
  "the_groups m \<equiv> st_groups (sm_state m)"

abbreviation put_task :: "TaskId \<Rightarrow> Task \<Rightarrow> BrokerStateMachine \<Rightarrow> BrokerStateMachine" where
  "put_task tid t \<equiv> sm_state_update (st_tasks_update (fmupd tid t))"

abbreviation set_revision :: "Revision \<Rightarrow> BrokerStateMachine \<Rightarrow> BrokerStateMachine" where
  "set_revision r \<equiv> sm_state_update (st_revision_update (\<lambda>_. r))"

abbreviation set_groups :: "group_registry \<Rightarrow> BrokerStateMachine \<Rightarrow> BrokerStateMachine" where
  "set_groups gs \<equiv> sm_state_update (st_groups_update (\<lambda>_. gs))"

text \<open>The \<open>entry(ns).or_default().push(..)\<close> of the two per-namespace heaps.\<close>

definition push_ready :: "NamespaceId \<Rightarrow> TimestampMs \<Rightarrow> TaskId \<Rightarrow> BrokerStateMachine \<Rightarrow> BrokerStateMachine" where
  "push_ready ns created tid m =
     m\<lparr>ready_tasks := fmupd ns (heap_push (created, tid) (fm_get [] (ready_tasks m) ns)) (ready_tasks m)\<rparr>"

definition push_expiration ::
  "NamespaceId \<Rightarrow> TimestampMs \<Rightarrow> TaskId \<Rightarrow> LeaseEpoch \<Rightarrow> BrokerStateMachine \<Rightarrow> BrokerStateMachine" where
  "push_expiration ns expires tid epoch m =
     m\<lparr>lease_expirations := fmupd ns (heap_push (expires, tid, epoch) (fm_get [] (lease_expirations m) ns))
                              (lease_expirations m)\<rparr>"

text \<open>
  A handler of the machine, and \<open>?\<close> inside one: an error ends the handler with the machine as it
  is at that point.
\<close>

type_synonym 'a handled = "(StateMachineError + 'a) \<times> BrokerStateMachine"

definition check_r :: "StateMachineError + 'a \<Rightarrow> BrokerStateMachine \<Rightarrow> ('a \<Rightarrow> 'b handled) \<Rightarrow> 'b handled" where
  "check_r r m f = (case r of Err e \<Rightarrow> (Err e, m) | Ok x \<Rightarrow> f x)"

definition seq_r :: "'a handled \<Rightarrow> ('a \<Rightarrow> BrokerStateMachine \<Rightarrow> 'b handled) \<Rightarrow> 'b handled" where
  "seq_r h f = (case h of (Err e, m) \<Rightarrow> (Err e, m) | (Ok x, m) \<Rightarrow> f x m)"

definition ok_or :: "'a option \<Rightarrow> StateMachineError \<Rightarrow> StateMachineError + 'a" where
  "ok_or x e = (case x of None \<Rightarrow> Err e | Some y \<Rightarrow> Ok y)"

section \<open>Shared steps\<close>

definition metadata :: "BrokerStateMachine \<Rightarrow> MutationMetadata" where
  "metadata m = \<lparr>md_term = st_term (sm_state m), md_revision = st_revision (sm_state m)\<rparr>"

definition require_term :: "BrokerStateMachine \<Rightarrow> Term \<Rightarrow> StateMachineError + unit" where
  "require_term m expected =
     (if st_term (sm_state m) = expected then Ok ()
      else Err (StaleTerm expected (st_term (sm_state m))))"

definition require_group_member ::
  "BrokerStateMachine \<Rightarrow> ConsumerGroupId \<Rightarrow> ConsumerId \<Rightarrow> Generation
   \<Rightarrow> StateMachineError + NamespaceId \<times> Generation" where
  "require_group_member m gid mid expected =
     map_err from_coordinator (require_member (the_groups m) gid mid expected)"

definition require_namespace :: "BrokerStateMachine \<Rightarrow> NamespaceId \<Rightarrow> StateMachineError + unit" where
  "require_namespace m ns =
     (if fmlookup (st_namespaces (sm_state m)) ns \<noteq> None then Ok () else Err (NamespaceNotFound ns))"

definition checked_deadline :: "TimestampMs \<Rightarrow> u64 \<Rightarrow> StateMachineError + TimestampMs" where
  "checked_deadline now duration = ok_or (checked_add now duration) TimestampOverflow"

definition consumer_group_result :: "MutationMetadata \<Rightarrow> ConsumerGroup \<Rightarrow> ConsumerGroupResult" where
  "consumer_group_result md g =
     \<lparr>gr_metadata = md, gr_group_id = group_id g, gr_generation = group_generation g,
      gr_group_revision = group_revision g, gr_member_count = consumer_count g\<rparr>"

definition empty_claim_result :: "BrokerStateMachine \<Rightarrow> Generation \<Rightarrow> TaskClaimResult" where
  "empty_claim_result m generation =
     \<lparr>cr_metadata = metadata m, cr_task_id = None, cr_objective = None, cr_task_revision = None,
      cr_lease_id = None, cr_lease_epoch = None, cr_lease_expires_at_ms = None,
      cr_generation = generation\<rparr>"

definition task_claim_result ::
  "BrokerStateMachine \<Rightarrow> Generation \<Rightarrow> Task option \<Rightarrow> TaskClaimResult" where
  "task_claim_result m generation task =
     (case task of
        None \<Rightarrow> empty_claim_result m generation
      | Some t \<Rightarrow>
          (case task_state t of
             TaskState.Leased lease \<Rightarrow>
               \<lparr>cr_metadata = metadata m, cr_task_id = Some (task_id t),
                cr_objective = Some (task_objective t), cr_task_revision = Some (task_revision t),
                cr_lease_id = Some (leased_lease_id lease),
                cr_lease_epoch = Some (leased_lease_epoch lease),
                cr_lease_expires_at_ms = Some (leased_expires_at_ms lease),
                cr_generation = generation\<rparr>
           | _ \<Rightarrow> empty_claim_result m generation))"

section \<open>Lease recovery and requeueing\<close>

definition remove_member_lease_task ::
  "ConsumerGroupId \<Rightarrow> ConsumerId \<Rightarrow> TaskId \<Rightarrow> BrokerStateMachine \<Rightarrow> BrokerStateMachine" where
  "remove_member_lease_task gid mid tid m =
     (case fmlookup (member_lease_tasks m) (gid, mid) of
        None \<Rightarrow> m
      | Some tids \<Rightarrow>
          let tids' = tids |-| {|tid|} in
          if tids' = {||} then m\<lparr>member_lease_tasks := fmdrop (gid, mid) (member_lease_tasks m)\<rparr>
          else m\<lparr>member_lease_tasks := fmupd (gid, mid) tids' (member_lease_tasks m)\<rparr>)"

text \<open>The loop that empties the expired prefix of a heap and collects the leases still live.\<close>

fun expired_candidates ::
  "(TaskId, Task) fmap \<Rightarrow> TimestampMs \<Rightarrow> expiration_heap \<Rightarrow> TaskId fset \<Rightarrow> TaskId fset \<times> expiration_heap" where
  "expired_candidates tasks now heap candidates =
     (case heap_pop heap of
        None \<Rightarrow> (candidates, heap)
      | Some ((expires, tid, epoch), heap') \<Rightarrow>
          if expires > now then (candidates, heap)
          else expired_candidates tasks now heap'
            (case fmlookup tasks tid of
               None \<Rightarrow> candidates
             | Some t \<Rightarrow>
                 (case task_state t of
                    TaskState.Leased lease \<Rightarrow>
                      if leased_lease_epoch lease = epoch \<and> leased_expires_at_ms lease = expires
                      then finsert tid candidates else candidates
                  | _ \<Rightarrow> candidates)))"

definition lease_identity ::
  "BrokerStateMachine \<Rightarrow> TaskId \<Rightarrow> (LeaseId \<times> ConsumerGroupId \<times> ConsumerId \<times> TimestampMs) option" where
  "lease_identity m tid =
     (case fmlookup (the_tasks m) tid of
        None \<Rightarrow> None
      | Some t \<Rightarrow>
          (case task_state t of
             TaskState.Leased lease \<Rightarrow>
               Some (leased_lease_id lease, leased_group_id lease, leased_owner_member_id lease,
                     task_created_at_ms t)
           | _ \<Rightarrow> None))"

fun recover_loop ::
  "NamespaceId \<Rightarrow> TimestampMs \<Rightarrow> TaskId list \<Rightarrow> usize \<Rightarrow> BrokerStateMachine \<Rightarrow> usize handled" where
  "recover_loop ns now [] recovered m = (Ok recovered, m)"
| "recover_loop ns now (tid # tids) recovered m =
     (case lease_identity m tid of
        None \<Rightarrow> recover_loop ns now tids recovered m
      | Some (lid, gid, mid, created) \<Rightarrow>
          check_r (ok_or (fmlookup (the_tasks m) tid) (TaskNotFound tid)) m (\<lambda>t.
          check_r (map_err TaskTransition (requeue_if_expired t now)) m (\<lambda>(requeued, t').
          if \<not> requeued then recover_loop ns now tids recovered m
          else
            let m1 = (put_task tid t' m)\<lparr>active_lease_tasks := fmdrop lid (active_lease_tasks m)\<rparr>;
                m2 = push_ready ns created tid (remove_member_lease_task gid mid tid m1)
            in recover_loop ns now tids (recovered + 1) (changed_tasks_update (finsert tid) m2))))"

definition recover_expired_leases ::
  "NamespaceId \<Rightarrow> TimestampMs \<Rightarrow> BrokerStateMachine \<Rightarrow> usize handled" where
  "recover_expired_leases ns now m =
     (case fmlookup (lease_expirations m) ns of
        None \<Rightarrow> (Ok 0, m)
      | Some heap \<Rightarrow>
          (case expired_candidates (the_tasks m) now heap {||} of
             (candidates, heap') \<Rightarrow>
               recover_loop ns now (sorted_list_of_fset candidates) 0
                 (m\<lparr>lease_expirations := fmupd ns heap' (lease_expirations m)\<rparr>)))"

fun pop_ready :: "(TaskId, Task) fmap \<Rightarrow> ready_heap \<Rightarrow> TaskId option \<times> ready_heap" where
  "pop_ready tasks heap =
     (case heap_pop heap of
        None \<Rightarrow> (None, heap)
      | Some ((created, tid), heap') \<Rightarrow>
          (case fmlookup tasks tid of
             None \<Rightarrow> pop_ready tasks heap'
           | Some t \<Rightarrow>
               if Task_status t = TaskStatus.Queued then (Some tid, heap') else pop_ready tasks heap'))"

definition pop_ready_task :: "NamespaceId \<Rightarrow> BrokerStateMachine \<Rightarrow> TaskId option \<times> BrokerStateMachine" where
  "pop_ready_task ns m =
     (case fmlookup (ready_tasks m) ns of
        None \<Rightarrow> (None, m)
      | Some heap \<Rightarrow>
          (case pop_ready (the_tasks m) heap of
             (found, heap') \<Rightarrow> (found, m\<lparr>ready_tasks := fmupd ns heap' (ready_tasks m)\<rparr>)))"

fun preflight_tasks ::
  "BrokerStateMachine \<Rightarrow> ConsumerGroupId \<Rightarrow> ConsumerId \<Rightarrow> TaskId list \<Rightarrow> StateMachineError + unit" where
  "preflight_tasks m gid mid [] = Ok ()"
| "preflight_tasks m gid mid (tid # tids) =
     (case fmlookup (the_tasks m) tid of
        None \<Rightarrow> preflight_tasks m gid mid tids
      | Some t \<Rightarrow>
          (case task_state t of
             TaskState.Leased lease \<Rightarrow>
               if leased_group_id lease = gid \<and> leased_owner_member_id lease = mid
               then try_r (sm_fv (Revision_next (task_revision t))) (\<lambda>_. preflight_tasks m gid mid tids)
               else preflight_tasks m gid mid tids
           | _ \<Rightarrow> preflight_tasks m gid mid tids))"

definition preflight_member_lease_requeue ::
  "BrokerStateMachine \<Rightarrow> ConsumerGroupId \<Rightarrow> ConsumerId \<Rightarrow> StateMachineError + unit" where
  "preflight_member_lease_requeue m gid mid =
     (case fmlookup (member_lease_tasks m) (gid, mid) of
        None \<Rightarrow> Ok ()
      | Some tids \<Rightarrow> preflight_tasks m gid mid (sorted_list_of_fset tids))"

definition member_lease_identity ::
  "BrokerStateMachine \<Rightarrow> ConsumerGroupId \<Rightarrow> ConsumerId \<Rightarrow> TaskId \<Rightarrow> (LeaseId \<times> TimestampMs) option" where
  "member_lease_identity m gid mid tid =
     (case fmlookup (the_tasks m) tid of
        None \<Rightarrow> None
      | Some t \<Rightarrow>
          (case task_state t of
             TaskState.Leased lease \<Rightarrow>
               if leased_group_id lease \<noteq> gid \<or> leased_owner_member_id lease \<noteq> mid then None
               else Some (leased_lease_id lease, task_created_at_ms t)
           | _ \<Rightarrow> None))"

fun requeue_loop ::
  "ConsumerGroupId \<Rightarrow> ConsumerId \<Rightarrow> TaskId list \<Rightarrow> usize \<Rightarrow> BrokerStateMachine \<Rightarrow> usize handled" where
  "requeue_loop gid mid [] requeued m = (Ok requeued, m)"
| "requeue_loop gid mid (tid # tids) requeued m =
     (case member_lease_identity m gid mid tid of
        None \<Rightarrow> requeue_loop gid mid tids requeued m
      | Some (lid, created) \<Rightarrow>
          check_r (ok_or (fmlookup (the_tasks m) tid) (TaskNotFound tid)) m (\<lambda>t.
          check_r (map_err TaskTransition (requeue_for_member t gid mid)) m (\<lambda>(did_requeue, t').
          if \<not> did_requeue then requeue_loop gid mid tids requeued m
          else
            let m1 = (put_task tid t' m)\<lparr>active_lease_tasks := fmdrop lid (active_lease_tasks m)\<rparr> in
            check_r (ok_or (fmlookup (the_tasks m1) tid) (TaskNotFound tid)) m1 (\<lambda>u.
            let m2 = push_ready (task_namespace_id u) created tid m1
            in requeue_loop gid mid tids (requeued + 1) (changed_tasks_update (finsert tid) m2)))))"

definition requeue_member_leases ::
  "ConsumerGroupId \<Rightarrow> ConsumerId \<Rightarrow> BrokerStateMachine \<Rightarrow> usize handled" where
  "requeue_member_leases gid mid m =
     requeue_loop gid mid (sorted_list_of_fset (fm_get {||} (member_lease_tasks m) (gid, mid))) 0
       (m\<lparr>member_lease_tasks := fmdrop (gid, mid) (member_lease_tasks m)\<rparr>)"

section \<open>Namespaces, tasks and groups\<close>

definition ensure_namespace :: "EnsureNamespaceCommand \<Rightarrow> BrokerStateMachine \<Rightarrow> NamespaceResult handled" where
  "ensure_namespace c m =
     (case fmlookup (st_namespaces (sm_state m)) (en_namespace_id c) of
        Some n \<Rightarrow>
          (Ok \<lparr>nr_metadata = metadata m, nr_namespace_id = namespace_id n,
               nr_namespace_revision = namespace_revision n\<rparr>, m)
      | None \<Rightarrow>
          if en_max_namespaces c = 0 then (Err (InvalidCapacity ''max_namespaces''), m)
          else if fm_len (st_namespaces (sm_state m)) \<ge> en_max_namespaces c then
            (Err (CapacityExceeded ''Broker namespace'' (en_max_namespaces c)), m)
          else check_r (sm_fv (Revision_next (st_revision (sm_state m)))) m (\<lambda>next_revision.
            let ns = en_namespace_id c;
                n = Namespace_new ns;
                m' = m\<lparr>sm_state := (sm_state m)\<lparr>st_namespaces := fmupd ns n (st_namespaces (sm_state m)),
                                               st_revision := next_revision\<rparr>,
                       changed_namespaces := finsert ns (changed_namespaces m)\<rparr>
            in (Ok \<lparr>nr_metadata = metadata m', nr_namespace_id = ns,
                    nr_namespace_revision = namespace_revision n\<rparr>, m')))"

definition publish_task :: "PublishTaskCommand \<Rightarrow> BrokerStateMachine \<Rightarrow> TaskPublishedResult handled" where
  "publish_task c m =
     check_r (require_namespace m (pt_namespace_id c)) m (\<lambda>_.
     case fmlookup (the_tasks m) (pt_task_id c) of
       Some t \<Rightarrow>
         if task_namespace_id t \<noteq> pt_namespace_id c \<or> task_objective t \<noteq> pt_objective c
         then (Err (TaskConflict (pt_task_id c)), m)
         else (Ok \<lparr>tp_metadata = metadata m, tp_task_id = task_id t,
                   tp_task_revision = task_revision t, tp_status = Task_status t\<rparr>, m)
     | None \<Rightarrow>
         if pt_max_namespace_tasks c = 0 then (Err (InvalidCapacity ''max_namespace_tasks''), m)
         else
           let current_count = fm_get 0 (namespace_task_counts m) (pt_namespace_id c) in
           if current_count \<ge> pt_max_namespace_tasks c then
             (Err (CapacityExceeded ''Broker Task'' (pt_max_namespace_tasks c)), m)
           else check_r (sm_fv (Revision_next (st_revision (sm_state m)))) m (\<lambda>next_revision.
             let ns = pt_namespace_id c;
                 tid = pt_task_id c;
                 t = Task_new tid ns (pt_objective c) (pt_created_at_ms c);
                 m1 = (put_task tid t m)
                        \<lparr>namespace_task_counts := fmupd ns (current_count + 1) (namespace_task_counts m)\<rparr>;
                 m2 = set_revision next_revision (push_ready ns (pt_created_at_ms c) tid m1);
                 m3 = changed_tasks_update (finsert tid) m2
             in (Ok \<lparr>tp_metadata = metadata m3, tp_task_id = tid, tp_task_revision = task_revision t,
                     tp_status = Task_status t\<rparr>, m3)))"

definition ensure_consumer_group ::
  "EnsureConsumerGroupCommand \<Rightarrow> BrokerStateMachine \<Rightarrow> ConsumerGroupResult handled" where
  "ensure_consumer_group c m =
     check_r (require_namespace m (eg_namespace_id c)) m (\<lambda>_.
     case fmlookup (the_groups m) (eg_group_id c) of
       Some g \<Rightarrow>
         if group_namespace_id g \<noteq> eg_namespace_id c then (Err (ConsumerGroupConflict (eg_group_id c)), m)
         else (Ok (consumer_group_result (metadata m) g), m)
     | None \<Rightarrow>
         if eg_max_namespace_groups c = 0 then (Err (InvalidCapacity ''max_namespace_groups''), m)
         else
           let current_count = fm_get 0 (namespace_group_counts m) (eg_namespace_id c) in
           if current_count \<ge> eg_max_namespace_groups c then
             (Err (CapacityExceeded ''Broker Consumer Group'' (eg_max_namespace_groups c)), m)
           else check_r (sm_fv (Revision_next (st_revision (sm_state m)))) m (\<lambda>next_revision.
             let ns = eg_namespace_id c;
                 gid = eg_group_id c;
                 m1 = set_revision next_revision
                        ((set_groups (fmupd gid (ConsumerGroup_new gid ns) (the_groups m)) m)
                          \<lparr>namespace_group_counts := fmupd ns (current_count + 1) (namespace_group_counts m)\<rparr>);
                 m2 = changed_groups_update (finsert gid) m1
             in check_r (ok_or (fmlookup (the_groups m2) gid) (ConsumerGroupConflict gid)) m2 (\<lambda>g.
                (Ok (consumer_group_result (metadata m2) g), m2))))"

definition join_consumer_group ::
  "JoinConsumerGroupCommand \<Rightarrow> BrokerStateMachine \<Rightarrow> ConsumerGroupResult handled" where
  "join_consumer_group c m =
     check_r (sm_fv (Revision_next (st_revision (sm_state m)))) m (\<lambda>next_global_revision.
     check_r (map_err from_coordinator
       (coordinator_join (the_groups m) (jg_group_id c) (jg_member_id c) (jg_capabilities c)
         (jg_now_ms c) (jg_max_group_members c))) m (\<lambda>(outcome, groups').
     let m1 = set_groups groups' m in
     check_r (ok_or (fmlookup (the_groups m1) (jg_group_id c)) (ConsumerGroupNotFound (jg_group_id c))) m1 (\<lambda>g.
     let m2 = (if outcome \<noteq> JoinOutcome.Unchanged
               then changed_groups_update (finsert (group_id g)) (set_revision next_global_revision m1)
               else m1)
     in (Ok (consumer_group_result (metadata m2) g), m2))))"

definition heartbeat :: "HeartbeatCommand \<Rightarrow> BrokerStateMachine \<Rightarrow> HeartbeatResult handled" where
  "heartbeat c m =
     check_r (sm_fv (Revision_next (st_revision (sm_state m)))) m (\<lambda>next_global_revision.
     check_r (map_err from_coordinator
       (coordinator_heartbeat (the_groups m) (hb_group_id c) (hb_member_id c)
         (hb_expected_generation c) (hb_now_ms c))) m (\<lambda>(outcome, groups').
     let m1 = set_groups groups' m in
     check_r (ok_or (fmlookup (the_groups m1) (hb_group_id c)) (ConsumerGroupNotFound (hb_group_id c))) m1 (\<lambda>g.
     check_r (ok_or (map_option consumer_revision (fmlookup (group_consumers g) (hb_member_id c)))
                (ConsumerGroupTransition (MemberNotFound (hb_member_id c)))) m1 (\<lambda>member_revision.
     let m2 = (if outcome = Updated
               then changed_groups_update (finsert (group_id g)) (set_revision next_global_revision m1)
               else m1)
     in (Ok \<lparr>hr_metadata = metadata m2, hr_group_id = group_id g, hr_member_id = hb_member_id c,
             hr_generation = group_generation g, hr_member_revision = member_revision\<rparr>, m2)))))"

definition leave_consumer_group ::
  "LeaveConsumerGroupCommand \<Rightarrow> BrokerStateMachine \<Rightarrow> ConsumerGroupResult handled" where
  "leave_consumer_group c m =
     check_r (sm_fv (Revision_next (st_revision (sm_state m)))) m (\<lambda>next_global_revision.
     check_r (preflight_member_lease_requeue m (lg_group_id c) (lg_member_id c)) m (\<lambda>_.
     check_r (map_err from_coordinator
       (coordinator_leave (the_groups m) (lg_group_id c) (lg_member_id c)
         (lg_expected_generation c))) m (\<lambda>(removed_member, groups').
     let m1 = set_groups groups' m in
     check_r (ok_or (fmlookup (the_groups m1) (lg_group_id c)) (ConsumerGroupNotFound (lg_group_id c))) m1 (\<lambda>g.
     seq_r (requeue_member_leases (group_id g) (lg_member_id c) m1) (\<lambda>_ m2.
     let m3 = changed_groups_update (finsert (group_id g)) (set_revision next_global_revision m2)
     in (Ok (consumer_group_result (metadata m3) g), m3))))))"

section \<open>Reaping stale members\<close>

definition reap_candidates ::
  "group_registry \<Rightarrow> TimestampMs \<Rightarrow> (TimestampMs \<times> ConsumerGroupId \<times> ConsumerId) list" where
  "reap_candidates groups stale_before =
     concat (map (\<lambda>(gid, g).
       map (\<lambda>c. (consumer_last_heartbeat_at_ms c, gid, consumer_id c))
         (filter (\<lambda>c. consumer_last_heartbeat_at_ms c \<le> stale_before) (fm_values (group_consumers g))))
       (sorted_list_of_fmap groups))"

fun select_members ::
  "(TimestampMs \<times> ConsumerGroupId \<times> ConsumerId) list \<Rightarrow> (ConsumerGroupId, ConsumerId list) fmap
   \<Rightarrow> (ConsumerGroupId, ConsumerId list) fmap" where
  "select_members [] selected = selected"
| "select_members ((hb, gid, mid) # cs) selected =
     select_members cs (fmupd gid (fm_get [] selected gid @ [mid]) selected)"

fun preflight_members ::
  "BrokerStateMachine \<Rightarrow> ConsumerGroupId \<Rightarrow> ConsumerId list \<Rightarrow> StateMachineError + unit" where
  "preflight_members m gid [] = Ok ()"
| "preflight_members m gid (mid # mids) =
     try_r (preflight_member_lease_requeue m gid mid) (\<lambda>_. preflight_members m gid mids)"

fun preflight_groups ::
  "BrokerStateMachine \<Rightarrow> (ConsumerGroupId \<times> ConsumerId list) list \<Rightarrow> StateMachineError + unit" where
  "preflight_groups m [] = Ok ()"
| "preflight_groups m ((gid, mids) # rest) =
     try_r (ok_or (fmlookup (the_groups m) gid) (ConsumerGroupNotFound gid)) (\<lambda>g.
     try_r (sm_fv (Generation_next (group_generation g))) (\<lambda>_.
     try_r (sm_fv (Revision_next (group_revision g))) (\<lambda>_.
     try_r (preflight_members m gid mids) (\<lambda>_. preflight_groups m rest))))"

fun requeue_removed :: "ConsumerGroupId \<Rightarrow> Consumer list \<Rightarrow> BrokerStateMachine \<Rightarrow> unit handled" where
  "requeue_removed gid [] m = (Ok (), m)"
| "requeue_removed gid (c # cs) m =
     seq_r (requeue_member_leases gid (consumer_id c) m) (\<lambda>_ m'. requeue_removed gid cs m')"

fun reap_loop ::
  "TimestampMs \<Rightarrow> (ConsumerGroupId \<times> ConsumerId list) list \<Rightarrow> usize \<Rightarrow> ConsumerGroupId list
   \<Rightarrow> BrokerStateMachine \<Rightarrow> (usize \<times> ConsumerGroupId list) handled" where
  "reap_loop stale_before [] reaped affected m = (Ok (reaped, affected), m)"
| "reap_loop stale_before ((gid, mids) # rest) reaped affected m =
     check_r (map_err from_coordinator
       (coordinator_reap_stale_members (the_groups m) gid stale_before (length mids))) m (\<lambda>(removed, groups').
     let m1 = set_groups groups' m in
     if removed = [] then reap_loop stale_before rest reaped affected m1
     else seq_r (requeue_removed gid removed m1) (\<lambda>_ m2.
          reap_loop stale_before rest (reaped + length removed) (affected @ [gid]) m2))"

definition reap_stale_members ::
  "ReapStaleMembersCommand \<Rightarrow> BrokerStateMachine \<Rightarrow> StaleMembersReapedResult handled" where
  "reap_stale_members c m =
     (if rs_max_members c = 0 then (Err (InvalidCapacity ''max_members''), m)
      else
        let candidates = take (rs_max_members c) (sort (reap_candidates (the_groups m) (rs_stale_before_ms c))) in
        if candidates = [] then
          (Ok \<lparr>sr_metadata = metadata m, sr_reaped_count = 0, sr_affected_group_count = 0\<rparr>, m)
        else
          let selected = sorted_list_of_fmap (select_members candidates fmempty) in
          check_r (sm_fv (Revision_next (st_revision (sm_state m)))) m (\<lambda>next_global_revision.
          check_r (preflight_groups m selected) m (\<lambda>_.
          seq_r (reap_loop (rs_stale_before_ms c) selected 0 [] m) (\<lambda>(reaped, affected) m1.
          let m2 = (if reaped > 0
                    then changed_groups_update (\<lambda>gs. gs |\<union>| fset_of_list affected)
                           (set_revision next_global_revision m1)
                    else m1)
          in (Ok \<lparr>sr_metadata = metadata m2, sr_reaped_count = reaped,
                  sr_affected_group_count = length affected\<rparr>, m2)))))"

section \<open>Claiming, renewing and completing\<close>

definition insert_member_lease ::
  "ConsumerGroupId \<Rightarrow> ConsumerId \<Rightarrow> TaskId \<Rightarrow> BrokerStateMachine \<Rightarrow> BrokerStateMachine" where
  "insert_member_lease gid mid tid m =
     m\<lparr>member_lease_tasks := fmupd (gid, mid) (finsert tid (fm_get {||} (member_lease_tasks m) (gid, mid)))
                               (member_lease_tasks m)\<rparr>"

definition claim_task :: "ClaimTaskCommand \<Rightarrow> BrokerStateMachine \<Rightarrow> TaskClaimResult handled" where
  "claim_task c m =
     check_r (require_term m (ct_expected_term c)) m (\<lambda>_.
     check_r (require_group_member m (ct_group_id c) (ct_member_id c) (ct_expected_generation c)) m
       (\<lambda>(ns, generation).
     case fmlookup (active_lease_tasks m) (ct_lease_id c) of
       Some existing \<Rightarrow>
         check_r (ok_or (fmlookup (the_tasks m) existing) (TaskNotFound existing)) m (\<lambda>t.
         case task_state t of
           TaskState.Leased lease \<Rightarrow>
             if leased_owner_member_id lease = ct_member_id c \<and> leased_group_id lease = ct_group_id c
             then (Ok (task_claim_result m generation (Some t)), m)
             else (Err (LeaseIdConflict (ct_lease_id c)), m)
         | _ \<Rightarrow> (Err (LeaseIdConflict (ct_lease_id c)), m))
     | None \<Rightarrow>
         seq_r (recover_expired_leases ns (ct_now_ms c) m) (\<lambda>recovered m1.
         case pop_ready_task ns m1 of
           (None, m2) \<Rightarrow>
             if recovered > 0 then
               check_r (sm_fv (Revision_next (st_revision (sm_state m2)))) m2 (\<lambda>next_revision.
               let m3 = set_revision next_revision m2
               in (Ok (task_claim_result m3 generation None), m3))
             else (Ok (task_claim_result m2 generation None), m2)
         | (Some tid, m2) \<Rightarrow>
             check_r (checked_deadline (ct_now_ms c) (ct_lease_duration_ms c)) m2 (\<lambda>expires.
             check_r (sm_fv (Revision_next (st_revision (sm_state m2)))) m2 (\<lambda>next_global_revision.
             check_r (ok_or (fmlookup (the_tasks m2) tid) (TaskNotFound tid)) m2 (\<lambda>t.
             check_r (map_err TaskTransition (Task_claim t
               \<lparr>grant_lease_id = ct_lease_id c, grant_owner_member_id = ct_member_id c,
                grant_group_id = ct_group_id c, grant_generation = generation,
                grant_expires_at_ms = expires\<rparr>)) m2 (\<lambda>t'.
             let m3 = put_task tid t' m2 in
             case task_state t' of
               TaskState.Leased lease \<Rightarrow>
                 let m4 = m3\<lparr>active_lease_tasks := fmupd (ct_lease_id c) tid (active_lease_tasks m3)\<rparr>;
                     m5 = push_expiration ns expires tid (leased_lease_epoch lease)
                            (insert_member_lease (ct_group_id c) (ct_member_id c) tid m4);
                     m6 = set_revision next_global_revision (changed_tasks_update (finsert tid) m5)
                 in check_r (ok_or (fmlookup (the_tasks m6) tid) (TaskNotFound tid)) m6 (\<lambda>u.
                    (Ok ((task_claim_result m6 generation (Some u))
                           \<lparr>cr_task_revision := Some (task_revision t')\<rparr>), m6))
             | _ \<Rightarrow> (Err (TaskTransition (NotLeased (Task_status t'))), m3))))))))"

definition renew_task_lease ::
  "RenewTaskLeaseCommand \<Rightarrow> BrokerStateMachine \<Rightarrow> TaskLeaseRenewedResult handled" where
  "renew_task_lease c m =
     check_r (require_term m (rl_expected_term c)) m (\<lambda>_.
     check_r (require_group_member m (rl_group_id c) (rl_member_id c) (rl_expected_generation c)) m
       (\<lambda>(_, generation).
     check_r (checked_deadline (rl_now_ms c) (rl_lease_duration_ms c)) m (\<lambda>expires.
     check_r (sm_fv (Revision_next (st_revision (sm_state m)))) m (\<lambda>next_global_revision.
     check_r (ok_or (fmlookup (the_tasks m) (rl_task_id c)) (TaskNotFound (rl_task_id c))) m (\<lambda>t.
     check_r (map_err TaskTransition (Task_renew t
       \<lparr>fence_lease_id = rl_lease_id c, fence_owner_member_id = rl_member_id c,
        fence_group_id = rl_group_id c, fence_generation = rl_expected_generation c,
        fence_lease_epoch = rl_expected_lease_epoch c, fence_observed_at_ms = rl_now_ms c\<rparr> expires)) m
       (\<lambda>t'.
     let m1 = put_task (rl_task_id c) t' m in
     case task_state t' of
       TaskState.Leased lease \<Rightarrow>
         let m2 = push_expiration (task_namespace_id t) expires (rl_task_id c) (leased_lease_epoch lease) m1;
             m3 = set_revision next_global_revision (changed_tasks_update (finsert (rl_task_id c)) m2)
         in (Ok \<lparr>rr_metadata = metadata m3, rr_task_id = rl_task_id c,
                 rr_task_revision = task_revision t', rr_lease_id = rl_lease_id c,
                 rr_lease_epoch = leased_lease_epoch lease, rr_lease_expires_at_ms = expires,
                 rr_generation = generation\<rparr>, m3)
     | _ \<Rightarrow> (Err (TaskTransition (NotLeased (Task_status t'))), m1)))))))"

definition complete_task :: "CompleteTaskCommand \<Rightarrow> BrokerStateMachine \<Rightarrow> TaskCompletedResult handled" where
  "complete_task c m =
     check_r (require_term m (cm_expected_term c)) m (\<lambda>_.
     check_r (require_group_member m (cm_group_id c) (cm_member_id c) (cm_expected_generation c)) m (\<lambda>_.
     check_r (sm_fv (Revision_next (st_revision (sm_state m)))) m (\<lambda>next_global_revision.
     check_r (ok_or (fmlookup (the_tasks m) (cm_task_id c)) (TaskNotFound (cm_task_id c))) m (\<lambda>t.
     check_r (map_err TaskTransition (Task_complete t
       \<lparr>fence_lease_id = cm_lease_id c, fence_owner_member_id = cm_member_id c,
        fence_group_id = cm_group_id c, fence_generation = cm_expected_generation c,
        fence_lease_epoch = cm_expected_lease_epoch c, fence_observed_at_ms = cm_completed_at_ms c\<rparr>
       (cm_result c))) m (\<lambda>(outcome, t').
     let m1 = put_task (cm_task_id c) t' m;
         m2 = (if outcome = CompletionOutcome.Completed then
                 let n1 = remove_member_lease_task (cm_group_id c) (cm_member_id c) (cm_task_id c)
                            (m1\<lparr>active_lease_tasks := fmdrop (cm_lease_id c) (active_lease_tasks m1)\<rparr>);
                     n2 = n1\<lparr>completed_tasks := heap_push (cm_completed_at_ms c, cm_task_id c) (completed_tasks n1)\<rparr>
                 in set_revision next_global_revision (changed_tasks_update (finsert (cm_task_id c)) n2)
               else m1)
     in (Ok \<lparr>cd_metadata = metadata m2, cd_task_id = cm_task_id c, cd_task_revision = task_revision t',
             cd_status = Task_status t'\<rparr>, m2))))))"

section \<open>Pruning and terms\<close>

text \<open>The task of a heap entry, when the task is still completed at that time.\<close>

definition completed_namespace :: "(TaskId, Task) fmap \<Rightarrow> TimestampMs \<Rightarrow> TaskId \<Rightarrow> NamespaceId option" where
  "completed_namespace tasks at tid =
     (case fmlookup tasks tid of
        None \<Rightarrow> None
      | Some t \<Rightarrow>
          (case task_state t of
             TaskState.Completed c \<Rightarrow>
               if completed_completed_at_ms c = at then Some (task_namespace_id t) else None
           | _ \<Rightarrow> None))"

fun select_completed ::
  "(TaskId, Task) fmap \<Rightarrow> TimestampMs \<Rightarrow> usize \<Rightarrow> (TimestampMs \<times> TaskId) heap
   \<Rightarrow> (TimestampMs \<times> TaskId \<times> NamespaceId) list \<Rightarrow> (TimestampMs \<times> TaskId \<times> NamespaceId) list" where
  "select_completed tasks before max_tasks probe selected =
     (if length selected < max_tasks then
        (case heap_pop probe of
           None \<Rightarrow> selected
         | Some ((at, tid), probe') \<Rightarrow>
             if at > before then selected
             else select_completed tasks before max_tasks probe'
               (case completed_namespace tasks at tid of
                  None \<Rightarrow> selected
                | Some ns \<Rightarrow> selected @ [(at, tid, ns)]))
      else selected)"

fun count_namespaces ::
  "(TimestampMs \<times> TaskId \<times> NamespaceId) list \<Rightarrow> (NamespaceId, usize) fmap \<Rightarrow> (NamespaceId, usize) fmap" where
  "count_namespaces [] counts = counts"
| "count_namespaces ((at, tid, ns) # sel) counts =
     count_namespaces sel (fmupd ns (fm_get 0 counts ns + 1) counts)"

fun check_counts ::
  "(NamespaceId, usize) fmap \<Rightarrow> (NamespaceId \<times> usize) list \<Rightarrow> StateMachineError + unit" where
  "check_counts counts [] = Ok ()"
| "check_counts counts ((ns, n) # rest) =
     (if fm_get 0 counts ns < n then Err (TaskCountUnderflow ns) else check_counts counts rest)"

function prune_loop ::
  "TimestampMs \<Rightarrow> usize \<Rightarrow> usize \<Rightarrow> BrokerStateMachine \<Rightarrow> usize handled" where
  "prune_loop before target pruned m =
     (if pruned < target then
        (case heap_pop (completed_tasks m) of
           None \<Rightarrow> (Ok pruned, m)
         | Some ((at, tid), heap') \<Rightarrow>
             let m1 = m\<lparr>completed_tasks := heap'\<rparr> in
             if at > before then (Ok pruned, m1\<lparr>completed_tasks := heap_push (at, tid) heap'\<rparr>)
             else
               (case completed_namespace (the_tasks m1) at tid of
                  None \<Rightarrow> prune_loop before target pruned m1
                | Some ns \<Rightarrow>
                    let m2 = sm_state_update (st_tasks_update (fmdrop tid)) m1 in
                    (case fmlookup (namespace_task_counts m2) ns of
                       None \<Rightarrow> (Err (TaskCountUnderflow ns), m2)
                     | Some n \<Rightarrow>
                         prune_loop before target (pruned + 1)
                           (m2\<lparr>namespace_task_counts := fmupd ns (n - 1) (namespace_task_counts m2),
                               deleted_tasks := finsert tid (deleted_tasks m2)\<rparr>))))
      else (Ok pruned, m))"
  by pat_completeness auto
termination
  by (relation "measure (\<lambda>(before, target, pruned, m). length (completed_tasks m))") auto

definition prune_completed_tasks ::
  "PruneCompletedTasksCommand \<Rightarrow> BrokerStateMachine \<Rightarrow> CompletedTasksPrunedResult handled" where
  "prune_completed_tasks c m =
     (if pc_max_tasks c = 0 then (Err (InvalidCapacity ''max_tasks''), m)
      else
        let selected = select_completed (the_tasks m) (pc_completed_before_ms c) (pc_max_tasks c)
                         (completed_tasks m) [] in
        if selected = [] then (Ok \<lparr>pr_metadata = metadata m, pr_pruned_count = 0\<rparr>, m)
        else
          check_r (check_counts (namespace_task_counts m)
            (sorted_list_of_fmap (count_namespaces selected fmempty))) m (\<lambda>_.
          check_r (sm_fv (Revision_next (st_revision (sm_state m)))) m (\<lambda>next_global_revision.
          seq_r (prune_loop (pc_completed_before_ms c) (length selected) 0 m) (\<lambda>pruned m1.
          let m2 = (if pruned > 0 then set_revision next_global_revision m1 else m1)
          in (Ok \<lparr>pr_metadata = metadata m2, pr_pruned_count = pruned\<rparr>, m2)))))"

definition advance_term :: "AdvanceTermCommand \<Rightarrow> BrokerStateMachine \<Rightarrow> TermAdvancedResult handled" where
  "advance_term c m =
     check_r (require_term m (at_expected_term c)) m (\<lambda>_.
     if at_new_term c \<le> st_term (sm_state m) then
       (Err (NewTermNotGreater (st_term (sm_state m)) (at_new_term c)), m)
     else check_r (sm_fv (Revision_next (st_revision (sm_state m)))) m (\<lambda>next_revision.
       let m' = m\<lparr>sm_state := (sm_state m)\<lparr>st_term := at_new_term c, st_revision := next_revision\<rparr>\<rparr>
       in (Ok \<lparr>ta_metadata = metadata m'\<rparr>, m')))"

section \<open>Commands\<close>

definition clear_changes :: "BrokerStateMachine \<Rightarrow> BrokerStateMachine" where
  "clear_changes m =
     m\<lparr>changed_namespaces := {||}, changed_tasks := {||}, deleted_tasks := {||}, changed_groups := {||}\<rparr>"

definition take_changes :: "BrokerStateMachine \<Rightarrow> StateChangeSet" where
  "take_changes m =
     \<lparr>cs_namespaces = sorted_list_of_fset (changed_namespaces m),
      cs_tasks = sorted_list_of_fset (changed_tasks m),
      cs_deleted_tasks = sorted_list_of_fset (deleted_tasks m),
      cs_groups = sorted_list_of_fset (changed_groups m)\<rparr>"

definition applied :: "('a \<Rightarrow> BrokerMutationResult) \<Rightarrow> 'a handled \<Rightarrow> AppliedMutation handled" where
  "applied f h = seq_r h (\<lambda>x m. (Ok \<lparr>am_result = f x, am_changes = take_changes m\<rparr>, m))"

fun apply_command :: "BrokerCommand \<Rightarrow> BrokerStateMachine \<Rightarrow> AppliedMutation handled" where
  "apply_command (EnsureNamespace c) m = applied BrokerMutationResult.Namespace (ensure_namespace c m)"
| "apply_command (PublishTask c) m = applied TaskPublished (publish_task c m)"
| "apply_command (EnsureConsumerGroup c) m =
     applied BrokerMutationResult.ConsumerGroup (ensure_consumer_group c m)"
| "apply_command (JoinConsumerGroup c) m =
     applied BrokerMutationResult.ConsumerGroup (join_consumer_group c m)"
| "apply_command (BrokerCommand.Heartbeat c) m = applied BrokerMutationResult.Heartbeat (heartbeat c m)"
| "apply_command (LeaveConsumerGroup c) m =
     applied BrokerMutationResult.ConsumerGroup (leave_consumer_group c m)"
| "apply_command (ReapStaleMembers c) m = applied StaleMembersReaped (reap_stale_members c m)"
| "apply_command (ClaimTask c) m = applied TaskClaim (claim_task c m)"
| "apply_command (RenewTaskLease c) m = applied TaskLeaseRenewed (renew_task_lease c m)"
| "apply_command (CompleteTask c) m = applied TaskCompleted (complete_task c m)"
| "apply_command (PruneCompletedTasks c) m = applied CompletedTasksPruned (prune_completed_tasks c m)"
| "apply_command (AdvanceTerm c) m = applied TermAdvanced (advance_term c m)"

definition broker_apply :: "BrokerCommand \<Rightarrow> BrokerStateMachine \<Rightarrow> AppliedMutation handled" where
  "broker_apply c m = apply_command c (clear_changes m)"

section \<open>Unfolding\<close>

declare expired_candidates.simps [simp del] pop_ready.simps [simp del]
  select_completed.simps [simp del] prune_loop.simps [simp del]

definition live_candidate :: "(TaskId, Task) fmap \<Rightarrow> TimestampMs \<Rightarrow> TaskId \<Rightarrow> LeaseEpoch \<Rightarrow> bool" where
  "live_candidate tasks expires tid epoch \<longleftrightarrow>
     (case fmlookup tasks tid of
        None \<Rightarrow> False
      | Some t \<Rightarrow>
          (case task_state t of
             TaskState.Leased l \<Rightarrow> leased_lease_epoch l = epoch \<and> leased_expires_at_ms l = expires
           | _ \<Rightarrow> False))"

lemma expired_candidates_list [simp]:
  "expired_candidates tasks now [] cs = (cs, [])"
  "expired_candidates tasks now ((expires, tid, epoch) # heap) cs =
     (if expires > now then (cs, (expires, tid, epoch) # heap)
      else expired_candidates tasks now heap
        (if live_candidate tasks expires tid epoch then finsert tid cs else cs))"
  by (subst expired_candidates.simps,
      simp add: live_candidate_def split: option.splits TaskState.splits)+

lemma pop_ready_list [simp]:
  "pop_ready tasks [] = (None, [])"
  "pop_ready tasks ((created, tid) # heap) =
     (case fmlookup tasks tid of
        None \<Rightarrow> pop_ready tasks heap
      | Some t \<Rightarrow> if Task_status t = TaskStatus.Queued then (Some tid, heap) else pop_ready tasks heap)"
  by (subst pop_ready.simps, simp)+

lemma select_completed_list [simp]:
  "select_completed tasks before n [] sel = sel"
  "select_completed tasks before n ((at, tid) # probe) sel =
     (if length sel < n \<and> at \<le> before
      then select_completed tasks before n probe
             (case completed_namespace tasks at tid of None \<Rightarrow> sel | Some ns \<Rightarrow> sel @ [(at, tid, ns)])
      else sel)"
  by (auto simp: select_completed.simps [of tasks before n "[]"]
      select_completed.simps [of tasks before n "(at, tid) # probe"])

lemma check_r_simps [simp]: "check_r (Err e) m f = (Err e, m)" "check_r (Ok x) m f = f x"
  by (simp_all add: check_r_def)

lemma seq_r_simps [simp]: "seq_r (Err e, m) f = (Err e, m)" "seq_r (Ok x, m) f = f x m"
  by (simp_all add: seq_r_def)

lemma ok_or_simps [simp]: "ok_or None e = Err e" "ok_or (Some x) e = Ok x"
  by (simp_all add: ok_or_def)

lemma ok_or_iff: "ok_or r e = Ok x \<longleftrightarrow> r = Some x" "ok_or r e = Err f \<longleftrightarrow> r = None \<and> f = e"
  by (cases r; auto)+

text \<open>Weak congruences, under which evaluation does not enter a continuation before its argument.\<close>

lemma check_r_cong: "r = r' \<Longrightarrow> m = m' \<Longrightarrow> check_r r m f = check_r r' m' f"
  by simp

lemma seq_r_cong: "h = h' \<Longrightarrow> seq_r h f = seq_r h' f"
  by simp

lemma check_r_Ok: "check_r r m f = (Ok y, m') \<longleftrightarrow> (\<exists>x. r = Ok x \<and> f x = (Ok y, m'))"
  by (cases r) auto

lemma check_r_Err:
  "check_r r m f = (Err e, m') \<longleftrightarrow> r = Err e \<and> m' = m \<or> (\<exists>x. r = Ok x \<and> f x = (Err e, m'))"
  by (cases r) auto

lemma seq_r_Ok: "seq_r h f = (Ok y, m') \<longleftrightarrow> (\<exists>x m. h = (Ok x, m) \<and> f x m = (Ok y, m'))"
  by (cases h; cases "fst h") auto

lemma seq_r_Err:
  "seq_r h f = (Err e, m') \<longleftrightarrow> h = (Err e, m') \<or> (\<exists>x m. h = (Ok x, m) \<and> f x m = (Err e, m'))"
  by (cases h; cases "fst h") auto

lemmas handled_Ok = check_r_Ok seq_r_Ok
lemmas handled_Err = check_r_Err seq_r_Err

text \<open>
  The definitions that evaluate a command on a concrete machine; used with the weak congruences.
\<close>

lemmas eval_state_machine =
  broker_apply_def clear_changes_def applied_def take_changes_def metadata_def require_term_def
  require_group_member_def require_namespace_def checked_deadline_def consumer_group_result_def
  task_claim_result_def empty_claim_result_def push_ready_def push_expiration_def heap_push_def
  remove_member_lease_task_def lease_identity_def recover_expired_leases_def pop_ready_task_def
  live_candidate_def preflight_member_lease_requeue_def member_lease_identity_def
  requeue_member_leases_def insert_member_lease_def completed_namespace_def
  ensure_namespace_def publish_task_def ensure_consumer_group_def join_consumer_group_def
  heartbeat_def leave_consumer_group_def reap_stale_members_def reap_candidates_def claim_task_def
  renew_task_lease_def complete_task_def prune_completed_tasks_def advance_term_def
  coordinator_join_def coordinator_heartbeat_def coordinator_leave_def
  coordinator_reap_stale_members_def coordinate_def group_mut_def require_member_def
  ConsumerGroup_join_def ConsumerGroup_heartbeat_def ConsumerGroup_leave_def
  ConsumerGroup_reap_stale_members_def require_generation_def group_fv_def ConsumerGroup_new_def
  Consumer_new_def consumer_count_def stale_ids_def fm_values_def
  Task_new_def Task_status_def Task_claim_def Task_renew_def Task_complete_def fv_def
  requeue_if_expired_def requeue_for_member_def require_active_lease_def
  Namespace_new_def BrokerStateMachine_default_def BrokerState_default_def Term_INITIAL_def
  Revision_next_def Generation_next_def LeaseEpoch_next_def counter_next_def checked_add_def Let_def

lemmas eval_cong = check_r_cong seq_r_cong try_r_cong

end
