(* ===== verification/Broker_Inv.thy ===== *)
theory Broker_Inv
  imports State_Machine
begin

text \<open>
  The invariant of the state machine: the entities are well formed and the derived indexes agree
  with the authoritative tasks and groups.  While members are being removed, some leases have no
  owner in the registry (\<open>orph\<close>) or are not in the member index (\<open>unidx\<close>); both sets are
  empty between commands.
\<close>

section \<open>Observations of the task table\<close>

definition task_lease :: "Task \<Rightarrow> LeasedTask option" where
  "task_lease t = (case task_state t of TaskState.Leased l \<Rightarrow> Some l | _ \<Rightarrow> None)"

definition task_ready :: "Task \<Rightarrow> TimestampMs option" where
  "task_ready t = (case task_state t of TaskState.Queued q \<Rightarrow> Some (task_created_at_ms t) | _ \<Rightarrow> None)"

definition task_done :: "Task \<Rightarrow> TimestampMs option" where
  "task_done t = (case task_state t of TaskState.Completed c \<Rightarrow> Some (completed_completed_at_ms c) | _ \<Rightarrow> None)"

definition look :: "(Task \<Rightarrow> 'a option) \<Rightarrow> (TaskId, Task) fmap \<Rightarrow> TaskId \<Rightarrow> 'a option" where
  "look f ts tid = (case fmlookup ts tid of None \<Rightarrow> None | Some t \<Rightarrow> f t)"

abbreviation lease_of :: "(TaskId, Task) fmap \<Rightarrow> TaskId \<Rightarrow> LeasedTask option" where
  "lease_of \<equiv> look task_lease"

abbreviation ready_of :: "(TaskId, Task) fmap \<Rightarrow> TaskId \<Rightarrow> TimestampMs option" where
  "ready_of \<equiv> look task_ready"

abbreviation done_of :: "(TaskId, Task) fmap \<Rightarrow> TaskId \<Rightarrow> TimestampMs option" where
  "done_of \<equiv> look task_done"

abbreviation ns_of :: "(TaskId, Task) fmap \<Rightarrow> TaskId \<Rightarrow> NamespaceId option" where
  "ns_of \<equiv> look (\<lambda>t. Some (task_namespace_id t))"

definition task_lid :: "Task \<Rightarrow> LeaseId option" where
  "task_lid t = map_option leased_lease_id (task_lease t)"

definition task_key :: "Task \<Rightarrow> (ConsumerGroupId \<times> ConsumerId) option" where
  "task_key t = map_option (\<lambda>l. (leased_group_id l, leased_owner_member_id l)) (task_lease t)"

abbreviation lid_of :: "(TaskId, Task) fmap \<Rightarrow> TaskId \<Rightarrow> LeaseId option" where
  "lid_of \<equiv> look task_lid"

abbreviation key_of :: "(TaskId, Task) fmap \<Rightarrow> TaskId \<Rightarrow> (ConsumerGroupId \<times> ConsumerId) option" where
  "key_of \<equiv> look task_key"

lemma look_simps [simp]:
  "look f (fmupd k t ts) tid = (if tid = k then f t else look f ts tid)"
  "look f (fmdrop k ts) tid = (if tid = k then None else look f ts tid)"
  "look f fmempty tid = None"
  by (auto simp: look_def)

lemma look_lookup: "fmlookup ts tid = Some t \<Longrightarrow> look f ts tid = f t"
  by (simp add: look_def)

lemma look_None: "fmlookup ts tid = None \<Longrightarrow> look f ts tid = None"
  by (simp add: look_def)

lemma look_Some: "look f ts tid = Some x \<longleftrightarrow> (\<exists>t. fmlookup ts tid = Some t \<and> f t = Some x)"
  by (simp add: look_def split: option.split)

lemma task_view_simps [simp]:
  "task_lease t = Some l \<longleftrightarrow> task_state t = TaskState.Leased l"
  "task_ready t = Some c \<longleftrightarrow> (\<exists>q. task_state t = TaskState.Queued q) \<and> task_created_at_ms t = c"
  "task_done t = Some a \<longleftrightarrow> (\<exists>c. task_state t = TaskState.Completed c \<and> completed_completed_at_ms c = a)"
  by (auto simp: task_lease_def task_ready_def task_done_def split: TaskState.splits)

lemma task_view_state:
  "task_state t = TaskState.Queued q \<Longrightarrow> task_lease t = None \<and> task_ready t = Some (task_created_at_ms t) \<and> task_done t = None"
  "task_state t = TaskState.Leased l \<Longrightarrow> task_lease t = Some l \<and> task_ready t = None \<and> task_done t = None"
  "task_state t = TaskState.Completed c \<Longrightarrow>
     task_lease t = None \<and> task_ready t = None \<and> task_done t = Some (completed_completed_at_ms c)"
  by (simp_all add: task_lease_def task_ready_def task_done_def)

lemma task_lid_key:
  "task_state t = TaskState.Leased l \<Longrightarrow>
     task_lid t = Some (leased_lease_id l) \<and> task_key t = Some (leased_group_id l, leased_owner_member_id l)"
  "task_lease t = None \<Longrightarrow> task_lid t = None \<and> task_key t = None"
  by (auto simp: task_lid_def task_key_def task_view_state)

lemma lid_key_of:
  "lease_of ts tid = Some l \<Longrightarrow>
     lid_of ts tid = Some (leased_lease_id l) \<and> key_of ts tid = Some (leased_group_id l, leased_owner_member_id l)"
  "lease_of ts tid = None \<Longrightarrow> lid_of ts tid = None \<and> key_of ts tid = None"
  by (auto simp: look_def task_lid_key task_lid_def task_key_def split: option.splits)

text \<open>A task is in at most one of the three states.\<close>

lemma look_exclusive:
  "lease_of ts tid = Some l \<Longrightarrow> ready_of ts tid = None \<and> done_of ts tid = None"
  "ready_of ts tid = Some c \<Longrightarrow> lease_of ts tid = None \<and> done_of ts tid = None"
  "done_of ts tid = Some a \<Longrightarrow> lease_of ts tid = None \<and> ready_of ts tid = None"
  by (auto simp: look_def task_view_state split: option.splits)

lemma finite_in_ns [simp]: "finite {tid. ns_of ts tid = Some ns}"
  by (rule finite_subset [of _ "fset (fmdom ts)"]) (auto simp: look_Some fmdomI)

lemma card_in_ns_upd:
  "card {tid. ns_of (fmupd k t ts) tid = Some ns} =
     (if task_namespace_id t = ns then Suc (card {tid. ns_of (fmdrop k ts) tid = Some ns})
      else card {tid. ns_of (fmdrop k ts) tid = Some ns})"
proof -
  have "{tid. ns_of (fmupd k t ts) tid = Some ns} =
      (if task_namespace_id t = ns then insert k {tid. ns_of (fmdrop k ts) tid = Some ns}
       else {tid. ns_of (fmdrop k ts) tid = Some ns})"
    by auto
  then show ?thesis using finite_in_ns [of "fmdrop k ts" ns] by (simp add: card_insert_if)
qed

lemma card_in_ns_drop:
  assumes "ns_of ts k = Some ns"
  shows "card {tid. ns_of ts tid = Some ns} = Suc (card {tid. ns_of (fmdrop k ts) tid = Some ns})"
proof -
  have "{tid. ns_of ts tid = Some ns} = insert k {tid. ns_of (fmdrop k ts) tid = Some ns}"
    using assms by auto
  then show ?thesis using finite_in_ns [of "fmdrop k ts" ns] by (simp add: card_insert_if)
qed

section \<open>The invariant\<close>

definition entities_wf :: "BrokerState \<Rightarrow> bool" where
  "entities_wf s \<longleftrightarrow> st_term s \<noteq> 0 \<and>
     (\<forall>ns n. fmlookup (st_namespaces s) ns = Some n \<longrightarrow> namespace_id n = ns \<and> namespace_revision n \<noteq> 0) \<and>
     (\<forall>tid t. fmlookup (st_tasks s) tid = Some t \<longrightarrow>
        task_id t = tid \<and> task_revision t \<noteq> 0 \<and> task_namespace_id t |\<in>| fmdom (st_namespaces s)) \<and>
     (\<forall>gid g. fmlookup (st_groups s) gid = Some g \<longrightarrow>
        group_id g = gid \<and> group_wf g \<and> group_namespace_id g |\<in>| fmdom (st_namespaces s))"

definition active_index :: "(TaskId, Task) fmap \<Rightarrow> (LeaseId, TaskId) fmap \<Rightarrow> bool" where
  "active_index ts active \<longleftrightarrow>
     (\<forall>lid tid. fmlookup active lid = Some tid \<longleftrightarrow> lid_of ts tid = Some lid)"

definition member_index ::
  "TaskId set \<Rightarrow> (TaskId, Task) fmap \<Rightarrow> (ConsumerGroupId \<times> ConsumerId, TaskId fset) fmap \<Rightarrow> bool" where
  "member_index unidx ts idx \<longleftrightarrow>
     (\<forall>k tid. tid |\<in>| fm_get {||} idx k \<longleftrightarrow> tid \<notin> unidx \<and> key_of ts tid = Some k) \<and>
     (\<forall>k. fmlookup idx k \<noteq> Some {||})"

definition leases_owned :: "TaskId set \<Rightarrow> (TaskId, Task) fmap \<Rightarrow> group_registry \<Rightarrow> bool" where
  "leases_owned orph ts groups \<longleftrightarrow>
     (\<forall>tid l. lease_of ts tid = Some l \<longrightarrow>
        (\<exists>g. fmlookup groups (leased_group_id l) = Some g \<and>
           leased_generation l \<le> group_generation g \<and>
           (tid \<in> orph \<or> leased_owner_member_id l \<in> members g)))"

definition ready_index :: "(TaskId, Task) fmap \<Rightarrow> (NamespaceId, ready_heap) fmap \<Rightarrow> bool" where
  "ready_index ts ready \<longleftrightarrow>
     (\<forall>ns. sorted_wrt (<) (fm_get [] ready ns)) \<and>
     (\<forall>ns c tid. (c, tid) \<in> set (fm_get [] ready ns) \<longrightarrow> ready_of ts tid = Some c) \<and>
     (\<forall>ns ns' c c' tid. (c, tid) \<in> set (fm_get [] ready ns) \<longrightarrow> (c', tid) \<in> set (fm_get [] ready ns') \<longrightarrow> ns = ns')"

definition completed_index :: "(TaskId, Task) fmap \<Rightarrow> (TimestampMs \<times> TaskId) heap \<Rightarrow> bool" where
  "completed_index ts heap \<longleftrightarrow>
     sorted_wrt (<) heap \<and> (\<forall>at tid. (at, tid) \<in> set heap \<longleftrightarrow> done_of ts tid = Some at)"

definition task_counts :: "(TaskId, Task) fmap \<Rightarrow> (NamespaceId, usize) fmap \<Rightarrow> bool" where
  "task_counts ts counts \<longleftrightarrow> (\<forall>ns. fm_get 0 counts ns = card {tid. ns_of ts tid = Some ns})"

definition groups_in :: "group_registry \<Rightarrow> NamespaceId \<Rightarrow> ConsumerGroupId set" where
  "groups_in groups ns = {gid. \<exists>g. fmlookup groups gid = Some g \<and> group_namespace_id g = ns}"

definition group_counts :: "group_registry \<Rightarrow> (NamespaceId, usize) fmap \<Rightarrow> bool" where
  "group_counts groups counts \<longleftrightarrow>
     (\<forall>ns. fm_get 0 counts ns = card (groups_in groups ns))"

lemma finite_groups_in [simp]: "finite (groups_in gs ns)"
  by (rule finite_subset [of _ "fset (fmdom gs)"]) (auto simp: groups_in_def fmdomI)

lemma groups_in_new:
  "fmlookup gs gid = None \<Longrightarrow> gid \<notin> groups_in gs k"
  "fmlookup gs gid = None \<Longrightarrow>
   groups_in (fmupd gid g gs) k = (if k = group_namespace_id g then insert gid (groups_in gs k) else groups_in gs k)"
  by (auto simp: groups_in_def)

lemma groups_in_same:
  "fmlookup gs gid = Some g \<Longrightarrow> group_namespace_id g' = group_namespace_id g \<Longrightarrow>
   groups_in (fmupd gid g' gs) k = groups_in gs k"
  by (auto simp: groups_in_def)

lemma groups_in_empty [simp]: "groups_in fmempty ns = {}"
  by (simp add: groups_in_def)

definition inv_ex :: "TaskId set \<Rightarrow> TaskId set \<Rightarrow> BrokerStateMachine \<Rightarrow> bool" where
  "inv_ex orph unidx m \<longleftrightarrow>
     entities_wf (sm_state m) \<and>
     active_index (the_tasks m) (active_lease_tasks m) \<and>
     member_index unidx (the_tasks m) (member_lease_tasks m) \<and>
     leases_owned orph (the_tasks m) (the_groups m) \<and>
     ready_index (the_tasks m) (ready_tasks m) \<and>
     (\<forall>ns. sorted (fm_get [] (lease_expirations m) ns)) \<and>
     completed_index (the_tasks m) (completed_tasks m) \<and>
     task_counts (the_tasks m) (namespace_task_counts m) \<and>
     group_counts (the_groups m) (namespace_group_counts m)"

abbreviation broker_inv :: "BrokerStateMachine \<Rightarrow> bool" where
  "broker_inv \<equiv> inv_ex {} {}"

text \<open>
  Completeness of the two heaps that decide what a claim returns.  It is kept apart because a
  claim that fails with an overflow gives it up.
\<close>

definition in_heaps :: "('k, 'a list) fmap \<Rightarrow> 'a \<Rightarrow> bool" where
  "in_heaps hs x \<longleftrightarrow> (\<exists>k. x \<in> set (fm_get [] hs k))"

definition index_complete :: "BrokerStateMachine \<Rightarrow> bool" where
  "index_complete m \<longleftrightarrow>
     (\<forall>tid c. ready_of (the_tasks m) tid = Some c \<longrightarrow> in_heaps (ready_tasks m) (c, tid)) \<and>
     (\<forall>tid l. lease_of (the_tasks m) tid = Some l \<longrightarrow>
        in_heaps (lease_expirations m) (leased_expires_at_ms l, tid, leased_lease_epoch l))"

lemma in_heaps_push [simp]:
  "in_heaps (fmupd k (heap_push x (fm_get [] hs k)) hs) y \<longleftrightarrow> y = x \<or> in_heaps hs y"
  unfolding in_heaps_def by (metis (no_types, lifting) fm_get_upd insert_iff set_heap_push)

text \<open>
  Every task identifier has one home namespace: tasks live there, and so do their heap entries.
\<close>

definition homed :: "(TaskId \<Rightarrow> NamespaceId) \<Rightarrow> BrokerStateMachine \<Rightarrow> bool" where
  "homed home m \<longleftrightarrow>
     (\<forall>tid ns. ns_of (the_tasks m) tid = Some ns \<longrightarrow> ns = home tid) \<and>
     (\<forall>ns c tid. (c, tid) \<in> set (fm_get [] (ready_tasks m) ns) \<longrightarrow> ns = home tid) \<and>
     (\<forall>ns x tid e. (x, tid, e) \<in> set (fm_get [] (lease_expirations m) ns) \<longrightarrow> ns = home tid) \<and>
     (\<forall>tid l. lease_of (the_tasks m) tid = Some l \<longrightarrow>
        (\<forall>g. fmlookup (the_groups m) (leased_group_id l) = Some g \<longrightarrow> group_namespace_id g = home tid))"

lemmas inv_defs = inv_ex_def active_index_def member_index_def leases_owned_def ready_index_def
  completed_index_def task_counts_def group_counts_def

text \<open>The invariant does not see the revision or the change sets.\<close>

lemma entities_wf_revision [simp]: "entities_wf (st_revision_update f s) = entities_wf s"
  by (simp add: entities_wf_def)

lemma inv_frame [simp]:
  "inv_ex orph unidx (sm_state_update (st_revision_update f) m) = inv_ex orph unidx m"
  "inv_ex orph unidx (changed_namespaces_update fn m) = inv_ex orph unidx m"
  "inv_ex orph unidx (changed_tasks_update ft m) = inv_ex orph unidx m"
  "inv_ex orph unidx (deleted_tasks_update ft m) = inv_ex orph unidx m"
  "inv_ex orph unidx (changed_groups_update fg m) = inv_ex orph unidx m"
  by (simp_all add: inv_ex_def)

lemma complete_frame [simp]:
  "index_complete (sm_state_update (st_revision_update f) m) = index_complete m"
  "index_complete (changed_namespaces_update fn m) = index_complete m"
  "index_complete (changed_tasks_update ft m) = index_complete m"
  "index_complete (deleted_tasks_update ft m) = index_complete m"
  "index_complete (changed_groups_update fg m) = index_complete m"
  by (simp_all add: index_complete_def)

lemma homed_frame [simp]:
  "homed home (sm_state_update (st_revision_update f) m) = homed home m"
  "homed home (changed_namespaces_update fn m) = homed home m"
  "homed home (changed_tasks_update ft m) = homed home m"
  "homed home (deleted_tasks_update ft m) = homed home m"
  "homed home (changed_groups_update fg m) = homed home m"
  by (simp_all add: homed_def)

lemma default_inv:
  "broker_inv BrokerStateMachine_default" "index_complete BrokerStateMachine_default"
  "homed home BrokerStateMachine_default"
  by (simp_all add: inv_defs entities_wf_def index_complete_def homed_def
      BrokerStateMachine_default_def BrokerState_default_def Term_INITIAL_def)

section \<open>Preservation by single updates\<close>

text \<open>The task table and each index, for one task that changes its state.\<close>

lemma ready_sound: "ready_index ts r \<Longrightarrow> (c, tid) \<in> set (fm_get [] r ns) \<Longrightarrow> ready_of ts tid = Some c"
  by (simp add: ready_index_def)

lemma ready_unique:
  "ready_index ts r \<Longrightarrow> (c, tid) \<in> set (fm_get [] r ns) \<Longrightarrow> (c', tid) \<in> set (fm_get [] r ns') \<Longrightarrow> ns' = ns"
  unfolding ready_index_def by blast

lemma ready_not_queued:
  "ready_index ts r \<Longrightarrow> ready_of ts tid = None \<Longrightarrow> (c, tid) \<notin> set (fm_get [] r ns)"
  using ready_sound by fastforce

lemma active_release:
  "active_index ts a \<Longrightarrow> lid_of ts tid = Some lid \<Longrightarrow> task_lid t' = None \<Longrightarrow>
   active_index (fmupd tid t' ts) (fmdrop lid a)"
  unfolding active_index_def by (simp, metis option.inject)

lemma active_grant:
  "active_index ts a \<Longrightarrow> lid_of ts tid = None \<Longrightarrow> fmlookup a lid = None \<Longrightarrow>
   task_lid t' = Some lid \<Longrightarrow> active_index (fmupd tid t' ts) (fmupd lid tid a)"
  unfolding active_index_def by (simp, metis option.distinct(1) option.inject)

lemma active_same:
  "active_index ts a \<Longrightarrow> lid_of ts tid = task_lid t' \<Longrightarrow> active_index (fmupd tid t' ts) a"
  by (auto simp: active_index_def)

lemma active_drop:
  "active_index ts a \<Longrightarrow> lid_of ts tid = None \<Longrightarrow> active_index (fmdrop tid ts) a"
  by (auto simp: active_index_def)

lemma member_release:
  "member_index U ts idx \<Longrightarrow> tid \<in> U \<Longrightarrow> task_key t' = None \<Longrightarrow> member_index (U - {tid}) (fmupd tid t' ts) idx"
  by (auto simp: member_index_def)

lemma member_grant:
  "member_index U ts idx \<Longrightarrow> key_of ts tid = None \<Longrightarrow> tid \<notin> U \<Longrightarrow> task_key t' = Some k \<Longrightarrow>
   member_index U (fmupd tid t' ts) (fmupd k (finsert tid (fm_get {||} idx k)) idx)"
  by (auto simp: member_index_def)

lemma member_same:
  "member_index U ts idx \<Longrightarrow> key_of ts tid = task_key t' \<Longrightarrow> member_index U (fmupd tid t' ts) idx"
  by (auto simp: member_index_def)

lemma member_drop:
  "member_index U ts idx \<Longrightarrow> key_of ts tid = None \<Longrightarrow> member_index U (fmdrop tid ts) idx"
  by (auto simp: member_index_def)

lemma owned_release:
  "leases_owned P ts gs \<Longrightarrow> task_lease t' = None \<Longrightarrow> leases_owned (P - {tid}) (fmupd tid t' ts) gs"
  by (auto simp: leases_owned_def simp del: task_view_simps)

lemma owned_grant:
  "leases_owned P ts gs \<Longrightarrow> task_lease t' = Some l' \<Longrightarrow>
   fmlookup gs (leased_group_id l') = Some g \<Longrightarrow> leased_generation l' \<le> group_generation g \<Longrightarrow>
   leased_owner_member_id l' \<in> members g \<Longrightarrow> leases_owned P (fmupd tid t' ts) gs"
  by (auto simp: leases_owned_def simp del: task_view_simps)

lemma owned_drop: "leases_owned P ts gs \<Longrightarrow> leases_owned P (fmdrop tid ts) gs"
  by (auto simp: leases_owned_def)

lemma ready_absent:
  "ready_index ts r \<Longrightarrow> (\<And>ns c. (c, tid) \<notin> set (fm_get [] r ns)) \<Longrightarrow> ready_index (fmupd tid t' ts) r"
  unfolding ready_index_def by (auto simp del: task_view_simps)

lemma ready_push:
  assumes "ready_index ts r" "\<And>ns c. (c, tid) \<notin> set (fm_get [] r ns)" "task_ready t' = Some c"
  shows "ready_index (fmupd tid t' ts) (fmupd ns (heap_push (c, tid) (fm_get [] r ns)) r)"
  using assms unfolding ready_index_def
  by (auto simp: strict_heap_push simp del: task_view_simps)

lemma ready_same:
  "ready_index ts r \<Longrightarrow> ready_of ts tid = None \<Longrightarrow> ready_index (fmupd tid t' ts) r"
  by (rule ready_absent) (auto dest: ready_not_queued)

lemma ready_drop:
  assumes "ready_index ts r" "ready_of ts tid = None"
  shows "ready_index (fmdrop tid ts) r"
proof -
  have "(c, tid) \<notin> set (fm_get [] r ns)" for c ns
    using assms by (rule ready_not_queued)
  with assms(1) show ?thesis unfolding ready_index_def by (auto simp del: task_view_simps)
qed

lemma completed_push:
  "completed_index ts h \<Longrightarrow> done_of ts tid = None \<Longrightarrow> task_done t' = Some at \<Longrightarrow>
   completed_index (fmupd tid t' ts) (heap_push (at, tid) h)"
  by (auto simp: completed_index_def strict_heap_push simp del: task_view_simps)

lemma completed_same:
  "completed_index ts h \<Longrightarrow> done_of ts tid = None \<Longrightarrow> task_done t' = None \<Longrightarrow>
   completed_index (fmupd tid t' ts) h"
  by (auto simp: completed_index_def simp del: task_view_simps)

lemma counts_same:
  assumes "task_counts ts n" "ns_of ts tid = Some (task_namespace_id t')"
  shows "task_counts (fmupd tid t' ts) n"
proof -
  have "ns_of (fmupd tid t' ts) = ns_of ts"
    using assms(2) by (intro ext) auto
  with assms(1) show ?thesis by (simp add: task_counts_def)
qed

lemma counts_new:
  assumes "task_counts ts n" "fmlookup ts tid = None" "task_namespace_id t' = ns"
  shows "task_counts (fmupd tid t' ts) (fmupd ns (Suc (fm_get 0 n ns)) n)"
proof -
  have "fmdrop tid ts = ts" using assms(2) by (intro fmap_ext) auto
  with assms(1,3) show ?thesis
    unfolding task_counts_def card_in_ns_upd by simp
qed

lemma counts_drop:
  assumes "task_counts ts n" "ns_of ts tid = Some ns"
  shows "task_counts (fmdrop tid ts) (fmupd ns (fm_get 0 n ns - 1) n)"
proof -
  have "{k. ns_of (fmdrop tid ts) k = Some ns'} = {k. ns_of ts k = Some ns'}" if "ns' \<noteq> ns" for ns'
    using assms(2) that by auto
  then show ?thesis
    using assms unfolding task_counts_def by (auto simp: card_in_ns_drop [OF assms(2)] simp del: look_simps)
qed

end
