(* ===== verification/Broker_Steps.thy ===== *)
theory Broker_Steps
  imports Broker_Inv
begin

text \<open>
  The loops and updates that the command handlers are made of: what they do to the authoritative
  tasks, and that they keep the invariant.
\<close>

section \<open>Requeueing\<close>

definition requeued :: "Task \<Rightarrow> Task" where
  "requeued t =
     (case task_state t of
        TaskState.Leased l \<Rightarrow>
          t\<lparr>task_state := TaskState.Queued \<lparr>queued_lease_epoch = leased_lease_epoch l\<rparr>,
            task_revision := task_revision t + 1\<rparr>
      | _ \<Rightarrow> t)"

definition requeue_set :: "TaskId fset \<Rightarrow> (TaskId, Task) fmap \<Rightarrow> (TaskId, Task) fmap" where
  "requeue_set T ts = fmmap_keys (\<lambda>tid t. if tid |\<in>| T then requeued t else t) ts"

text \<open>What requeueing the tasks \<open>T\<close> leaves alone.\<close>

definition requeue_frame :: "TaskId fset \<Rightarrow> BrokerStateMachine \<Rightarrow> BrokerStateMachine \<Rightarrow> bool" where
  "requeue_frame T m m' \<longleftrightarrow>
     sm_state m' = (sm_state m)\<lparr>st_tasks := requeue_set T (the_tasks m)\<rparr> \<and>
     lease_expirations m' = lease_expirations m \<and>
     changed_tasks m' = changed_tasks m |\<union>| T \<and>
     changed_namespaces m' = changed_namespaces m \<and> deleted_tasks m' = deleted_tasks m \<and>
     changed_groups m' = changed_groups m"

lemma requeued_fields [simp]:
  "task_id (requeued t) = task_id t" "task_namespace_id (requeued t) = task_namespace_id t"
  "task_objective (requeued t) = task_objective t" "task_created_at_ms (requeued t) = task_created_at_ms t"
  by (simp_all add: requeued_def split: TaskState.split)

lemma requeued_view [simp]:
  "task_lease (requeued t) = None" "task_lid (requeued t) = None" "task_key (requeued t) = None"
  "task_done (requeued t) = task_done t"
  by (auto simp: requeued_def task_lease_def task_lid_def task_key_def task_done_def split: TaskState.splits)

lemma requeued_idem [simp]: "requeued (requeued t) = requeued t"
  by (simp add: requeued_def split: TaskState.splits)

lemma requeued_ready: "task_state t = TaskState.Leased l \<Longrightarrow> task_ready (requeued t) = Some (task_created_at_ms t)"
  by (simp add: requeued_def task_ready_def)

lemma requeue_for_member_requeued:
  assumes "task_key t = Some (gid, mid)" "Revision_next (task_revision t) = Ok r"
  shows "requeue_for_member t gid mid = Ok (True, requeued t)" "task_revision (requeued t) \<noteq> 0"
  using assms revision.next_plus [OF assms(2)] revision.next_pos [OF assms(2)]
  by (auto simp: requeue_for_member_def requeued_def task_key_def fv_def)

lemma requeue_if_expired_requeued:
  assumes "task_state t = TaskState.Leased l" "leased_expires_at_ms l \<le> now"
    "Revision_next (task_revision t) = Ok r"
  shows "requeue_if_expired t now = Ok (True, requeued t)" "task_revision (requeued t) \<noteq> 0"
  using assms revision.next_plus [OF assms(3)] revision.next_pos [OF assms(3)]
  by (auto simp: requeue_if_expired_def requeued_def fv_def)

lemma requeue_if_expired_exhausted:
  "task_state t = TaskState.Leased l \<Longrightarrow> leased_expires_at_ms l \<le> now \<Longrightarrow>
   Revision_next (task_revision t) = Err e \<Longrightarrow>
   requeue_if_expired t now = Err (TaskTransitionError.FencingValue e)"
  by (simp add: requeue_if_expired_def fv_def leD)

lemma requeue_set_lookup [simp]:
  "fmlookup (requeue_set T ts) tid = (if tid |\<in>| T then map_option requeued (fmlookup ts tid) else fmlookup ts tid)"
  by (cases "fmlookup ts tid") (auto simp: requeue_set_def)

lemma requeue_set_empty [simp]: "requeue_set {||} ts = ts"
  by (rule fmap_ext) simp

lemma requeue_set_union [simp]: "requeue_set T' (requeue_set T ts) = requeue_set (T |\<union>| T') ts"
  by (rule fmap_ext) (auto simp: option.map_comp o_def)

lemma requeue_set_upd:
  "fmlookup ts tid = Some t \<Longrightarrow> fmupd tid (requeued t) ts = requeue_set {|tid|} ts"
  by (rule fmap_ext) auto

lemma look_requeue_set:
  "look f (requeue_set T ts) tid = (if tid |\<in>| T then look (\<lambda>t. f (requeued t)) ts tid else look f ts tid)"
  by (simp add: look_def split: option.splits)

lemma requeue_frame_refl [simp]: "requeue_frame {||} m m"
  by (simp add: requeue_frame_def)

lemma requeue_frame_trans:
  "requeue_frame T m m1 \<Longrightarrow> requeue_frame T' m1 m2 \<Longrightarrow> requeue_frame (T |\<union>| T') m m2"
  by (auto simp: requeue_frame_def)

text \<open>A single task goes back to the queue.\<close>

definition release ::
  "NamespaceId \<Rightarrow> TimestampMs \<Rightarrow> LeaseId \<Rightarrow> TaskId \<Rightarrow> Task \<Rightarrow> BrokerStateMachine \<Rightarrow> BrokerStateMachine" where
  "release ns created lid tid t m = changed_tasks_update (finsert tid) (push_ready ns created tid
     ((put_task tid t m)\<lparr>active_lease_tasks := fmdrop lid (active_lease_tasks m)\<rparr>))"

lemma entities_put:
  assumes "entities_wf s" "fmlookup (st_tasks s) tid = Some t" "same_identity t t'" "task_revision t' \<noteq> 0"
  shows "entities_wf (st_tasks_update (fmupd tid t') s)"
  using assms by (auto simp: entities_wf_def same_identity_def)

lemma same_identity_requeued [simp]: "same_identity t (requeued t)"
  by (simp add: same_identity_def)

lemma release_inv:
  assumes inv: "inv_ex P U m" and t: "fmlookup (the_tasks m) tid = Some t" "task_state t = TaskState.Leased l"
    and "tid \<in> U" "task_revision (requeued t) \<noteq> 0"
  shows "inv_ex (P - {tid}) (U - {tid}) (release ns (task_created_at_ms t) (leased_lease_id l) tid (requeued t) m)"
proof -
  note look = look_lookup [OF t(1)] task_view_state(2) [OF t(2)] task_lid_key(1) [OF t(2)]
  have "ready_of (the_tasks m) tid = None" by (simp add: look)
  then have "(c, tid) \<notin> set (fm_get [] (ready_tasks m) ns)" for c ns
    using inv by (auto simp: inv_ex_def dest: ready_not_queued)
  with inv show ?thesis
    unfolding inv_ex_def release_def push_ready_def
    using assms(4,5) requeued_ready [OF t(2)]
    by (simp add: entities_put [OF _ t(1)] active_release member_release owned_release ready_push
        completed_same counts_same look)
qed

lemma release_frame:
  assumes "fmlookup (the_tasks m) tid = Some t"
  shows "requeue_frame {|tid|} m (release ns c lid tid (requeued t) m)"
  using assms by (simp add: requeue_frame_def release_def push_ready_def requeue_set_upd)

lemma remove_member_frame [simp]:
  "sm_state (remove_member_lease_task g k tid m) = sm_state m"
  "ready_tasks (remove_member_lease_task g k tid m) = ready_tasks m"
  "lease_expirations (remove_member_lease_task g k tid m) = lease_expirations m"
  "active_lease_tasks (remove_member_lease_task g k tid m) = active_lease_tasks m"
  "completed_tasks (remove_member_lease_task g k tid m) = completed_tasks m"
  "namespace_task_counts (remove_member_lease_task g k tid m) = namespace_task_counts m"
  "namespace_group_counts (remove_member_lease_task g k tid m) = namespace_group_counts m"
  "changed_namespaces (remove_member_lease_task g k tid m) = changed_namespaces m"
  "changed_tasks (remove_member_lease_task g k tid m) = changed_tasks m"
  "deleted_tasks (remove_member_lease_task g k tid m) = deleted_tasks m"
  "changed_groups (remove_member_lease_task g k tid m) = changed_groups m"
  by (simp_all add: remove_member_lease_task_def Let_def split: option.splits)

lemma remove_member_get:
  "fm_get {||} (member_lease_tasks (remove_member_lease_task gid mid tid m)) k =
     (if k = (gid, mid) then fm_get {||} (member_lease_tasks m) k |-| {|tid|}
      else fm_get {||} (member_lease_tasks m) k)"
  by (auto simp: remove_member_lease_task_def fm_get_def Let_def split: option.splits)

lemma remove_member_nonempty:
  "\<forall>k. fmlookup (member_lease_tasks m) k \<noteq> Some {||} \<Longrightarrow>
   fmlookup (member_lease_tasks (remove_member_lease_task gid mid tid m)) k \<noteq> Some {||}"
  by (cases k) (simp add: remove_member_lease_task_def Let_def split: option.splits)

lemma remove_member_index:
  assumes "member_index U ts (member_lease_tasks m)" "key_of ts tid = Some (gid, mid)"
  shows "member_index (insert tid U) ts (member_lease_tasks (remove_member_lease_task gid mid tid m))"
  unfolding member_index_def remove_member_get
proof (intro conjI allI)
  fix k x
  have *: "x |\<in>| fm_get {||} (member_lease_tasks m) k \<longleftrightarrow> x \<notin> U \<and> key_of ts x = Some k"
    using assms(1) unfolding member_index_def by blast
  show "(x |\<in>| (if k = (gid, mid) then fm_get {||} (member_lease_tasks m) k |-| {|tid|}
          else fm_get {||} (member_lease_tasks m) k)) =
        (x \<notin> insert tid U \<and> key_of ts x = Some k)"
    using assms(2) * by (cases "x = tid") auto
next
  fix k
  show "fmlookup (member_lease_tasks (remove_member_lease_task gid mid tid m)) k \<noteq> Some {||}"
    using assms(1) by (intro remove_member_nonempty) (simp add: member_index_def)
qed

lemma remove_member_inv:
  "inv_ex P U m \<Longrightarrow> key_of (the_tasks m) tid = Some (gid, mid) \<Longrightarrow>
   inv_ex P (insert tid U) (remove_member_lease_task gid mid tid m)"
  by (simp add: inv_ex_def remove_member_index)

section \<open>Recovery of expired leases\<close>

lemma remove_member_commute:
  "remove_member_lease_task g k tid ((put_task x t m)\<lparr>active_lease_tasks := a\<rparr>) =
   (put_task x t (remove_member_lease_task g k tid m))\<lparr>active_lease_tasks := a\<rparr>"
  by (simp add: remove_member_lease_task_def Let_def split: option.splits)

lemma recover_step:
  assumes "fmlookup (the_tasks m) tid = Some t" "task_state t = TaskState.Leased l"
    "leased_expires_at_ms l \<le> now"
  shows "Revision_next (task_revision t) = Ok r \<Longrightarrow>
      recover_loop ns now (tid # tids) n m = recover_loop ns now tids (n + 1)
        (release ns (task_created_at_ms t) (leased_lease_id l) tid (requeued t)
          (remove_member_lease_task (leased_group_id l) (leased_owner_member_id l) tid m))"
    and "Revision_next (task_revision t) = Err e \<Longrightarrow>
      recover_loop ns now (tid # tids) n m = (Err (TaskTransition (TaskTransitionError.FencingValue e)), m)"
  using assms
  by (simp_all add: lease_identity_def requeue_if_expired_requeued requeue_if_expired_exhausted
      release_def remove_member_commute Let_def)

definition expired_lease :: "(TaskId, Task) fmap \<Rightarrow> TimestampMs \<Rightarrow> TaskId \<Rightarrow> bool" where
  "expired_lease ts now tid \<longleftrightarrow> (\<exists>l. lease_of ts tid = Some l \<and> leased_expires_at_ms l \<le> now)"

text \<open>A task whose revision is not exhausted.\<close>

definition can_advance :: "(TaskId, Task) fmap \<Rightarrow> TaskId \<Rightarrow> bool" where
  "can_advance ts tid \<longleftrightarrow> (\<exists>t r. fmlookup ts tid = Some t \<and> Revision_next (task_revision t) = Ok r)"

text \<open>
  The recovery loop requeues its candidates one by one; when a task revision is exhausted it stops
  with an error, having requeued the tasks before it.
\<close>

lemma recover_loop_inv:
  assumes "recover_loop ns now tids n m = (res, m')" "broker_inv m" "distinct tids"
    and "\<forall>tid \<in> set tids. expired_lease (the_tasks m) now tid"
  shows "\<exists>T. fset T \<subseteq> set tids \<and> broker_inv m' \<and> requeue_frame T m m' \<and>
    fset T \<subseteq> {tid. can_advance (the_tasks m) tid} \<and>
    (case res of Ok k \<Rightarrow> fset T = set tids \<and> k = n + length tids
     | Err e \<Rightarrow> \<exists>f. e = TaskTransition (TaskTransitionError.FencingValue f))"
  using assms
proof (induction tids arbitrary: n m)
  case Nil
  then show ?case by (auto intro: exI [of _ "{||}"])
next
  case (Cons tid tids)
  from Cons.prems(4) obtain t l where t: "fmlookup (the_tasks m) tid = Some t"
    "task_state t = TaskState.Leased l" "leased_expires_at_ms l \<le> now"
    by (auto simp: expired_lease_def look_Some)
  show ?case
  proof (cases "Revision_next (task_revision t)")
    case (Inl e)
    with Cons.prems(1,2) recover_step(2) [OF t, of e ns tids n] show ?thesis
      by (auto intro: exI [of _ "{||}"])
  next
    case (Inr r)
    let ?m0 = "remove_member_lease_task (leased_group_id l) (leased_owner_member_id l) tid m"
    let ?m1 = "release ns (task_created_at_ms t) (leased_lease_id l) tid (requeued t) ?m0"
    have "key_of (the_tasks m) tid = Some (leased_group_id l, leased_owner_member_id l)"
      using t by (simp add: look_lookup task_lid_key)
    then have "inv_ex {} (insert tid {}) ?m0"
      using Cons.prems(2) by (rule remove_member_inv [rotated])
    then have inv: "broker_inv ?m1"
      using release_inv [of "{}" "{tid}" ?m0 tid t l ns] t requeue_if_expired_requeued(2) [OF t(2,3) Inr]
      by simp
    have "requeue_frame {|tid|} ?m0 ?m1"
      using t by (intro release_frame) simp
    then have fr: "requeue_frame {|tid|} m ?m1"
      by (simp add: requeue_frame_def)
    have rest: "\<forall>k \<in> set tids. expired_lease (the_tasks ?m1) now k"
      using Cons.prems(3,4) fr by (auto simp: requeue_frame_def expired_lease_def look_requeue_set)
    have "recover_loop ns now tids (n + 1) ?m1 = (res, m')"
      using Cons.prems(1) recover_step(1) [OF t Inr] by simp
    from Cons.IH [OF this inv _ rest] Cons.prems(3) obtain T where T: "fset T \<subseteq> set tids"
      "broker_inv m'" "requeue_frame T ?m1 m'" "fset T \<subseteq> {tid. can_advance (the_tasks ?m1) tid}"
      "case res of Ok k \<Rightarrow> fset T = set tids \<and> k = n + 1 + length tids
       | Err e \<Rightarrow> \<exists>f. e = TaskTransition (TaskTransitionError.FencingValue f)"
      by auto
    have "tid \<notin> fset T" using T(1) Cons.prems(3) by auto
    then have "can_advance (the_tasks m) k" if "k |\<in>| {|tid|} |\<union>| T" for k
    proof (cases "k = tid")
      case True
      with t(1) Inr show ?thesis by (auto simp: can_advance_def)
    next
      case False
      have "the_tasks ?m1 = requeue_set {|tid|} (the_tasks m)" using fr by (simp add: requeue_frame_def)
      moreover have "can_advance (the_tasks ?m1) k" using False that T(4) by auto
      ultimately show ?thesis using False by (simp add: can_advance_def)
    qed
    then show ?thesis
      using T(1,2,5) requeue_frame_trans [OF fr T(3)]
      by (intro exI [of _ "{|tid|} |\<union>| T"]) (auto split: sum.splits)
  qed
qed

section \<open>The expired part of a heap\<close>

lemma expired_candidates_spec:
  assumes "sorted heap" "expired_candidates ts now heap cs = (cs', heap')"
  shows "heap' = filter (\<lambda>p. now < fst p) heap \<and>
    fset cs' = fset cs \<union> {tid. \<exists>x e. (x, tid, e) \<in> set heap \<and> x \<le> now \<and> live_candidate ts x tid e}"
  using assms
proof (induction heap arbitrary: cs)
  case (Cons p heap)
  obtain x tid e where p: "p = (x, tid, e)" by (cases p)
  then have le: "\<forall>q \<in> set heap. x \<le> fst q"
    using Cons.prems(1) by (auto simp: less_eq_prod_def)
  show ?case
  proof (cases "now < x")
    case True
    then have "\<forall>q \<in> set heap. now < fst q" using le by auto
    then have "filter (\<lambda>p. now < fst p) heap = heap" "\<forall>(y, k, f) \<in> set heap. \<not> y \<le> now"
      by (auto simp: filter_id_conv)
    with True Cons.prems(2) p show ?thesis by fastforce
  next
    case False
    let ?cs = "if live_candidate ts x tid e then finsert tid cs else cs"
    have "expired_candidates ts now heap ?cs = (cs', heap')"
      using Cons.prems(2) False p by simp
    with Cons.IH [of ?cs] Cons.prems(1) have "heap' = filter (\<lambda>p. now < fst p) heap"
      "fset cs' = fset ?cs \<union> {tid. \<exists>x e. (x, tid, e) \<in> set heap \<and> x \<le> now \<and> live_candidate ts x tid e}"
      by auto
    with False p show ?thesis by (auto simp: not_less)
  qed
qed simp

lemma live_candidate_lease:
  "live_candidate ts x tid e \<longleftrightarrow>
     (\<exists>l. lease_of ts tid = Some l \<and> leased_lease_epoch l = e \<and> leased_expires_at_ms l = x)"
  by (auto simp: live_candidate_def look_def task_lease_def split: option.splits TaskState.splits)

definition expired_in :: "BrokerStateMachine \<Rightarrow> NamespaceId \<Rightarrow> TimestampMs \<Rightarrow> TaskId set" where
  "expired_in m ns now = {tid. \<exists>x e. (x, tid, e) \<in> set (fm_get [] (lease_expirations m) ns) \<and> x \<le> now \<and>
     live_candidate (the_tasks m) x tid e}"

lemma expired_in_lease: "tid \<in> expired_in m ns now \<Longrightarrow> expired_lease (the_tasks m) now tid"
  by (auto simp: expired_in_def live_candidate_lease expired_lease_def)

lemma inv_expirations:
  "inv_ex P U m \<Longrightarrow> (\<And>ns. sorted (fm_get [] E ns)) \<Longrightarrow> inv_ex P U (m\<lparr>lease_expirations := E\<rparr>)"
  by (simp add: inv_ex_def)

lemma recover_expired_leases_inv:
  assumes "recover_expired_leases ns now m = (res, m')" "broker_inv m"
  obtains T E where "fset T \<subseteq> expired_in m ns now" "fset T \<subseteq> {tid. can_advance (the_tasks m) tid}" "broker_inv m'"
    "requeue_frame T (m\<lparr>lease_expirations := E\<rparr>) m'"
    "\<And>k. fm_get [] E k = (if k = ns then filter (\<lambda>p. now < fst p) (fm_get [] (lease_expirations m) ns)
                            else fm_get [] (lease_expirations m) k)"
    "case res of Ok k \<Rightarrow> fset T = expired_in m ns now \<and> k = fcard T
     | Err e \<Rightarrow> \<exists>f. e = TaskTransition (TaskTransitionError.FencingValue f)"
proof (cases "fmlookup (lease_expirations m) ns")
  case None
  then have *: "fm_get [] (lease_expirations m) ns = []" by (simp add: fm_get_def)
  then have "expired_in m ns now = {}" by (simp add: expired_in_def)
  with None assms * show thesis
    by (intro that [of "{||}" "lease_expirations m"])
      (auto simp: recover_expired_leases_def requeue_frame_def)
next
  case (Some heap)
  then have h: "fm_get [] (lease_expirations m) ns = heap" by (simp add: fm_get_def)
  have "sorted heap" using assms(2) h by (auto simp: inv_ex_def)
  obtain cs heap' where c: "expired_candidates (the_tasks m) now heap {||} = (cs, heap')"
    by (meson surj_pair)
  note spec = expired_candidates_spec [OF \<open>sorted heap\<close> c]
  have cs: "fset cs = expired_in m ns now"
    using spec h by (auto simp: expired_in_def)
  define E where "E = fmupd ns heap' (lease_expirations m)"
  have E: "fm_get [] E k = (if k = ns then filter (\<lambda>p. now < fst p) (fm_get [] (lease_expirations m) ns)
      else fm_get [] (lease_expirations m) k)" for k
    using spec h by (simp add: E_def)
  have inv: "broker_inv (m\<lparr>lease_expirations := E\<rparr>)"
    using assms(2) by (intro inv_expirations) (auto simp: inv_ex_def E intro: sorted_filter [where f = id, simplified])
  have loop: "recover_loop ns now (sorted_list_of_fset cs) 0 (m\<lparr>lease_expirations := E\<rparr>) = (res, m')"
    using assms(1) Some c by (simp add: recover_expired_leases_def E_def)
  have "\<forall>tid \<in> set (sorted_list_of_fset cs). expired_lease (the_tasks (m\<lparr>lease_expirations := E\<rparr>)) now tid"
    using cs expired_in_lease [of _ m ns now] by (simp add: set_sorted_list_of_fset)
  from recover_loop_inv [OF loop inv _ this] obtain T where T: "fset T \<subseteq> fset cs" "broker_inv m'"
    "fset T \<subseteq> {tid. can_advance (the_tasks m) tid}"
    "requeue_frame T (m\<lparr>lease_expirations := E\<rparr>) m'"
    "case res of Ok k \<Rightarrow> fset T = fset cs \<and> k = 0 + fcard cs
     | Err e \<Rightarrow> \<exists>f. e = TaskTransition (TaskTransitionError.FencingValue f)"
    unfolding set_sorted_list_of_fset length_sorted_list_of_fset by auto
  have "case res of Ok k \<Rightarrow> fset T = expired_in m ns now \<and> k = fcard T
     | Err e \<Rightarrow> \<exists>f. e = TaskTransition (TaskTransitionError.FencingValue f)"
    using T(5) cs by (auto simp: fcard.rep_eq split: sum.splits)
  then show thesis
    using T(1-4) cs E by (intro that [of T E]) simp_all
qed

section \<open>Taking a ready task\<close>

lemma pop_ready_sound:
  assumes "\<forall>(c, tid) \<in> set h. ready_of ts tid = Some c"
  shows "pop_ready ts h = (case h of [] \<Rightarrow> (None, []) | (c, tid) # h' \<Rightarrow> (Some tid, h'))"
proof (cases h)
  case (Cons p h')
  obtain c tid where p: "p = (c, tid)" by (cases p)
  with assms Cons obtain t q where "fmlookup ts tid = Some t" "task_state t = TaskState.Queued q"
    by (auto simp: look_Some)
  with Cons p show ?thesis by (simp add: Task_status_def)
qed simp

lemma pop_ready_task_spec:
  assumes "ready_index (the_tasks m) (ready_tasks m)" "pop_ready_task ns m = (res, m')"
  obtains R where "m' = m\<lparr>ready_tasks := R\<rparr>"
    "\<And>k. fm_get [] R k = (if k = ns then tl (fm_get [] (ready_tasks m) ns) else fm_get [] (ready_tasks m) k)"
    "res = (case fm_get [] (ready_tasks m) ns of [] \<Rightarrow> None | (c, tid) # h \<Rightarrow> Some tid)"
proof (cases "fmlookup (ready_tasks m) ns")
  case None
  with assms(2) show thesis
    by (intro that [of "ready_tasks m"]) (auto simp: pop_ready_task_def fm_get_def)
next
  case (Some h)
  then have h: "fm_get [] (ready_tasks m) ns = h" by (simp add: fm_get_def)
  then have "\<forall>(c, tid) \<in> set h. ready_of (the_tasks m) tid = Some c"
    using assms(1) ready_sound by fastforce
  from pop_ready_sound [OF this] Some h assms(2) show thesis
    by (intro that [of "fmupd ns (tl h) (ready_tasks m)"])
      (auto simp: pop_ready_task_def split: list.splits)
qed

lemma ready_pop:
  assumes "ready_index ts r" "\<And>k. fm_get [] R k = (if k = ns then tl (fm_get [] r ns) else fm_get [] r k)"
  shows "ready_index ts R"
proof -
  have "set (fm_get [] R k) \<subseteq> set (fm_get [] r k)" for k
    using assms(2) by (cases "fm_get [] r k") auto
  moreover have "sorted_wrt (<) (fm_get [] R k)" for k
  proof -
    have "sorted_wrt (<) (fm_get [] r k)" using assms(1) by (simp add: ready_index_def)
    then show ?thesis using assms(2) by (cases "fm_get [] r k") auto
  qed
  ultimately show ?thesis
    using assms(1) unfolding ready_index_def by blast
qed

text \<open>The popped task is in no heap any more.\<close>

lemma ready_pop_absent:
  assumes "ready_index ts r" "\<And>k. fm_get [] R k = (if k = ns then tl (fm_get [] r ns) else fm_get [] r k)"
    and "fm_get [] r ns = (c, tid) # h"
  shows "(c', tid) \<notin> set (fm_get [] R k)"
proof
  assume *: "(c', tid) \<in> set (fm_get [] R k)"
  have hd: "(c, tid) \<in> set (fm_get [] r ns)" using assms(3) by simp
  from * have in_r: "(c', tid) \<in> set (fm_get [] r k)"
    using assms(2,3) by (auto split: if_splits)
  have "k = ns" using ready_unique [OF assms(1) hd in_r] .
  moreover have "c' = c" using ready_sound [OF assms(1) hd] ready_sound [OF assms(1) in_r] by simp
  ultimately have "(c, tid) \<in> set h" using * assms(2,3) by simp
  moreover have "sorted_wrt (<) ((c, tid) # h)"
    using assms(1) unfolding ready_index_def assms(3) [symmetric] by simp
  ultimately show False by auto
qed

section \<open>Requeueing as steps of tasks\<close>

lemma requeue_set_step:
  assumes "fset T \<subseteq> {tid. can_advance ts tid}" "\<And>tid. tid |\<in>| T \<Longrightarrow> lease_of ts tid \<noteq> None"
    and "fmlookup ts tid = Some t"
  obtains t' where "fmlookup (requeue_set T ts) tid = Some t'" "task_step\<^sup>*\<^sup>* t t'"
proof (cases "tid |\<in>| T")
  case True
  then have "can_advance ts tid" "lease_of ts tid \<noteq> None" using assms(1,2) by auto
  with assms(3) obtain l r where l: "task_state t = TaskState.Leased l" "Revision_next (task_revision t) = Ok r"
    by (auto simp: can_advance_def look_lookup)
  then have "requeue_for_member t (leased_group_id l) (leased_owner_member_id l) = Ok (True, requeued t)"
    by (intro requeue_for_member_requeued) (simp_all add: task_lid_key)
  then have "task_step\<^sup>*\<^sup>* t (requeued t)" by (blast intro: task_step.leave)
  with True assms(3) that show thesis by simp
qed (use assms(3) that in auto)

section \<open>Requeueing the leases of a member\<close>

lemma member_identity:
  "member_lease_identity m gid mid tid =
     (case fmlookup (the_tasks m) tid of
        None \<Rightarrow> None
      | Some t \<Rightarrow> (if task_key t = Some (gid, mid)
                   then Some (leased_lease_id (the (task_lease t)), task_created_at_ms t) else None))"
  by (auto simp: member_lease_identity_def task_key_def task_lease_def split: option.splits TaskState.splits)

lemma requeue_step:
  assumes "fmlookup (the_tasks m) tid = Some t" "task_state t = TaskState.Leased l"
    "task_key t = Some (gid, mid)" "Revision_next (task_revision t) = Ok r"
  shows "requeue_loop gid mid (tid # tids) n m = requeue_loop gid mid tids (n + 1)
    (release (task_namespace_id t) (task_created_at_ms t) (leased_lease_id l) tid (requeued t) m)"
  using assms
  by (simp add: member_identity task_view_state requeue_for_member_requeued release_def Let_def)

text \<open>A task of the member whose revision can advance.\<close>

definition releasable :: "(TaskId, Task) fmap \<Rightarrow> ConsumerGroupId \<Rightarrow> ConsumerId \<Rightarrow> TaskId \<Rightarrow> bool" where
  "releasable ts gid mid tid \<longleftrightarrow>
     (\<exists>t r. fmlookup ts tid = Some t \<and> task_key t = Some (gid, mid) \<and> Revision_next (task_revision t) = Ok r)"

lemma requeue_loop_inv:
  assumes "inv_ex P U m" "set tids \<subseteq> U" "distinct tids"
    and "\<forall>tid \<in> set tids. releasable (the_tasks m) gid mid tid"
  shows "\<exists>m'. requeue_loop gid mid tids n m = (Ok (n + length tids), m') \<and>
    inv_ex (P - set tids) (U - set tids) m' \<and> requeue_frame (fset_of_list tids) m m'"
  using assms
proof (induction tids arbitrary: n m P U)
  case (Cons tid tids)
  from Cons.prems(4) obtain t r where t: "fmlookup (the_tasks m) tid = Some t"
    "task_key t = Some (gid, mid)" "Revision_next (task_revision t) = Ok r"
    by (auto simp: releasable_def)
  then obtain l where l: "task_state t = TaskState.Leased l"
    by (auto simp: task_key_def)
  let ?m1 = "release (task_namespace_id t) (task_created_at_ms t) (leased_lease_id l) tid (requeued t) m"
  have inv: "inv_ex (P - {tid}) (U - {tid}) ?m1"
    using Cons.prems(1,2) t l requeue_for_member_requeued(2) [OF t(2,3)]
    by (intro release_inv) auto
  have fr: "requeue_frame {|tid|} m ?m1" using t(1) by (rule release_frame)
  have rest: "\<forall>k \<in> set tids. releasable (the_tasks ?m1) gid mid k"
    using Cons.prems(3,4) fr by (auto simp: requeue_frame_def releasable_def)
  have sub: "set tids \<subseteq> U - {tid}" "distinct tids"
    using Cons.prems(2,3) by auto
  obtain m' where m': "requeue_loop gid mid tids (n + 1) ?m1 = (Ok (n + 1 + length tids), m')"
    "inv_ex (P - {tid} - set tids) (U - {tid} - set tids) m'" "requeue_frame (fset_of_list tids) ?m1 m'"
    using Cons.IH [OF inv sub rest, of "n + 1"] by blast
  have "P - {tid} - set tids = P - set (tid # tids)" "U - {tid} - set tids = U - set (tid # tids)"
    by auto
  with m' show ?case
    using requeue_step [OF t(1) l t(2,3), of tids n] requeue_frame_trans [OF fr m'(3)]
    by simp
qed simp

lemma drop_key_inv:
  assumes "inv_ex P {} m"
  shows "inv_ex P {tid. key_of (the_tasks m) tid = Some k}
    (m\<lparr>member_lease_tasks := fmdrop k (member_lease_tasks m)\<rparr>)"
proof -
  have idx: "member_index {} (the_tasks m) (member_lease_tasks m)"
    using assms by (simp add: inv_ex_def)
  have mem: "tid |\<in>| fm_get {||} (member_lease_tasks m) k' \<longleftrightarrow> key_of (the_tasks m) tid = Some k'" for tid k'
    using idx unfolding member_index_def by blast
  have ne: "fmlookup (fmdrop k (member_lease_tasks m)) k' \<noteq> Some {||}" for k'
    using idx by (cases k') (simp add: member_index_def)
  have "member_index {tid. key_of (the_tasks m) tid = Some k} (the_tasks m)
      (fmdrop k (member_lease_tasks m))"
    unfolding member_index_def fm_get_drop using mem ne by auto
  with assms show ?thesis by (simp add: inv_ex_def)
qed

lemma member_leases:
  "inv_ex P {} m \<Longrightarrow> tid |\<in>| fm_get {||} (member_lease_tasks m) k \<longleftrightarrow> key_of (the_tasks m) tid = Some k"
  unfolding inv_ex_def member_index_def by blast

definition member_tasks :: "BrokerState \<Rightarrow> ConsumerGroupId \<times> ConsumerId \<Rightarrow> TaskId fset" where
  "member_tasks s k = ffilter (\<lambda>tid. key_of (st_tasks s) tid = Some k) (fmdom (st_tasks s))"

lemma in_member_tasks [simp]: "tid |\<in>| member_tasks s k \<longleftrightarrow> key_of (st_tasks s) tid = Some k"
  by (auto simp: member_tasks_def look_Some fmdomI)

text \<open>The tasks leased to any of the members \<open>K\<close>.\<close>

definition evicted :: "BrokerState \<Rightarrow> (ConsumerGroupId \<times> ConsumerId) set \<Rightarrow> TaskId fset" where
  "evicted s K = ffilter (\<lambda>tid. \<exists>k \<in> K. key_of (st_tasks s) tid = Some k) (fmdom (st_tasks s))"

lemma in_evicted [simp]: "tid |\<in>| evicted s K \<longleftrightarrow> (\<exists>k \<in> K. key_of (st_tasks s) tid = Some k)"
  by (auto simp: evicted_def look_Some fmdomI)

lemma member_tasks_evicted: "member_tasks s k = evicted s {k}"
  by (intro fset_eqI) simp

lemma evicted_frame [simp]:
  "member_tasks (st_groups_update f s) k = member_tasks s k"
  "evicted (st_groups_update f s) K = evicted s K" "evicted s {} = {||}"
  by (auto simp: member_tasks_def evicted_def intro: fset_eqI)

lemma evicted_union:
  assumes "st_tasks s' = requeue_set (evicted s K) (st_tasks s)"
  shows "evicted s K |\<union>| evicted s' K' = evicted s (K \<union> K')"
proof (rule fset_eqI)
  fix tid
  have "key_of (st_tasks s') tid = (if tid |\<in>| evicted s K then None else key_of (st_tasks s) tid)"
    by (simp add: assms look_requeue_set) (simp add: look_def split: option.splits)
  then show "tid |\<in>| evicted s K |\<union>| evicted s' K' \<longleftrightarrow> tid |\<in>| evicted s (K \<union> K')" by auto
qed

lemma member_leases_tasks:
  "inv_ex P {} m \<Longrightarrow> fm_get {||} (member_lease_tasks m) k = member_tasks (sm_state m) k"
  by (intro fset_eqI) (simp add: member_leases)

lemma requeue_member_leases_inv:
  assumes "inv_ex P {} m" "\<forall>tid. key_of (the_tasks m) tid = Some (gid, mid) \<longrightarrow> releasable (the_tasks m) gid mid tid"
  obtains m' where "requeue_member_leases gid mid m = (Ok (fcard (member_tasks (sm_state m) (gid, mid))), m')"
    "inv_ex (P - {tid. key_of (the_tasks m) tid = Some (gid, mid)}) {} m'"
    "requeue_frame (member_tasks (sm_state m) (gid, mid)) m m'"
proof -
  let ?T = "member_tasks (sm_state m) (gid, mid)"
  let ?m0 = "m\<lparr>member_lease_tasks := fmdrop (gid, mid) (member_lease_tasks m)\<rparr>"
  have T: "set (sorted_list_of_fset ?T) = {tid. key_of (the_tasks m) tid = Some (gid, mid)}"
    by (auto simp: set_sorted_list_of_fset)
  have "\<forall>tid \<in> set (sorted_list_of_fset ?T). releasable (the_tasks ?m0) gid mid tid"
    using assms(2) T by simp
  from requeue_loop_inv [OF drop_key_inv [OF assms(1), of "(gid, mid)"] _ _ this, of 0] T
  obtain m' where "requeue_loop gid mid (sorted_list_of_fset ?T) 0 ?m0 = (Ok (fcard ?T), m')"
    "inv_ex (P - {tid. key_of (the_tasks m) tid = Some (gid, mid)}) {} m'"
    "requeue_frame (fset_of_list (sorted_list_of_fset ?T)) ?m0 m'"
    by auto
  moreover have "fset_of_list (sorted_list_of_fset ?T) = ?T"
    by (intro fset_eqI) (simp add: fset_of_list_elem set_sorted_list_of_fset)
  ultimately show thesis
    using that [of m'] member_leases_tasks [OF assms(1), of "(gid, mid)"]
    by (simp add: requeue_member_leases_def requeue_frame_def)
qed

lemma preflight_tasks_Ok:
  "preflight_tasks m gid mid tids = Ok u \<longleftrightarrow>
     (\<forall>tid \<in> set tids. \<forall>t. fmlookup (the_tasks m) tid = Some t \<longrightarrow> task_key t = Some (gid, mid) \<longrightarrow>
        (\<exists>r. Revision_next (task_revision t) = Ok r))"
  by (induction tids)
    (auto simp: try_r_Ok task_key_def task_view_state split: option.splits TaskState.splits)

lemma preflight_tasks_Err:
  "preflight_tasks m gid mid tids = Err e \<Longrightarrow> \<exists>f. e = StateMachineError.FencingValue f"
  by (induction tids)
    (auto simp: try_r_Err map_err_Err_iff split: option.splits TaskState.splits if_splits)

lemma preflight_Ok:
  assumes "inv_ex P {} m" "preflight_member_lease_requeue m gid mid = Ok u" "key_of (the_tasks m) tid = Some (gid, mid)"
  shows "releasable (the_tasks m) gid mid tid"
proof -
  have tid: "tid |\<in>| fm_get {||} (member_lease_tasks m) (gid, mid)"
    using assms(1,3) by (simp add: member_leases)
  then obtain S where S: "fmlookup (member_lease_tasks m) (gid, mid) = Some S" "tid |\<in>| S"
    by (auto simp: fm_get_def split: option.splits)
  then have "preflight_tasks m gid mid (sorted_list_of_fset S) = Ok u"
    using assms(2) by (simp add: preflight_member_lease_requeue_def)
  with S(2) assms(3) show ?thesis
    by (auto simp: preflight_tasks_Ok set_sorted_list_of_fset releasable_def look_Some)
qed

section \<open>Heap completeness and homes through the loops\<close>

lemma recover_loop_ind:
  assumes "recover_loop ns now tids n m = (res, m')" "\<forall>tid \<in> set tids. expired_lease (the_tasks m) now tid"
    "distinct tids" "Q m"
    and step: "\<And>m tid t l. Q m \<Longrightarrow> tid \<in> set tids \<Longrightarrow> fmlookup (the_tasks m) tid = Some t \<Longrightarrow>
      task_state t = TaskState.Leased l \<Longrightarrow>
      Q (release ns (task_created_at_ms t) (leased_lease_id l) tid (requeued t)
          (remove_member_lease_task (leased_group_id l) (leased_owner_member_id l) tid m))"
  shows "Q m'"
  using assms
proof (induction tids arbitrary: n m)
  case (Cons tid tids)
  from Cons.prems(2) obtain t l where t: "fmlookup (the_tasks m) tid = Some t"
    "task_state t = TaskState.Leased l" "leased_expires_at_ms l \<le> now"
    by (auto simp: expired_lease_def look_Some)
  show ?case
  proof (cases "Revision_next (task_revision t)")
    case (Inl e)
    with Cons.prems(1,4) recover_step(2) [OF t, of e ns tids n] show ?thesis by simp
  next
    case (Inr r)
    let ?m1 = "release ns (task_created_at_ms t) (leased_lease_id l) tid (requeued t)
      (remove_member_lease_task (leased_group_id l) (leased_owner_member_id l) tid m)"
    show ?thesis
    proof (rule Cons.IH [of "n + 1" ?m1])
      show "recover_loop ns now tids (n + 1) ?m1 = (res, m')"
        using Cons.prems(1) recover_step(1) [OF t Inr] by simp
      show "\<forall>k \<in> set tids. expired_lease (the_tasks ?m1) now k"
        using Cons.prems(2,3) by (auto simp: release_def push_ready_def expired_lease_def)
      show "Q ?m1" using Cons.prems(4,5) t(1,2) by simp
    qed (use Cons.prems(3,5) in auto)
  qed
qed simp

lemma requeue_loop_ind:
  assumes "\<forall>tid \<in> set tids. releasable (the_tasks m) gid mid tid" "distinct tids" "Q m"
    and step: "\<And>m tid t l. Q m \<Longrightarrow> tid \<in> set tids \<Longrightarrow> fmlookup (the_tasks m) tid = Some t \<Longrightarrow>
      task_state t = TaskState.Leased l \<Longrightarrow>
      Q (release (task_namespace_id t) (task_created_at_ms t) (leased_lease_id l) tid (requeued t) m)"
  shows "Q (snd (requeue_loop gid mid tids n m))"
  using assms
proof (induction tids arbitrary: n m)
  case (Cons tid tids)
  from Cons.prems(1) obtain t r where t: "fmlookup (the_tasks m) tid = Some t"
    "task_key t = Some (gid, mid)" "Revision_next (task_revision t) = Ok r"
    by (auto simp: releasable_def)
  then obtain l where l: "task_state t = TaskState.Leased l"
    by (auto simp: task_key_def)
  let ?m1 = "release (task_namespace_id t) (task_created_at_ms t) (leased_lease_id l) tid (requeued t) m"
  have "Q (snd (requeue_loop gid mid tids (n + 1) ?m1))"
  proof (rule Cons.IH)
    show "\<forall>k \<in> set tids. releasable (the_tasks ?m1) gid mid k"
      using Cons.prems(1,2) by (auto simp: release_def push_ready_def releasable_def)
    show "Q ?m1" using Cons.prems(3,4) t(1) l by simp
  qed (use Cons.prems(2,4) in auto)
  then show ?case by (simp only: requeue_step [OF t(1) l t(2,3)])
qed simp

lemma release_simps [simp]:
  "the_tasks (release ns c lid tid t m) = fmupd tid t (the_tasks m)"
  "the_groups (release ns c lid tid t m) = the_groups m"
  "lease_expirations (release ns c lid tid t m) = lease_expirations m"
  "fm_get [] (ready_tasks (release ns c lid tid t m)) k =
     (if k = ns then heap_push (c, tid) (fm_get [] (ready_tasks m) ns) else fm_get [] (ready_tasks m) k)"
  by (simp_all add: release_def push_ready_def)

lemma release_complete:
  "index_complete m \<Longrightarrow> index_complete (release ns (task_created_at_ms t) lid tid (requeued t) m)"
  by (auto simp: index_complete_def release_def push_ready_def)

lemma release_homed:
  assumes "homed home m" "ns = home tid" "fmlookup (the_tasks m) tid = Some t"
  shows "homed home (release ns c lid tid (requeued t) m)"
  using assms unfolding homed_def by (auto simp: look_lookup)

lemma remove_member_other [simp]:
  "index_complete (remove_member_lease_task g k tid m) = index_complete m"
  "homed home (remove_member_lease_task g k tid m) = homed home m"
  by (simp_all add: index_complete_def homed_def)

end
