(* ===== verification/Broker_Preserve.thy ===== *)
theory Broker_Preserve
  imports Broker_Steps
begin

text \<open>
  Every command handler keeps the invariant, whether it succeeds or fails.  Completeness of the
  heaps and the homes of the tasks are kept as well; the exceptions are the failing claim and the
  publication of a task outside its home.
\<close>

definition keeps :: "BrokerStateMachine \<Rightarrow> BrokerStateMachine \<Rightarrow> bool" where
  "keeps m m' \<longleftrightarrow> (index_complete m \<longrightarrow> index_complete m') \<and> (\<forall>home. homed home m \<longrightarrow> homed home m')"

lemma keeps_refl [simp]: "keeps m m"
  by (simp add: keeps_def)

lemma keeps_trans: "keeps m m1 \<Longrightarrow> keeps m1 m2 \<Longrightarrow> keeps m m2"
  by (simp add: keeps_def)

lemma keeps_frame [simp]:
  "keeps m (sm_state_update (st_revision_update f) m') = keeps m m'"
  "keeps m (changed_namespaces_update fn m') = keeps m m'"
  "keeps m (changed_tasks_update ft m') = keeps m m'"
  "keeps m (deleted_tasks_update ft m') = keeps m m'"
  "keeps m (changed_groups_update fg m') = keeps m m'"
  by (simp_all add: keeps_def)

text \<open>The entities a machine has recorded as changed.\<close>

definition changes :: "BrokerStateMachine \<Rightarrow> NamespaceId fset \<times> TaskId fset \<times> TaskId fset \<times> ConsumerGroupId fset" where
  "changes m = (changed_namespaces m, changed_tasks m, deleted_tasks m, changed_groups m)"

section \<open>Namespaces and publication\<close>

lemma ensure_namespace_cases:
  assumes "ensure_namespace c m = (r, m')"
  obtains (rejected) e where "r = Err e" "m' = m"
  | (replayed) n where "fmlookup (st_namespaces (sm_state m)) (en_namespace_id c) = Some n" "m' = m"
    "r = Ok \<lparr>nr_metadata = metadata m, nr_namespace_id = namespace_id n, nr_namespace_revision = namespace_revision n\<rparr>"
  | (added) rv where "fmlookup (st_namespaces (sm_state m)) (en_namespace_id c) = None"
    "fm_len (st_namespaces (sm_state m)) < en_max_namespaces c" "Revision_next (st_revision (sm_state m)) = Ok rv"
    "m' = m\<lparr>sm_state := (sm_state m)\<lparr>st_namespaces := fmupd (en_namespace_id c) (Namespace_new (en_namespace_id c))
        (st_namespaces (sm_state m)), st_revision := rv\<rparr>,
      changed_namespaces := finsert (en_namespace_id c) (changed_namespaces m)\<rparr>"
    "r = Ok \<lparr>nr_metadata = metadata m', nr_namespace_id = en_namespace_id c, nr_namespace_revision = 1\<rparr>"
proof (cases "fmlookup (st_namespaces (sm_state m)) (en_namespace_id c)")
  case (Some n)
  with assms show thesis by (intro replayed) (auto simp: ensure_namespace_def)
next
  case None
  show thesis
  proof (cases "fm_len (st_namespaces (sm_state m)) < en_max_namespaces c")
    case False
    with None assms rejected show thesis by (auto simp: ensure_namespace_def split: if_splits)
  next
    case True
    show thesis
    proof (cases "Revision_next (st_revision (sm_state m))")
      case (Inl e)
      with None True assms rejected show thesis by (auto simp: ensure_namespace_def)
    next
      case (Inr rv)
      with None True assms show thesis
        by (intro added [OF None True Inr]) (auto simp: ensure_namespace_def Let_def Namespace_new_def)
    qed
  qed
qed

lemma ensure_namespace_inv:
  assumes "ensure_namespace c m = (r, m')" "broker_inv m"
  shows "broker_inv m' \<and> keeps m m'"
  using assms(1)
proof (cases rule: ensure_namespace_cases)
  case (added rv)
  have "entities_wf (sm_state m')"
    using assms(2) added(4) by (auto simp: inv_ex_def entities_wf_def Namespace_new_def)
  then show ?thesis
    using assms(2) added(4) by (simp add: inv_ex_def keeps_def index_complete_def homed_def)
qed (use assms(2) in simp_all)

lemma Task_new_view [simp]:
  "task_lid (Task_new tid ns obj c) = None" "task_key (Task_new tid ns obj c) = None"
  "task_lease (Task_new tid ns obj c) = None" "task_done (Task_new tid ns obj c) = None"
  "task_ready (Task_new tid ns obj c) = Some c" "task_namespace_id (Task_new tid ns obj c) = ns"
  by (simp_all add: Task_new_def task_lid_def task_key_def task_lease_def task_done_def)

lemma publish_inv:
  assumes inv: "inv_ex {} {} m" and new: "fmlookup (the_tasks m) tid = None"
    and ns: "ns |\<in>| fmdom (st_namespaces (sm_state m))"
    and m': "m' = push_ready ns created tid ((put_task tid (Task_new tid ns obj created) m)
      \<lparr>namespace_task_counts := fmupd ns (fm_get 0 (namespace_task_counts m) ns + 1) (namespace_task_counts m)\<rparr>)"
  shows "broker_inv m'" and "index_complete m \<Longrightarrow> index_complete m'"
    and "homed home m \<Longrightarrow> ns = home tid \<Longrightarrow> homed home m'"
proof -
  let ?t = "Task_new tid ns obj created"
  note none = look_None [OF new]
  have "(c, tid) \<notin> set (fm_get [] (ready_tasks m) k)" for c k
    using inv none by (auto simp: inv_ex_def dest: ready_not_queued)
  moreover have "entities_wf (st_tasks_update (fmupd tid ?t) (sm_state m))"
    using inv ns by (auto simp: inv_ex_def entities_wf_def Task_new_def)
  moreover have "leases_owned {} (fmupd tid ?t (the_tasks m)) (the_groups m)"
    using inv owned_release [of "{}" _ _ ?t tid] by (simp add: inv_ex_def)
  ultimately show "broker_inv m'"
    using inv new unfolding m' inv_ex_def push_ready_def
    by (simp add: active_same member_same ready_push completed_same counts_new none
        del: task_view_simps)
  show "index_complete m \<Longrightarrow> index_complete m'"
    unfolding m' index_complete_def push_ready_def
    by (auto split: if_splits simp del: task_view_simps)
  show "homed home m \<Longrightarrow> ns = home tid \<Longrightarrow> homed home m'"
    unfolding m' homed_def push_ready_def by (auto simp del: task_view_simps)
qed

lemma require_namespace_Ok: "require_namespace m ns = Ok u \<longleftrightarrow> ns |\<in>| fmdom (st_namespaces (sm_state m))"
  by (auto simp: require_namespace_def fmlookup_dom_iff)

lemma publish_task_cases:
  assumes "publish_task c m = (r, m')"
  obtains (rejected) e where "r = Err e" "m' = m"
  | (replayed) t where "fmlookup (the_tasks m) (pt_task_id c) = Some t"
    "pt_namespace_id c |\<in>| fmdom (st_namespaces (sm_state m))"
    "task_namespace_id t = pt_namespace_id c" "task_objective t = pt_objective c" "m' = m"
    "r = Ok \<lparr>tp_metadata = metadata m, tp_task_id = task_id t, tp_task_revision = task_revision t,
             tp_status = Task_status t\<rparr>"
  | (published) rev where "fmlookup (the_tasks m) (pt_task_id c) = None"
    "pt_namespace_id c |\<in>| fmdom (st_namespaces (sm_state m))"
    "fm_get 0 (namespace_task_counts m) (pt_namespace_id c) < pt_max_namespace_tasks c"
    "Revision_next (st_revision (sm_state m)) = Ok rev"
    "m' = changed_tasks_update (finsert (pt_task_id c)) (set_revision rev
       (push_ready (pt_namespace_id c) (pt_created_at_ms c) (pt_task_id c)
         ((put_task (pt_task_id c)
             (Task_new (pt_task_id c) (pt_namespace_id c) (pt_objective c) (pt_created_at_ms c)) m)
           \<lparr>namespace_task_counts := fmupd (pt_namespace_id c)
              (fm_get 0 (namespace_task_counts m) (pt_namespace_id c) + 1) (namespace_task_counts m)\<rparr>)))"
    "r = Ok \<lparr>tp_metadata = metadata m', tp_task_id = pt_task_id c, tp_task_revision = 1,
             tp_status = TaskStatus.Queued\<rparr>"
proof (cases "require_namespace m (pt_namespace_id c)")
  case (Inl e)
  with assms show thesis by (intro rejected [of e]) (auto simp: publish_task_def)
next
  case (Inr u)
  show thesis
  proof (cases "fmlookup (the_tasks m) (pt_task_id c)")
    case None
    show thesis
    proof (cases "fm_get 0 (namespace_task_counts m) (pt_namespace_id c) < pt_max_namespace_tasks c")
      case False
      with assms rejected Inr None show thesis
        by (auto simp: publish_task_def Let_def split: if_splits)
    next
      case True
      show thesis
      proof (cases "Revision_next (st_revision (sm_state m))")
        case (Inl e)
        with assms rejected Inr None True show thesis by (auto simp: publish_task_def Let_def)
      next
        case rev: (Inr rev)
        from Inr have "pt_namespace_id c |\<in>| fmdom (st_namespaces (sm_state m))"
          by (simp add: require_namespace_Ok)
        with assms Inr None True rev show thesis
          by (intro published [OF None _ True rev])
            (auto simp: publish_task_def Let_def Task_new_def Task_status_def)
      qed
    qed
  next
    case (Some t)
    moreover from Inr have "pt_namespace_id c |\<in>| fmdom (st_namespaces (sm_state m))"
      by (simp add: require_namespace_Ok)
    ultimately show thesis
      using assms Inr rejected replayed [OF Some] by (auto simp: publish_task_def split: if_splits)
  qed
qed

lemma publish_task_inv:
  assumes "publish_task c m = (r, m')" "broker_inv m"
  shows "broker_inv m' \<and> (index_complete m \<longrightarrow> index_complete m') \<and>
    (homed home m \<longrightarrow> pt_namespace_id c = home (pt_task_id c) \<longrightarrow> homed home m')"
  using assms(1)
proof (cases rule: publish_task_cases)
  case (published rev)
  from publish_inv [OF assms(2) published(1,2) refl] show ?thesis
    unfolding published(5) by simp
qed (use assms(2) in simp_all)

section \<open>Groups\<close>

text \<open>Replacing one group of the registry.\<close>

lemma set_groups_inv:
  assumes "inv_ex P U m" "fmlookup (the_groups m) gid = Some g" "group_wf g'"
    and "group_id g' = group_id g" "group_namespace_id g' = group_namespace_id g"
    and "group_generation g \<le> group_generation g'"
    and "\<And>tid l. lease_of (the_tasks m) tid = Some l \<Longrightarrow> leased_group_id l = gid \<Longrightarrow>
      leased_owner_member_id l \<in> members g \<Longrightarrow> tid \<notin> P' \<Longrightarrow> leased_owner_member_id l \<in> members g'"
    and "P \<subseteq> P'"
  shows "inv_ex P' U (set_groups (fmupd gid g' (the_groups m)) m)" (is "inv_ex P' U ?m")
proof -
  have ent: "entities_wf (sm_state ?m)"
    using assms(1-5) by (auto simp: inv_ex_def entities_wf_def)
  have own: "leases_owned P (the_tasks m) (the_groups m)"
    using assms(1) by (simp add: inv_ex_def)
  have "leases_owned P' (the_tasks m) (fmupd gid g' (the_groups m))"
    unfolding leases_owned_def
  proof (intro allI impI)
    fix tid l
    assume l: "lease_of (the_tasks m) tid = Some l"
    with own obtain h where h: "fmlookup (the_groups m) (leased_group_id l) = Some h"
      "leased_generation l \<le> group_generation h" "tid \<in> P \<or> leased_owner_member_id l \<in> members h"
      unfolding leases_owned_def by blast
    show "\<exists>h. fmlookup (fmupd gid g' (the_groups m)) (leased_group_id l) = Some h \<and>
        leased_generation l \<le> group_generation h \<and> (tid \<in> P' \<or> leased_owner_member_id l \<in> members h)"
      using h l assms(2,6,7,8) by (cases "leased_group_id l = gid") auto
  qed
  moreover have "group_counts (fmupd gid g' (the_groups m)) (namespace_group_counts m)"
    using assms(1) by (simp add: inv_ex_def group_counts_def groups_in_same [OF assms(2,5)])
  ultimately show ?thesis
    using assms(1) ent by (simp add: inv_ex_def)
qed

lemma set_groups_keeps:
  assumes "fmlookup (the_groups m) gid = Some g" "group_namespace_id g' = group_namespace_id g"
  shows "keeps m (set_groups (fmupd gid g' (the_groups m)) m)"
  using assms by (auto simp: keeps_def index_complete_def homed_def)

lemma new_group_inv:
  assumes "broker_inv m" "fmlookup (the_groups m) gid = None" "ns |\<in>| fmdom (st_namespaces (sm_state m))"
    and m': "m' = (set_groups (fmupd gid (ConsumerGroup_new gid ns) (the_groups m)) m)
      \<lparr>namespace_group_counts := fmupd ns (fm_get 0 (namespace_group_counts m) ns + 1) (namespace_group_counts m)\<rparr>"
  shows "broker_inv m' \<and> keeps m m'"
proof -
  let ?gs = "fmupd gid (ConsumerGroup_new gid ns) (the_groups m)"
  have "group_counts ?gs (fmupd ns (fm_get 0 (namespace_group_counts m) ns + 1) (namespace_group_counts m))"
    using assms(1) groups_in_new [OF assms(2)]
    by (simp add: inv_ex_def group_counts_def ConsumerGroup_new_def)
  moreover have "entities_wf (st_groups_update (\<lambda>_. ?gs) (sm_state m))"
    using assms(1,3) by (auto simp: inv_ex_def entities_wf_def group_wf_new) (auto simp: ConsumerGroup_new_def)
  moreover have "leases_owned {} (the_tasks m) ?gs"
    using assms(1,2) by (fastforce simp: inv_ex_def leases_owned_def)
  ultimately have "broker_inv m'"
    using assms(1) unfolding m' by (simp add: inv_ex_def)
  moreover have "lease_of (the_tasks m) tid = Some l \<Longrightarrow> leased_group_id l \<noteq> gid" for tid l
    using assms(1,2) by (fastforce simp: inv_ex_def leases_owned_def)
  then have "keeps m m'"
    unfolding m' by (auto simp: keeps_def index_complete_def homed_def)
  ultimately show ?thesis by blast
qed

lemma ensure_consumer_group_cases:
  assumes "ensure_consumer_group c m = (r, m')"
  obtains (rejected) e where "r = Err e" "m' = m"
  | (replayed) g where "fmlookup (the_groups m) (eg_group_id c) = Some g"
    "eg_namespace_id c |\<in>| fmdom (st_namespaces (sm_state m))" "group_namespace_id g = eg_namespace_id c" "m' = m"
    "r = Ok (consumer_group_result (metadata m) g)"
  | (added) rev where "fmlookup (the_groups m) (eg_group_id c) = None"
    "eg_namespace_id c |\<in>| fmdom (st_namespaces (sm_state m))"
    "fm_get 0 (namespace_group_counts m) (eg_namespace_id c) < eg_max_namespace_groups c"
    "m' = changed_groups_update (finsert (eg_group_id c)) (set_revision rev
       ((set_groups (fmupd (eg_group_id c) (ConsumerGroup_new (eg_group_id c) (eg_namespace_id c)) (the_groups m)) m)
         \<lparr>namespace_group_counts := fmupd (eg_namespace_id c)
            (fm_get 0 (namespace_group_counts m) (eg_namespace_id c) + 1) (namespace_group_counts m)\<rparr>))"
    "Revision_next (st_revision (sm_state m)) = Ok rev"
    "r = Ok (consumer_group_result (metadata m') (ConsumerGroup_new (eg_group_id c) (eg_namespace_id c)))"
proof (cases "require_namespace m (eg_namespace_id c)")
  case (Inl e)
  with assms show thesis by (intro rejected [of e]) (auto simp: ensure_consumer_group_def)
next
  case (Inr u)
  show thesis
  proof (cases "fmlookup (the_groups m) (eg_group_id c)")
    case (Some t)
    moreover from Inr have "eg_namespace_id c |\<in>| fmdom (st_namespaces (sm_state m))"
      by (simp add: require_namespace_Ok)
    ultimately show thesis
      using assms Inr rejected replayed [OF Some] by (auto simp: ensure_consumer_group_def split: if_splits)
  next
    case None
    show thesis
    proof (cases "fm_get 0 (namespace_group_counts m) (eg_namespace_id c) < eg_max_namespace_groups c")
      case False
      with assms rejected Inr None show thesis
        by (auto simp: ensure_consumer_group_def Let_def split: if_splits)
    next
      case True
      show thesis
      proof (cases "Revision_next (st_revision (sm_state m))")
        case (Inl e)
        with assms rejected Inr None True show thesis by (auto simp: ensure_consumer_group_def Let_def)
      next
        case rev: (Inr rev)
        from Inr have ns: "eg_namespace_id c |\<in>| fmdom (st_namespaces (sm_state m))"
          by (simp add: require_namespace_Ok)
        from assms Inr None True rev show thesis
          by (intro added [OF None ns True _ rev]) (auto simp: ensure_consumer_group_def Let_def)
      qed
    qed
  qed
qed

lemma ensure_consumer_group_inv:
  assumes "ensure_consumer_group c m = (r, m')" "broker_inv m"
  shows "broker_inv m' \<and> keeps m m'"
  using assms(1)
proof (cases rule: ensure_consumer_group_cases)
  case (added rev)
  from new_group_inv [OF assms(2) added(1,2) refl] show ?thesis
    unfolding added(4) by (simp only: inv_frame keeps_frame)
qed (use assms(2) in simp_all)

text \<open>
  Operations that run on one group: the registry is unchanged, or the group is replaced by the
  operation's result.
\<close>

lemma check_coordinate:
  assumes "check_r (map_err from_coordinator (coordinate op (the_groups m) gid)) m k = (r, m')"
  obtains e where "r = Err e" "m' = m"
  | g oc g' where "fmlookup (the_groups m) gid = Some g" "op g = Ok (oc, g')"
    "k (oc, fmupd gid g' (the_groups m)) = (r, m')"
proof (cases "coordinate op (the_groups m) gid")
  case (Inl e)
  with assms that(1) show thesis by auto
next
  case (Inr p)
  obtain oc gs where p: "p = (oc, gs)" by (cases p)
  from Inr p obtain g g' where "fmlookup (the_groups m) gid = Some g" "op g = Ok (oc, g')"
    "gs = fmupd gid g' (the_groups m)"
    by (auto simp: coordinate_Ok)
  with Inr p assms that(2) show thesis by simp
qed

lemma group_entity:
  assumes "inv_ex P U m" "fmlookup (the_groups m) gid = Some g"
  shows "group_wf g" "group_id g = gid"
  using assms by (auto simp: inv_ex_def entities_wf_def)

lemma join_consumer_group_cases:
  assumes "join_consumer_group c m = (r, m')"
  obtains e where "r = Err e" "m' = m"
  | rev g oc g' where "Revision_next (st_revision (sm_state m)) = Ok rev"
    "fmlookup (the_groups m) (jg_group_id c) = Some g"
    "ConsumerGroup_join g (jg_member_id c) (jg_capabilities c) (jg_now_ms c) (jg_max_group_members c) = Ok (oc, g')"
    "m' = (let m1 = set_groups (fmupd (jg_group_id c) g' (the_groups m)) m in
       if oc \<noteq> JoinOutcome.Unchanged
       then changed_groups_update (finsert (group_id g')) (set_revision rev m1) else m1)"
    "r = Ok (consumer_group_result (metadata m') g')"
proof (cases "Revision_next (st_revision (sm_state m))")
  case (Inl e)
  with assms that(1) show thesis by (auto simp: join_consumer_group_def)
next
  case rev: (Inr rev)
  from assms rev show thesis
    unfolding join_consumer_group_def coordinator_join_def
    by (simp, elim check_coordinate) (auto intro: that simp: Let_def)
qed

lemma heartbeat_cases:
  assumes "heartbeat c m = (r, m')"
  obtains e where "r = Err e" "m' = m"
  | rev g oc g' member where "Revision_next (st_revision (sm_state m)) = Ok rev"
    "fmlookup (the_groups m) (hb_group_id c) = Some g"
    "ConsumerGroup_heartbeat g (hb_member_id c) (hb_expected_generation c) (hb_now_ms c) = Ok (oc, g')"
    "m' = (let m1 = set_groups (fmupd (hb_group_id c) g' (the_groups m)) m in
       if oc = Updated then changed_groups_update (finsert (group_id g')) (set_revision rev m1) else m1)"
    "fmlookup (group_consumers g') (hb_member_id c) = Some member"
    "r = Ok \<lparr>hr_metadata = metadata m', hr_group_id = group_id g', hr_member_id = hb_member_id c,
             hr_generation = group_generation g', hr_member_revision = consumer_revision member\<rparr>"
proof (cases "Revision_next (st_revision (sm_state m))")
  case (Inl e)
  with assms that(1) show thesis by (auto simp: heartbeat_def)
next
  case rev: (Inr rev)
  show thesis
    using assms unfolding heartbeat_def coordinator_heartbeat_def rev
  proof (simp, elim check_coordinate)
    fix g oc g'
    assume g: "fmlookup (the_groups m) (hb_group_id c) = Some g"
      "ConsumerGroup_heartbeat g (hb_member_id c) (hb_expected_generation c) (hb_now_ms c) = Ok (oc, g')"
    then obtain member where "fmlookup (group_consumers g') (hb_member_id c) = Some member"
      by (auto simp: heartbeat_Ok touched_def)
    with assms rev g show thesis
      by (intro that(2) [OF rev g])
        (auto simp: heartbeat_def coordinator_heartbeat_def coordinate_def group_mut_def Let_def)
  qed (use that(1) in auto)
qed

text \<open>An operation that keeps every member keeps every lease owned.\<close>

lemma group_op_inv:
  assumes "broker_inv m" "fmlookup (the_groups m) gid = Some g" "group_wf g'"
    and "group_id g' = group_id g" "group_namespace_id g' = group_namespace_id g"
    and "group_generation g \<le> group_generation g'" "members g \<subseteq> members g'"
  shows "broker_inv (set_groups (fmupd gid g' (the_groups m)) m)"
    "keeps m (set_groups (fmupd gid g' (the_groups m)) m)"
proof -
  show "broker_inv (set_groups (fmupd gid g' (the_groups m)) m)"
    by (rule set_groups_inv [OF assms(1-6), of "{}"]) (use assms(7) in auto)
  show "keeps m (set_groups (fmupd gid g' (the_groups m)) m)"
    using assms(2,5) by (rule set_groups_keeps)
qed

lemma touched_fields:
  "touched mid now g g' \<Longrightarrow> group_id g' = group_id g \<and> group_namespace_id g' = group_namespace_id g"
  by (auto simp: touched_def)

lemma join_fields:
  assumes "ConsumerGroup_join g mid caps now n = Ok (oc, g')"
  shows "group_id g' = group_id g" "group_namespace_id g' = group_namespace_id g"
    "group_generation g \<le> group_generation g'" "members g \<subseteq> members g'"
proof -
  show "group_id g' = group_id g" "group_namespace_id g' = group_namespace_id g"
    using assms touched_fields [of mid now g g'] by (auto simp: join_Ok split: option.splits)
  show "group_generation g \<le> group_generation g'" "members g \<subseteq> members g'"
    using join_generation [OF assms] by auto
qed

lemma heartbeat_fields:
  assumes "ConsumerGroup_heartbeat g mid gen now = Ok (oc, g')"
  shows "group_id g' = group_id g" "group_namespace_id g' = group_namespace_id g"
    "group_generation g \<le> group_generation g'" "members g \<subseteq> members g'"
proof -
  have "g' = g \<or> touched mid now g g'" using assms by (auto simp: heartbeat_Ok)
  with touched_fields [of mid now g g'] touched_members [of mid now g g']
  show "group_id g' = group_id g" "group_namespace_id g' = group_namespace_id g"
    "group_generation g \<le> group_generation g'" "members g \<subseteq> members g'"
    by auto
qed

lemma join_consumer_group_inv:
  assumes "join_consumer_group c m = (r, m')" "broker_inv m"
  shows "broker_inv m' \<and> keeps m m'"
  using assms(1)
proof (cases rule: join_consumer_group_cases)
  case (2 rev g oc g')
  have wf: "group_wf g'"
    using group_entity(1) [OF assms(2) 2(2)] 2(3) by (rule group_wf_join)
  show ?thesis
    using group_op_inv [OF assms(2) 2(2) wf join_fields [OF 2(3)]]
    unfolding 2(4) Let_def by (auto simp only: inv_frame keeps_frame split: if_split)
qed (use assms(2) in simp)

lemma heartbeat_inv:
  assumes "heartbeat c m = (r, m')" "broker_inv m"
  shows "broker_inv m' \<and> keeps m m'"
  using assms(1)
proof (cases rule: heartbeat_cases)
  case (2 rev g oc g' member)
  have wf: "group_wf g'"
    using group_entity(1) [OF assms(2) 2(2)] 2(3) by (rule group_wf_heartbeat)
  show ?thesis
    using group_op_inv [OF assms(2) 2(2) wf heartbeat_fields [OF 2(3)]]
    unfolding 2(4) Let_def by (auto simp only: inv_frame keeps_frame split: if_split)
qed (use assms(2) in simp)

section \<open>Departures\<close>

lemma requeue_keeps:
  assumes "inv_ex P {} m" "\<forall>tid. key_of (the_tasks m) tid = Some (gid, mid) \<longrightarrow> releasable (the_tasks m) gid mid tid"
  shows "keeps m (snd (requeue_member_leases gid mid m))"
proof -
  let ?T = "member_tasks (sm_state m) (gid, mid)"
  let ?m0 = "m\<lparr>member_lease_tasks := fmdrop (gid, mid) (member_lease_tasks m)\<rparr>"
  have rel: "\<forall>tid \<in> set (sorted_list_of_fset ?T). releasable (the_tasks ?m0) gid mid tid"
    using assms(2) by (simp add: set_sorted_list_of_fset)
  have "keeps m ?m0" by (simp add: keeps_def index_complete_def homed_def)
  then have "keeps m (snd (requeue_loop gid mid (sorted_list_of_fset ?T) 0 ?m0))"
  proof (rule requeue_loop_ind [where Q = "keeps m", OF rel distinct_sorted_list_of_fset])
    fix n tid t l
    assume k: "keeps m n" and t: "fmlookup (the_tasks n) tid = Some t"
    have "homed home n \<Longrightarrow> task_namespace_id t = home tid" for home
      using t by (auto simp: homed_def look_lookup)
    with k t show "keeps m (release (task_namespace_id t) (task_created_at_ms t) (leased_lease_id l) tid (requeued t) n)"
      by (auto simp: keeps_def intro!: release_complete release_homed)
  qed
  then show ?thesis
    using member_leases_tasks [OF assms(1)] by (simp add: requeue_member_leases_def)
qed

lemma releasable_advance: "releasable ts gid mid tid \<Longrightarrow> can_advance ts tid"
  by (auto simp: releasable_def can_advance_def)

lemma requeue_member_releasable:
  assumes "requeue_frame (member_tasks (sm_state m) k) m m'" "k \<noteq> (gid, mid)"
    and "\<forall>tid. key_of (the_tasks m) tid = Some (gid, mid) \<longrightarrow> releasable (the_tasks m) gid mid tid"
  shows "\<forall>tid. key_of (the_tasks m') tid = Some (gid, mid) \<longrightarrow> releasable (the_tasks m') gid mid tid"
proof (intro allI impI)
  fix tid
  assume *: "key_of (the_tasks m') tid = Some (gid, mid)"
  have ts: "the_tasks m' = requeue_set (member_tasks (sm_state m) k) (the_tasks m)"
    using assms(1) by (simp add: requeue_frame_def)
  have out: "tid |\<notin>| member_tasks (sm_state m) k"
    using * unfolding ts look_requeue_set by (auto simp: look_Some)
  then have "releasable (the_tasks m) gid mid tid"
    using * assms(3) by (simp add: ts look_requeue_set)
  with out show "releasable (the_tasks m') gid mid tid" by (simp add: releasable_def ts)
qed

lemma requeue_removed_inv:
  assumes "inv_ex P {} m" "distinct (map consumer_id cs)"
    and "\<And>mid. mid \<in> consumer_id ` set cs \<Longrightarrow>
      \<forall>tid. key_of (the_tasks m) tid = Some (gid, mid) \<longrightarrow> releasable (the_tasks m) gid mid tid"
  shows "\<exists>m'. requeue_removed gid cs m = (Ok (), m') \<and> keeps m m' \<and>
    inv_ex (P - fset (evicted (sm_state m) ((\<lambda>c. (gid, consumer_id c)) ` set cs))) {} m' \<and>
    requeue_frame (evicted (sm_state m) ((\<lambda>c. (gid, consumer_id c)) ` set cs)) m m'"
  using assms
proof (induction cs arbitrary: P m)
  case (Cons c cs)
  let ?k = "(gid, consumer_id c)" and ?K = "(\<lambda>c. (gid, consumer_id c)) ` set cs"
  have rel: "\<forall>tid. key_of (the_tasks m) tid = Some ?k \<longrightarrow> releasable (the_tasks m) gid (consumer_id c) tid"
    using Cons.prems(3) by simp
  obtain m1 where m1: "requeue_member_leases gid (consumer_id c) m = (Ok (fcard (member_tasks (sm_state m) ?k)), m1)"
    "inv_ex (P - {tid. key_of (the_tasks m) tid = Some ?k}) {} m1"
    "requeue_frame (member_tasks (sm_state m) ?k) m m1"
    by (rule requeue_member_leases_inv [OF Cons.prems(1) rel])
  have k1: "keeps m m1" using requeue_keeps [OF Cons.prems(1) rel] m1(1) by simp
  have d: "distinct (map consumer_id cs)" using Cons.prems(2) by simp
  have "\<forall>tid. key_of (the_tasks m1) tid = Some (gid, mid) \<longrightarrow> releasable (the_tasks m1) gid mid tid"
    if "mid \<in> consumer_id ` set cs" for mid
    using that Cons.prems(2) by (intro requeue_member_releasable [OF m1(3) _ Cons.prems(3)]) auto
  from Cons.IH [OF m1(2) d this] obtain m' where m': "requeue_removed gid cs m1 = (Ok (), m')" "keeps m1 m'"
    "inv_ex (P - {tid. key_of (the_tasks m) tid = Some ?k} - fset (evicted (sm_state m1) ?K)) {} m'"
    "requeue_frame (evicted (sm_state m1) ?K) m1 m'" by blast
  have u: "member_tasks (sm_state m) ?k |\<union>| evicted (sm_state m1) ?K = evicted (sm_state m) (insert ?k ?K)"
    using evicted_union [of "sm_state m1" "sm_state m" "{?k}" ?K] m1(3)
    by (simp add: member_tasks_evicted requeue_frame_def)
  have "P - {tid. key_of (the_tasks m) tid = Some ?k} - fset (evicted (sm_state m1) ?K) =
      P - fset (member_tasks (sm_state m) ?k |\<union>| evicted (sm_state m1) ?K)"
    by auto
  with m'(3) u have "inv_ex (P - fset (evicted (sm_state m) (insert ?k ?K))) {} m'" by simp
  moreover have "requeue_frame (evicted (sm_state m) (insert ?k ?K)) m m'"
    using requeue_frame_trans [OF m1(3) m'(4)] u by simp
  ultimately show ?case
    using m'(1) m1(1) keeps_trans [OF k1 m'(2)] by simp
qed simp

text \<open>Members leave a group and their tasks go back to the queue.\<close>

lemma depart_inv:
  assumes "broker_inv m" "fmlookup (the_groups m) gid = Some g" "group_wf g'"
    and id: "group_id g' = group_id g" "group_namespace_id g' = group_namespace_id g"
    and "group_generation g \<le> group_generation g'" "members g - M \<subseteq> members g'"
    and m1: "m1 = set_groups (fmupd gid g' (the_groups m)) m"
  shows "inv_ex (fset (evicted (sm_state m) (Pair gid ` M))) {} m1" "keeps m m1"
proof -
  show "keeps m m1" unfolding m1 using assms(2) id(2) by (rule set_groups_keeps)
  show "inv_ex (fset (evicted (sm_state m) (Pair gid ` M))) {} m1"
    unfolding m1
  proof (rule set_groups_inv [OF assms(1-6)])
    fix tid l
    assume "lease_of (the_tasks m) tid = Some l" "leased_group_id l = gid"
      "tid \<notin> fset (evicted (sm_state m) (Pair gid ` M))" "leased_owner_member_id l \<in> members g"
    moreover from this have "leased_owner_member_id l \<notin> M" using lid_key_of(1) by fastforce
    ultimately show "leased_owner_member_id l \<in> members g'" using assms(7) by auto
  qed simp
qed

lemma leave_consumer_group_cases:
  assumes "leave_consumer_group c m = (r, m')" "broker_inv m"
  obtains e where "r = Err e" "m' = m"
  | rev g mem g' where "Revision_next (st_revision (sm_state m)) = Ok rev"
    "fmlookup (the_groups m) (lg_group_id c) = Some g"
    "ConsumerGroup_leave g (lg_member_id c) (lg_expected_generation c) = Ok (mem, g')"
    "sm_state m' = (sm_state m)\<lparr>st_revision := rev,
       st_tasks := requeue_set (member_tasks (sm_state m) (lg_group_id c, lg_member_id c)) (the_tasks m),
       st_groups := fmupd (lg_group_id c) g' (the_groups m)\<rparr>"
    "r = Ok (consumer_group_result (metadata m') g')" "broker_inv m'" "keeps m m'"
    "changes m' = (changed_namespaces m, changed_tasks m |\<union>| member_tasks (sm_state m) (lg_group_id c, lg_member_id c),
       deleted_tasks m, finsert (lg_group_id c) (changed_groups m))"
    "\<And>tid. key_of (the_tasks m) tid = Some (lg_group_id c, lg_member_id c) \<Longrightarrow> can_advance (the_tasks m) tid"
proof (cases "Revision_next (st_revision (sm_state m))")
  case (Inl e)
  with assms(1) that(1) show thesis by (auto simp: leave_consumer_group_def)
next
  case rev: (Inr rev)
  show thesis
  proof (cases "preflight_member_lease_requeue m (lg_group_id c) (lg_member_id c)")
    case (Inl e)
    with assms(1) rev that(1) show thesis by (auto simp: leave_consumer_group_def)
  next
    case pre: (Inr u)
    show thesis
      using assms(1) unfolding leave_consumer_group_def coordinator_leave_def rev pre
    proof (simp, elim check_coordinate)
      let ?gid = "lg_group_id c" and ?mid = "lg_member_id c"
      fix g mem g'
      assume g: "fmlookup (the_groups m) ?gid = Some g"
        "ConsumerGroup_leave g ?mid (lg_expected_generation c) = Ok (mem, g')"
      let ?m1 = "set_groups (fmupd ?gid g' (the_groups m)) m"
      let ?T = "member_tasks (sm_state m) (?gid, ?mid)"
      have id: "group_id g' = ?gid" "group_namespace_id g' = group_namespace_id g"
        using group_entity [OF assms(2) g(1)] g(2) by (auto simp: leave_Ok)
      have inv: "inv_ex (fset ?T) {} ?m1"
        using group_entity [OF assms(2) g(1)] leave_generation [OF g(2)] id
          depart_inv(1) [OF assms(2) g(1) group_wf_leave [OF _ g(2)], where M = "{?mid}", OF _ _ _ _ _ refl]
        by (simp add: member_tasks_evicted)
      have rel: "\<forall>tid. key_of (the_tasks ?m1) tid = Some (?gid, ?mid) \<longrightarrow> releasable (the_tasks ?m1) ?gid ?mid tid"
        using preflight_Ok [OF assms(2) pre] by simp
      obtain m2 where m2: "requeue_member_leases ?gid ?mid ?m1 = (Ok (fcard ?T), m2)"
        "inv_ex (fset ?T - {tid. key_of (the_tasks m) tid = Some (?gid, ?mid)}) {} m2" "requeue_frame ?T ?m1 m2"
        by (rule requeue_member_leases_inv [OF inv rel]) simp
      have "fset ?T - {tid. key_of (the_tasks m) tid = Some (?gid, ?mid)} = {}" by auto
      with m2(2) have "broker_inv m2" by simp
      moreover have "keeps m m2"
        using keeps_trans [OF set_groups_keeps [OF g(1) id(2)] requeue_keeps [OF inv rel]] m2(1) by simp
      moreover have m': "m' = changed_groups_update (finsert ?gid) (set_revision rev m2)"
        "r = Ok (consumer_group_result (metadata m') g')"
        using assms(1) rev pre g m2(1) id(1)
        by (auto simp: leave_consumer_group_def coordinator_leave_def coordinate_def group_mut_def Let_def)
      ultimately show thesis
        using m2(3) releasable_advance [OF preflight_Ok [OF assms(2) pre]]
        by (intro that(2) [OF rev g]) (simp_all add: requeue_frame_def changes_def)
    qed (use that(1) in auto)
  qed
qed

lemma leave_consumer_group_inv:
  assumes "leave_consumer_group c m = (r, m')" "broker_inv m"
  shows "broker_inv m' \<and> keeps m m'"
  by (rule leave_consumer_group_cases [OF assms]) (simp_all add: assms(2))

end
