(* ===== verification/Broker_Reap.thy ===== *)
theory Broker_Reap
  imports Broker_Preserve
begin

text \<open>
  Reaping: the members selected over all groups are the ones each group selects for itself, so the
  two-stage selection of the code removes exactly the stalest members of the broker.
\<close>

section \<open>Selection\<close>

definition stalest :: "group_registry \<Rightarrow> TimestampMs \<Rightarrow> usize \<Rightarrow> (TimestampMs \<times> ConsumerGroupId \<times> ConsumerId) list" where
  "stalest gs before n = take n (sort (reap_candidates gs before))"

definition groups_wf :: "group_registry \<Rightarrow> bool" where
  "groups_wf gs \<longleftrightarrow> (\<forall>gid g. fmlookup gs gid = Some g \<longrightarrow> group_wf g)"

lemma set_reap_candidates:
  assumes "groups_wf gs"
  shows "(hb, gid, mid) \<in> set (reap_candidates gs before) \<longleftrightarrow>
    (\<exists>g c. fmlookup gs gid = Some g \<and> fmlookup (group_consumers g) mid = Some c \<and>
       consumer_last_heartbeat_at_ms c = hb \<and> hb \<le> before)"
  using assms
  by (auto simp: reap_candidates_def set_entries in_fm_values groups_wf_def group_wf_def image_iff)
    (metis mem_Collect_eq case_prodI in_fm_values)+

lemma set_stalest:
  assumes "groups_wf gs" "(hb, gid, mid) \<in> set (stalest gs before n)"
  obtains g c where "fmlookup gs gid = Some g" "fmlookup (group_consumers g) mid = Some c"
    "consumer_last_heartbeat_at_ms c = hb" "hb \<le> before"
  using assms set_reap_candidates [OF assms(1)] by (auto simp: stalest_def dest!: in_set_takeD)

lemma distinct_keyed_concat:
  assumes "distinct (map fst es)" "\<And>e. e \<in> set es \<Longrightarrow> distinct (F e)"
    "\<And>e x. e \<in> set es \<Longrightarrow> x \<in> set (F e) \<Longrightarrow> key x = fst e"
  shows "distinct (concat (map F es))"
  using assms
proof (induction es)
  case (Cons e es)
  have "set (F e) \<inter> set (concat (map F es)) = {}"
  proof (rule ccontr)
    assume "set (F e) \<inter> set (concat (map F es)) \<noteq> {}"
    then obtain x e' where "x \<in> set (F e)" "e' \<in> set es" "x \<in> set (F e')" by auto
    then have "fst e = fst e'" using Cons.prems(3) [of e x] Cons.prems(3) [of e' x] by simp
    with \<open>e' \<in> set es\<close> Cons.prems(1) show False by (auto simp: image_iff)
  qed
  with Cons show ?case by simp
qed simp

lemma distinct_consumer_ids:
  assumes "group_wf g"
  shows "distinct (map consumer_id (fm_values (group_consumers g)))"
proof -
  have "map consumer_id (fm_values (group_consumers g)) = map fst (sorted_list_of_fmap (group_consumers g))"
    using assms by (auto simp: fm_values_def set_entries group_wf_def simp del: map_fst_entries)
  then show ?thesis by simp
qed

lemma distinct_reap_candidates:
  assumes "groups_wf gs"
  shows "distinct (reap_candidates gs before)"
proof -
  have "distinct (map (\<lambda>c. (consumer_last_heartbeat_at_ms c, gid, consumer_id c))
      (filter P (fm_values (group_consumers g))))" if "fmlookup gs gid = Some g" for gid g P
  proof -
    have "distinct (map consumer_id (filter P (fm_values (group_consumers g))))"
      using assms that distinct_consumer_ids [of g] distinct_map_filter by (auto simp: groups_wf_def)
    then show ?thesis by (auto simp: distinct_map inj_on_def)
  qed
  then show ?thesis
    unfolding reap_candidates_def
    by (intro distinct_keyed_concat [where key = "fst \<circ> snd"])
      (auto simp: set_entries)
qed

lemma filter_take_take:
  "filter P (take n xs) = take (length (filter P (take n xs))) (filter P xs)"
proof -
  have "filter P xs = filter P (take n xs) @ filter P (drop n xs)"
    by (simp flip: filter_append)
  then show ?thesis by simp
qed

lemma sorted_reap_candidates:
  "groups_wf gs \<Longrightarrow> sorted_wrt (<) (sort (reap_candidates gs before))"
  by (simp add: distinct_reap_candidates strict_sorted_iff)

lemma strict_sorted_unique:
  fixes xs ys :: "'a::linorder list"
  assumes "sorted_wrt (<) xs" "sorted_wrt (<) ys" "set xs = set ys"
  shows "xs = ys"
  using assms by (simp add: strict_sorted_equal)

text \<open>The oldest of a group's members are its part of the selection over all groups.\<close>

definition of_group :: "ConsumerGroupId \<Rightarrow> (TimestampMs \<times> ConsumerGroupId \<times> ConsumerId) list \<Rightarrow> ConsumerId list" where
  "of_group gid cs = map (snd \<circ> snd) (filter (\<lambda>c. fst (snd c) = gid) cs)"

lemma stale_ids_stalest:
  assumes "groups_wf gs" "fmlookup gs gid = Some g"
  shows "stale_ids g before (length (of_group gid (stalest gs before n))) = of_group gid (stalest gs before n)"
proof -
  let ?L = "sort (reap_candidates gs before)" and ?P = "\<lambda>c :: TimestampMs \<times> ConsumerGroupId \<times> ConsumerId. fst (snd c) = gid"
  let ?f = "\<lambda>c :: TimestampMs \<times> ConsumerGroupId \<times> ConsumerId. (fst c, snd (snd c))"
  let ?S = "sorted_list_of_fset (fset_of_list (map (\<lambda>m. (consumer_last_heartbeat_at_ms m, consumer_id m))
      (filter (\<lambda>m. consumer_last_heartbeat_at_ms m \<le> before) (fm_values (group_consumers g)))))"
  have "sorted_wrt (\<lambda>c d. c < d \<and> ?P c \<and> ?P d) (filter ?P ?L)"
    using sorted_wrt_filter [OF sorted_reap_candidates [OF assms(1)], of ?P before]
    by (auto intro: sorted_wrt_mono_rel)
  then have sorted: "sorted_wrt (<) (map ?f (filter ?P ?L))"
    unfolding sorted_wrt_map by (rule sorted_wrt_mono_rel [rotated]) (auto simp: less_prod_def)
  have "set (map ?f (filter ?P ?L)) = set ?S"
    unfolding set_sorted_fset_of_list
  proof (intro set_eqI)
    fix x :: "TimestampMs \<times> ConsumerId"
    have "x \<in> set (map ?f (filter ?P ?L)) \<longleftrightarrow> (fst x, gid, snd x) \<in> set (reap_candidates gs before)"
      by (force simp: image_iff)
    also have "\<dots> \<longleftrightarrow> (\<exists>c. fmlookup (group_consumers g) (snd x) = Some c \<and>
        consumer_last_heartbeat_at_ms c = fst x \<and> fst x \<le> before)"
      using assms by (simp add: set_reap_candidates)
    also have "\<dots> \<longleftrightarrow> x \<in> set (map (\<lambda>m. (consumer_last_heartbeat_at_ms m, consumer_id m))
        (filter (\<lambda>m. consumer_last_heartbeat_at_ms m \<le> before) (fm_values (group_consumers g))))"
      using assms by (cases x) (auto simp: in_fm_values image_iff groups_wf_def group_wf_def)
    finally show "x \<in> set (map ?f (filter ?P ?L)) \<longleftrightarrow> x \<in> set (map (\<lambda>m. (consumer_last_heartbeat_at_ms m, consumer_id m))
        (filter (\<lambda>m. consumer_last_heartbeat_at_ms m \<le> before) (fm_values (group_consumers g))))" .
  qed
  then have L: "map ?f (filter ?P ?L) = ?S"
    using sorted by (intro strict_sorted_unique) auto
  let ?k = "length (filter ?P (stalest gs before n))"
  have "filter ?P (stalest gs before n) = take ?k (filter ?P ?L)"
    unfolding stalest_def by (rule filter_take_take)
  then have "map ?f (filter ?P (stalest gs before n)) = take ?k ?S"
    unfolding L [symmetric] by (simp only: take_map)
  then have "map snd (map ?f (filter ?P (stalest gs before n))) = stale_ids g before ?k"
    by (simp only: stale_ids_def)
  then have "of_group gid (stalest gs before n) = stale_ids g before ?k" by (simp add: of_group_def o_def)
  moreover have "length (of_group gid (stalest gs before n)) = ?k" by (simp add: of_group_def)
  ultimately show ?thesis by metis
qed

lemma select_members_get:
  "fm_get [] (select_members cs sel) gid = fm_get [] sel gid @ of_group gid cs"
  by (induction cs sel rule: select_members.induct) (auto simp: of_group_def)

lemma select_members_nonempty:
  "(\<And>k. fmlookup sel k \<noteq> Some []) \<Longrightarrow> fmlookup (select_members cs sel) gid \<noteq> Some []"
  by (induction cs sel rule: select_members.induct) auto

lemma select_members_lookup:
  "fmlookup (select_members cs fmempty) gid = Some mids \<longleftrightarrow> mids = of_group gid cs \<and> mids \<noteq> []"
  using select_members_get [of cs fmempty gid] select_members_nonempty [of fmempty cs gid]
  by (auto simp: fm_get_def split: option.splits)

section \<open>Preflight\<close>

lemma preflight_members_Ok:
  "preflight_members m gid mids = Ok u \<longleftrightarrow> (\<forall>mid \<in> set mids. \<exists>v. preflight_member_lease_requeue m gid mid = Ok v)"
  by (induction mids) (auto simp: try_r_Ok)

lemma preflight_groups_Ok:
  "preflight_groups m sel = Ok u \<longleftrightarrow>
     (\<forall>(gid, mids) \<in> set sel. \<exists>g gen r. fmlookup (the_groups m) gid = Some g \<and>
        Generation_next (group_generation g) = Ok gen \<and> Revision_next (group_revision g) = Ok r \<and>
        preflight_members m gid mids = Ok ())"
  by (induction m sel rule: preflight_groups.induct) (auto simp: try_r_Ok ok_or_iff)

section \<open>Removal\<close>

definition shrink :: "ConsumerId list \<Rightarrow> ConsumerGroup \<Rightarrow> ConsumerGroup" where
  "shrink mids g = g\<lparr>group_consumers := fmfilter (\<lambda>mid. mid \<notin> set mids) (group_consumers g),
     group_generation := group_generation g + 1, group_revision := group_revision g + 1\<rparr>"

definition shrink_groups :: "(ConsumerGroupId \<times> ConsumerId list) list \<Rightarrow> group_registry \<Rightarrow> group_registry" where
  "shrink_groups sel gs = fmmap_keys (\<lambda>gid g. case map_of sel gid of None \<Rightarrow> g | Some mids \<Rightarrow> shrink mids g) gs"

definition sel_keys :: "(ConsumerGroupId \<times> ConsumerId list) list \<Rightarrow> (ConsumerGroupId \<times> ConsumerId) set" where
  "sel_keys sel = {(gid, mid). \<exists>mids. (gid, mids) \<in> set sel \<and> mid \<in> set mids}"

text \<open>A selected group can be shrunk, and the tasks of the removed members can be requeued.\<close>

definition reapable :: "BrokerStateMachine \<Rightarrow> TimestampMs \<Rightarrow> ConsumerGroupId \<times> ConsumerId list \<Rightarrow> bool" where
  "reapable m before p \<longleftrightarrow>
     (\<exists>g gen r. fmlookup (the_groups m) (fst p) = Some g \<and> stale_ids g before (length (snd p)) = snd p \<and>
        snd p \<noteq> [] \<and> Generation_next (group_generation g) = Ok gen \<and>
        Revision_next (group_revision g) = Ok r) \<and>
     (\<forall>mid \<in> set (snd p). \<forall>tid. key_of (the_tasks m) tid = Some (fst p, mid) \<longrightarrow>
        releasable (the_tasks m) (fst p) mid tid)"

lemma sel_keys_Cons: "sel_keys ((gid, mids) # sel) = Pair gid ` set mids \<union> sel_keys sel"
  by (auto simp: sel_keys_def)

lemma shrink_groups_Cons:
  assumes "fmlookup gs gid = Some g" "gid \<notin> fst ` set sel"
  shows "shrink_groups sel (fmupd gid (shrink mids g) gs) = shrink_groups ((gid, mids) # sel) gs"
proof -
  have "map_of sel gid = None" using assms(2) by (simp add: map_of_eq_None_iff)
  then show ?thesis
    using assms by (intro fmap_ext) (auto simp: shrink_groups_def split: option.split)
qed

lemma reap_group:
  assumes "group_wf g" "stale_ids g before (length mids) = mids" "mids \<noteq> []"
    "Generation_next (group_generation g) = Ok gen" "Revision_next (group_revision g) = Ok r"
  shows "ConsumerGroup_reap_stale_members g before (length mids) =
    Ok (map (\<lambda>mid. the (fmlookup (group_consumers g) mid)) mids, shrink mids g)"
    and "group_wf (shrink mids g)" "group_generation g \<le> group_generation (shrink mids g)"
    and "distinct mids" "set mids \<subseteq> members g"
proof -
  show *: "ConsumerGroup_reap_stale_members g before (length mids) =
    Ok (map (\<lambda>mid. the (fmlookup (group_consumers g) mid)) mids, shrink mids g)"
    using assms generation.next_plus [OF assms(4)] revision.next_plus [OF assms(5)]
    by (simp add: reap_Ok [OF assms(1)] shrink_def)
  show "group_wf (shrink mids g)" using assms(1) * by (rule group_wf_reap)
  show "group_generation g \<le> group_generation (shrink mids g)"
    using generation.next_plus [OF assms(4)] generation.next_less [OF assms(4)] by (simp add: shrink_def)
  show "distinct mids" using distinct_stale_ids [OF assms(1), of before "length mids"] assms(2) by simp
  show "set mids \<subseteq> members g"
    using stale_ids_members [OF assms(1), of _ before "length mids"] assms(2) by (fastforce simp: fmlookup_dom_iff)
qed

lemma shrink_fields [simp]:
  "group_id (shrink mids g) = group_id g" "group_namespace_id (shrink mids g) = group_namespace_id g"
  "members (shrink mids g) = members g - set mids"
  by (auto simp: shrink_def)

lemma set_groups_tasks: "the_tasks (set_groups gs m) = the_tasks m"
  by simp

lemma reap_loop_step:
  assumes "broker_inv m" "reapable m before (gid, mids)"
  obtains g m2 where "fmlookup (the_groups m) gid = Some g"
    "\<And>rest n aff. reap_loop before ((gid, mids) # rest) n aff m = reap_loop before rest (n + length mids) (aff @ [gid]) m2"
    "broker_inv m2" "keeps m m2"
    "requeue_frame (evicted (sm_state m) (Pair gid ` set mids)) (set_groups (fmupd gid (shrink mids g) (the_groups m)) m) m2"
proof -
  from assms(2) obtain g gen r where g: "fmlookup (the_groups m) gid = Some g"
    "stale_ids g before (length mids) = mids" "mids \<noteq> []"
    "Generation_next (group_generation g) = Ok gen" "Revision_next (group_revision g) = Ok r"
    and rel: "\<And>mid. mid \<in> set mids \<Longrightarrow>
      \<forall>tid. key_of (the_tasks m) tid = Some (gid, mid) \<longrightarrow> releasable (the_tasks m) gid mid tid"
    by (auto simp: reapable_def)
  have wf: "group_wf g" using group_entity(1) [OF assms(1) g(1)] .
  note rg = reap_group [OF wf g(2-5)]
  let ?cs = "map (\<lambda>mid. the (fmlookup (group_consumers g) mid)) mids"
  let ?m1 = "set_groups (fmupd gid (shrink mids g) (the_groups m)) m"
  let ?K = "Pair gid ` set mids"
  have "consumer_id (the (fmlookup (group_consumers g) mid)) = mid" if "mid \<in> set mids" for mid
    using that rg(5) wf by (fastforce simp: group_wf_def fmlookup_dom_iff)
  then have ids: "map consumer_id ?cs = mids" by (simp add: o_def map_idI)
  then have K: "(\<lambda>c. (gid, consumer_id c)) ` set ?cs = ?K" by (metis image_image image_set)
  have inv: "inv_ex (fset (evicted (sm_state m) ?K)) {} ?m1" and k1: "keeps m ?m1"
    using depart_inv [OF assms(1) g(1) rg(2), where M = "set mids", OF _ _ rg(3) _ refl] by auto
  have rel1: "mid \<in> consumer_id ` set ?cs \<Longrightarrow> \<forall>tid. key_of (the_tasks ?m1) tid = Some (gid, mid) \<longrightarrow>
      releasable (the_tasks ?m1) gid mid tid" for mid
    using rel ids by (metis image_set set_groups_tasks)
  have "distinct (map consumer_id ?cs)" unfolding ids by (rule rg(4))
  from requeue_removed_inv [OF inv this rel1] obtain m2 where
    m2: "requeue_removed gid ?cs ?m1 = (Ok (), m2)" "keeps ?m1 m2" "broker_inv m2"
      "requeue_frame (evicted (sm_state m) ?K) ?m1 m2"
    unfolding K by auto
  have "reap_loop before ((gid, mids) # rest) n aff m = reap_loop before rest (n + length mids) (aff @ [gid]) m2" for rest n aff
    using g(1,3) rg(1) m2(1)
    by (simp add: coordinator_reap_stale_members_def coordinate_def group_mut_def Let_def)
  with g(1) m2(3,4) keeps_trans [OF k1 m2(2)] show thesis by (intro that) auto
qed

lemma reapable_frame:
  assumes "reapable m before (gid', mids')" "gid' \<noteq> gid"
    "requeue_frame (evicted (sm_state m) (Pair gid ` M)) (set_groups (fmupd gid g' (the_groups m)) m) m2"
  shows "reapable m2 before (gid', mids')"
proof -
  have ts: "the_tasks m2 = requeue_set (evicted (sm_state m) (Pair gid ` M)) (the_tasks m)"
    and gs: "the_groups m2 = fmupd gid g' (the_groups m)"
    using assms(3) by (simp_all add: requeue_frame_def)
  have "releasable (the_tasks m2) gid' mid tid"
    if "mid \<in> set mids'" and k: "key_of (the_tasks m2) tid = Some (gid', mid)" for mid tid
  proof -
    have out: "tid |\<notin>| evicted (sm_state m) (Pair gid ` M)"
      using k unfolding ts look_requeue_set by (auto simp: look_Some)
    then have "releasable (the_tasks m) gid' mid tid"
      using k that(1) assms(1) by (simp add: reapable_def ts look_requeue_set)
    with out show ?thesis by (simp add: releasable_def ts)
  qed
  with assms(1,2) gs show ?thesis by (simp add: reapable_def)
qed

lemma reap_loop_inv:
  assumes "broker_inv m" "distinct (map fst sel)" "\<forall>p \<in> set sel. reapable m before p"
  shows "\<exists>m'. reap_loop before sel n aff m = (Ok (n + sum_list (map (length \<circ> snd) sel), aff @ map fst sel), m') \<and>
    broker_inv m' \<and> keeps m m' \<and>
    requeue_frame (evicted (sm_state m) (sel_keys sel)) (set_groups (shrink_groups sel (the_groups m)) m) m'"
  using assms
proof (induction sel arbitrary: n aff m)
  case Nil
  have "shrink_groups [] (the_groups m) = the_groups m" by (intro fmap_ext) (simp add: shrink_groups_def option.map_ident)
  with Nil show ?case by (simp add: sel_keys_def requeue_frame_def)
next
  case (Cons p sel)
  obtain gid mids where p: "p = (gid, mids)" by (cases p)
  have "reapable m before (gid, mids)" using Cons.prems(3) p by simp
  from reap_loop_step [OF Cons.prems(1) this] obtain g m2 where g: "fmlookup (the_groups m) gid = Some g"
    and loop: "\<And>rest n aff. reap_loop before ((gid, mids) # rest) n aff m = reap_loop before rest (n + length mids) (aff @ [gid]) m2"
    and m2: "broker_inv m2" "keeps m m2"
    and fr: "requeue_frame (evicted (sm_state m) (Pair gid ` set mids)) (set_groups (fmupd gid (shrink mids g) (the_groups m)) m) m2"
    by blast
  have out: "gid \<notin> fst ` set sel" "distinct (map fst sel)" using Cons.prems(2) p by auto
  have "\<forall>q \<in> set sel. reapable m2 before q"
    using Cons.prems(3) out(1) reapable_frame [OF _ _ fr] by (metis list.set_intros(2) prod.collapse image_eqI)
  from Cons.IH [OF m2(1) out(2) this] obtain m' where
    m': "reap_loop before sel (n + length mids) (aff @ [gid]) m2 =
        (Ok (n + length mids + sum_list (map (length \<circ> snd) sel), (aff @ [gid]) @ map fst sel), m')"
      "broker_inv m'" "keeps m2 m'"
      "requeue_frame (evicted (sm_state m2) (sel_keys sel)) (set_groups (shrink_groups sel (the_groups m2)) m2) m'"
    by blast
  have T: "evicted (sm_state m) (Pair gid ` set mids) |\<union>| evicted (sm_state m2) (sel_keys sel) =
      evicted (sm_state m) (sel_keys ((gid, mids) # sel))"
    unfolding sel_keys_Cons using fr by (intro evicted_union) (simp add: requeue_frame_def)
  have G: "shrink_groups sel (the_groups m2) = shrink_groups ((gid, mids) # sel) (the_groups m)"
    using fr shrink_groups_Cons [OF g out(1), of mids] by (simp add: requeue_frame_def)
  have "requeue_frame (evicted (sm_state m) (sel_keys ((gid, mids) # sel)))
      (set_groups (shrink_groups ((gid, mids) # sel) (the_groups m)) m) m'"
    using fr m'(4) unfolding G T [symmetric] by (auto simp: requeue_frame_def)
  with m'(1-3) loop p keeps_trans [OF m2(2) m'(3)] show ?case by (simp add: add.assoc o_def)
qed

section \<open>The command\<close>

definition reaped_groups :: "(TimestampMs \<times> ConsumerGroupId \<times> ConsumerId) list \<Rightarrow> group_registry \<Rightarrow> group_registry" where
  "reaped_groups cs gs = fmmap_keys (\<lambda>gid g. if of_group gid cs = [] then g else shrink (of_group gid cs) g) gs"

abbreviation selection :: "(TimestampMs \<times> ConsumerGroupId \<times> ConsumerId) list \<Rightarrow> (ConsumerGroupId \<times> ConsumerId list) list" where
  "selection cs \<equiv> sorted_list_of_fmap (select_members cs fmempty)"

lemma of_group_empty: "of_group gid cs = [] \<longleftrightarrow> gid \<notin> fst ` snd ` set cs"
  by (auto simp: of_group_def filter_empty_conv)

lemma set_selection: "set (selection cs) = (\<lambda>gid. (gid, of_group gid cs)) ` fst ` snd ` set cs"
  by (force simp: set_entries select_members_lookup of_group_empty)

lemma distinct_selection: "distinct (map fst (selection cs))"
  by simp

lemma selection_lookup:
  "fmlookup (select_members cs fmempty) gid = (if of_group gid cs = [] then None else Some (of_group gid cs))"
  using select_members_lookup [of cs gid] by (cases "fmlookup (select_members cs fmempty) gid") auto

lemma shrink_selection: "shrink_groups (selection cs) gs = reaped_groups cs gs"
  by (intro fmap_ext) (simp add: shrink_groups_def reaped_groups_def selection_lookup option.map_ident)

lemma in_of_group: "mid \<in> set (of_group gid cs) \<longleftrightarrow> (gid, mid) \<in> snd ` set cs"
  by (force simp: of_group_def)

lemma keys_selection: "sel_keys (selection cs) = snd ` set cs"
proof -
  have "(gid, mid) \<in> sel_keys (selection cs) \<longleftrightarrow> (gid, mid) \<in> snd ` set cs" for gid mid
    unfolding sel_keys_def set_entries using in_of_group [of mid gid cs]
    by (auto simp: select_members_lookup)
  then show ?thesis by auto
qed

lemma count_selection:
  "length (selection cs) = card (fst ` snd ` set cs)"
  "sum_list (map (length \<circ> snd) (selection cs)) = length cs"
proof -
  let ?S = "fst ` snd ` set cs"
  have inj: "inj_on (\<lambda>gid. (gid, of_group gid cs)) ?S" by (auto simp: inj_on_def)
  show "length (selection cs) = card ?S"
    using distinct_card [OF distinct_entries [of "select_members cs fmempty"]] inj
    by (simp add: set_selection card_image)
  have len: "length (of_group gid cs) = count_list (map (fst \<circ> snd) cs) gid" for gid
    by (induction cs) (auto simp: of_group_def)
  have "sum_list (map (length \<circ> snd) (selection cs)) = sum (length \<circ> snd) (set (selection cs))"
    by (rule sum_list_distinct_conv_sum_set) simp
  also have "\<dots> = sum (count_list (map (fst \<circ> snd) cs)) ?S"
    unfolding set_selection sum.reindex [OF inj] by (intro sum.cong) (auto simp: len)
  also have "\<dots> = length (map (fst \<circ> snd) cs)"
    by (rule sum_count_set) auto
  finally show "sum_list (map (length \<circ> snd) (selection cs)) = length cs" by simp
qed

lemma fcard_selection: "fcard (fmdom (select_members cs fmempty)) = card (fst ` snd ` set cs)"
proof -
  have "length (map fst (selection cs)) = fcard (fmdom (select_members cs fmempty))"
    by (simp only: map_fst_entries length_sorted_list_of_fset)
  then show ?thesis by (simp only: length_map count_selection)
qed

lemma fmdom_selection: "fmdom (select_members cs fmempty) = fset_of_list (map (fst \<circ> snd) cs)"
  by (rule fset_eqI) (auto simp: fmlookup_dom_iff selection_lookup of_group_empty fset_of_list_elem image_iff)

lemma selection_reapable:
  assumes "broker_inv m" "preflight_groups m (selection (stalest (the_groups m) before n)) = Ok u"
  shows "\<forall>p \<in> set (selection (stalest (the_groups m) before n)). reapable m before p"
proof
  let ?cs = "stalest (the_groups m) before n"
  fix p
  assume p: "p \<in> set (selection ?cs)"
  obtain gid mids where q: "p = (gid, mids)" by (cases p)
  have mids: "mids = of_group gid ?cs" "mids \<noteq> []"
    using p q by (auto simp: set_entries select_members_lookup)
  from p q assms(2) obtain g gen r where g: "fmlookup (the_groups m) gid = Some g"
    "Generation_next (group_generation g) = Ok gen" "Revision_next (group_revision g) = Ok r"
    "preflight_members m gid mids = Ok ()"
    unfolding preflight_groups_Ok by fastforce
  have "groups_wf (the_groups m)"
    using assms(1) by (auto simp: groups_wf_def inv_ex_def entities_wf_def)
  from stale_ids_stalest [OF this g(1), of before n]
  have "stale_ids g before (length mids) = mids" unfolding mids .
  moreover have "\<forall>mid \<in> set mids. \<forall>tid. key_of (the_tasks m) tid = Some (gid, mid) \<longrightarrow> releasable (the_tasks m) gid mid tid"
    using g(4) preflight_Ok [OF assms(1)] unfolding preflight_members_Ok by blast
  ultimately show "reapable m before p"
    using g(1-3) mids(2) by (auto simp: reapable_def q)
qed

lemma reap_stale_members_cases:
  assumes "reap_stale_members c m = (r, m')" "broker_inv m"
  obtains e where "r = Err e" "m' = m"
  | "stalest (the_groups m) (rs_stale_before_ms c) (rs_max_members c) = []" "m' = m"
    "r = Ok \<lparr>sr_metadata = metadata m, sr_reaped_count = 0, sr_affected_group_count = 0\<rparr>"
  | rev cs where "cs = stalest (the_groups m) (rs_stale_before_ms c) (rs_max_members c)" "cs \<noteq> []"
    "Revision_next (st_revision (sm_state m)) = Ok rev"
    "sm_state m' = (sm_state m)\<lparr>st_revision := rev,
       st_tasks := requeue_set (evicted (sm_state m) (snd ` set cs)) (the_tasks m),
       st_groups := reaped_groups cs (the_groups m)\<rparr>"
    "r = Ok \<lparr>sr_metadata = metadata m', sr_reaped_count = length cs,
             sr_affected_group_count = card (fst ` snd ` set cs)\<rparr>"
    "broker_inv m'" "keeps m m'"
    "changes m' = (changed_namespaces m, changed_tasks m |\<union>| evicted (sm_state m) (snd ` set cs),
       deleted_tasks m, changed_groups m |\<union>| fset_of_list (map (fst \<circ> snd) cs))"
    "\<And>tid. tid |\<in>| evicted (sm_state m) (snd ` set cs) \<Longrightarrow> can_advance (the_tasks m) tid"
    "\<And>gid g. gid \<in> fst ` snd ` set cs \<Longrightarrow> fmlookup (the_groups m) gid = Some g \<Longrightarrow>
       \<exists>gen r. Generation_next (group_generation g) = Ok gen \<and> Revision_next (group_revision g) = Ok r"
proof -
  let ?cs = "stalest (the_groups m) (rs_stale_before_ms c) (rs_max_members c)"
  consider "rs_max_members c = 0" | "rs_max_members c \<noteq> 0" "?cs = []"
    | e where "rs_max_members c \<noteq> 0" "?cs \<noteq> []" "Revision_next (st_revision (sm_state m)) = Err e"
    | rev e where "rs_max_members c \<noteq> 0" "?cs \<noteq> []" "Revision_next (st_revision (sm_state m)) = Ok rev"
      "preflight_groups m (selection ?cs) = Err e"
    | rev u where "rs_max_members c \<noteq> 0" "?cs \<noteq> []" "Revision_next (st_revision (sm_state m)) = Ok rev"
      "preflight_groups m (selection ?cs) = Ok u"
    by (metis sumE)
  then show thesis
  proof cases
    case (5 rev u)
    from reap_loop_inv [OF assms(2) distinct_selection selection_reapable [OF assms(2) 5(4)], of 0 "[]"]
    obtain m1 where m1: "reap_loop (rs_stale_before_ms c) (selection ?cs) 0 [] m =
        (Ok (length ?cs, map fst (selection ?cs)), m1)" "broker_inv m1" "keeps m m1"
      "requeue_frame (evicted (sm_state m) (snd ` set ?cs)) (set_groups (reaped_groups ?cs (the_groups m)) m) m1"
      by (auto simp: shrink_selection keys_selection count_selection)
    have "(r, m') = (Ok \<lparr>sr_metadata = metadata m', sr_reaped_count = length ?cs,
             sr_affected_group_count = card (fst ` snd ` set ?cs)\<rparr>,
        changed_groups_update (\<lambda>gs. gs |\<union>| fset_of_list (map fst (selection ?cs))) (set_revision rev m1))"
      using assms(1) 5 m1(1) by (auto simp: reap_stale_members_def Let_def fcard_selection simp flip: stalest_def)
    moreover have "can_advance (the_tasks m) tid" if ev: "tid |\<in>| evicted (sm_state m) (snd ` set ?cs)" for tid
    proof -
      from ev obtain k where k: "k \<in> sel_keys (selection ?cs)" "key_of (the_tasks m) tid = Some k"
        unfolding in_evicted keys_selection by blast
      then obtain mids where "(fst k, mids) \<in> set (selection ?cs)" "snd k \<in> set mids"
        by (auto simp: sel_keys_def)
      with k(2) selection_reapable [OF assms(2) 5(4)] show ?thesis
        by (fastforce simp: reapable_def intro: releasable_advance)
    qed
    moreover have "\<exists>gen r. Generation_next (group_generation g) = Ok gen \<and> Revision_next (group_revision g) = Ok r"
      if "gid \<in> fst ` snd ` set ?cs" "fmlookup (the_groups m) gid = Some g" for gid g
    proof -
      have "(gid, of_group gid ?cs) \<in> set (selection ?cs)" using that(1) unfolding set_selection by (rule imageI)
      with 5(4) that(2) show ?thesis unfolding preflight_groups_Ok by fastforce
    qed
    ultimately show thesis
      using m1(2-4) 5
      by (intro that(3) [of ?cs rev]) (simp_all add: count_selection requeue_frame_def changes_def fmdom_selection)
  next
    case 1
    with assms(1) show thesis by (intro that(1)) (auto simp: reap_stale_members_def)
  next
    case 2
    with assms(1) show thesis
      by (intro that(2)) (auto simp: reap_stale_members_def Let_def simp flip: stalest_def)
  next
    case (3 e)
    with assms(1) show thesis
      by (intro that(1) [of "StateMachineError.FencingValue e"])
        (auto simp: reap_stale_members_def Let_def simp flip: stalest_def)
  next
    case (4 rev e)
    with assms(1) show thesis
      by (intro that(1) [of e]) (auto simp: reap_stale_members_def Let_def simp flip: stalest_def)
  qed
qed

lemma reap_stale_members_inv:
  assumes "reap_stale_members c m = (r, m')" "broker_inv m"
  shows "broker_inv m' \<and> keeps m m'"
  by (rule reap_stale_members_cases [OF assms]) (simp_all add: assms(2))

end
