(* ===== verification/Broker_Lease.thy ===== *)
theory Broker_Lease
  imports Broker_Reap
begin

text \<open>
  The lease commands: claiming, renewing, completing, and the pruning of completed tasks.  A claim
  is recovery, selection and grant; each part is described by its effect on the tasks.
\<close>

section \<open>Recovery before a claim\<close>

lemma recover_expired_unfold:
  assumes "broker_inv m"
  obtains E cs where "recover_expired_leases ns now m =
      recover_loop ns now (sorted_list_of_fset cs) 0 (m\<lparr>lease_expirations := E\<rparr>)"
    "fset cs = expired_in m ns now"
    "\<And>k. fm_get [] E k = (if k = ns then filter (\<lambda>p. now < fst p) (fm_get [] (lease_expirations m) ns)
                            else fm_get [] (lease_expirations m) k)"
proof (cases "fmlookup (lease_expirations m) ns")
  case None
  then have *: "fm_get [] (lease_expirations m) ns = []" by (simp add: fm_get_def)
  then have "expired_in m ns now = {}" by (simp add: expired_in_def)
  with None * show thesis
    by (intro that [of "{||}" "lease_expirations m"]) (auto simp: recover_expired_leases_def)
next
  case (Some heap)
  then have h: "fm_get [] (lease_expirations m) ns = heap" by (simp add: fm_get_def)
  have "sorted heap" using assms h by (auto simp: inv_ex_def)
  obtain cs heap' where c: "expired_candidates (the_tasks m) now heap {||} = (cs, heap')"
    by (meson surj_pair)
  note spec = expired_candidates_spec [OF \<open>sorted heap\<close> c]
  then have "fset cs = expired_in m ns now" using h by (auto simp: expired_in_def)
  with Some c h spec show thesis
    by (intro that [of cs "fmupd ns heap' (lease_expirations m)"]) (simp_all add: recover_expired_leases_def)
qed

lemma recover_expired_ind:
  assumes "recover_expired_leases ns now m = (res, m')" "broker_inv m"
    and base: "\<And>E. (\<And>k. set (fm_get [] E k) \<subseteq> set (fm_get [] (lease_expirations m) k)) \<Longrightarrow> Q (m\<lparr>lease_expirations := E\<rparr>)"
    and step: "\<And>n tid t l. Q n \<Longrightarrow> tid \<in> expired_in m ns now \<Longrightarrow> fmlookup (the_tasks n) tid = Some t \<Longrightarrow>
      task_state t = TaskState.Leased l \<Longrightarrow>
      Q (release ns (task_created_at_ms t) (leased_lease_id l) tid (requeued t)
          (remove_member_lease_task (leased_group_id l) (leased_owner_member_id l) tid n))"
  shows "Q m'"
proof -
  obtain E cs where u: "recover_expired_leases ns now m =
      recover_loop ns now (sorted_list_of_fset cs) 0 (m\<lparr>lease_expirations := E\<rparr>)"
    and cs: "fset cs = expired_in m ns now"
    and E: "\<And>k. fm_get [] E k = (if k = ns then filter (\<lambda>p. now < fst p) (fm_get [] (lease_expirations m) ns)
                            else fm_get [] (lease_expirations m) k)"
    by (rule recover_expired_unfold [OF assms(2), of ns now]) blast
  show ?thesis
  proof (rule recover_loop_ind [where Q = Q])
    show "recover_loop ns now (sorted_list_of_fset cs) 0 (m\<lparr>lease_expirations := E\<rparr>) = (res, m')"
      using assms(1) u by simp
    show "\<forall>tid \<in> set (sorted_list_of_fset cs). expired_lease (the_tasks (m\<lparr>lease_expirations := E\<rparr>)) now tid"
      using cs expired_in_lease [of _ m ns now] by (simp add: set_sorted_list_of_fset)
    show "Q (m\<lparr>lease_expirations := E\<rparr>)" by (rule base) (auto simp: E)
  qed (use step cs in \<open>auto simp: set_sorted_list_of_fset\<close>)
qed

definition ready_complete :: "BrokerStateMachine \<Rightarrow> bool" where
  "ready_complete m \<longleftrightarrow> (\<forall>tid c. ready_of (the_tasks m) tid = Some c \<longrightarrow> in_heaps (ready_tasks m) (c, tid))"

definition leases_complete :: "BrokerStateMachine \<Rightarrow> bool" where
  "leases_complete m \<longleftrightarrow> (\<forall>tid l. lease_of (the_tasks m) tid = Some l \<longrightarrow>
     in_heaps (lease_expirations m) (leased_expires_at_ms l, tid, leased_lease_epoch l))"

lemma index_complete_split: "index_complete m \<longleftrightarrow> ready_complete m \<and> leases_complete m"
  by (simp add: index_complete_def ready_complete_def leases_complete_def)

lemma recover_ready_complete:
  assumes "recover_expired_leases ns now m = (res, m')" "broker_inv m" "ready_complete m"
  shows "ready_complete m'"
proof (rule recover_expired_ind [OF assms(1,2), where Q = ready_complete])
  fix n tid t l
  assume n: "ready_complete n"
  let ?n = "remove_member_lease_task (leased_group_id l) (leased_owner_member_id l) tid n"
  have "ready_complete ?n" using n by (simp add: ready_complete_def)
  then show "ready_complete (release ns (task_created_at_ms t) (leased_lease_id l) tid (requeued t) ?n)"
    unfolding ready_complete_def release_def push_ready_def by auto
qed (use assms(3) in \<open>simp add: ready_complete_def\<close>)

lemma recover_homed:
  assumes "recover_expired_leases ns now m = (res, m')" "broker_inv m" "homed home m"
  shows "homed home m'"
proof (rule recover_expired_ind [OF assms(1,2), where Q = "homed home"])
  fix E assume E: "\<And>k. set (fm_get [] E k) \<subseteq> set (fm_get [] (lease_expirations m) k)"
  show "homed home (m\<lparr>lease_expirations := E\<rparr>)"
    using assms(3) E unfolding homed_def by simp blast
next
  fix n tid t l
  assume n: "homed home n" "tid \<in> expired_in m ns now" "fmlookup (the_tasks n) tid = Some t"
  have "ns = home tid" using n(2) assms(3) unfolding expired_in_def homed_def by blast
  with n show "homed home (release ns (task_created_at_ms t) (leased_lease_id l) tid (requeued t)
      (remove_member_lease_task (leased_group_id l) (leased_owner_member_id l) tid n))"
    by (intro release_homed) simp_all
qed

lemma in_heaps_filtered:
  assumes "in_heaps H x" "\<And>k. fm_get [] E k = (if k = ns then filter P (fm_get [] H ns) else fm_get [] H k)"
    and "x \<in> set (fm_get [] H ns) \<Longrightarrow> P x"
  shows "in_heaps E x"
proof -
  from assms(1) obtain k where "x \<in> set (fm_get [] H k)" by (auto simp: in_heaps_def)
  then have "x \<in> set (fm_get [] E k)" using assms(2,3) by auto
  then show ?thesis by (auto simp: in_heaps_def)
qed

definition recovered_to :: "TaskId fset \<Rightarrow> BrokerStateMachine \<Rightarrow> BrokerStateMachine \<Rightarrow> bool" where
  "recovered_to T m m1 \<longleftrightarrow> broker_inv m1 \<and> keeps m m1 \<and>
     sm_state m1 = (sm_state m)\<lparr>st_tasks := requeue_set T (the_tasks m)\<rparr> \<and>
     fset T \<subseteq> {tid. can_advance (the_tasks m) tid} \<and>
     changes m1 = (changed_namespaces m, changed_tasks m |\<union>| T, deleted_tasks m, changed_groups m)"

lemma recover_Ok:
  assumes "recover_expired_leases ns now m = (Ok k, m1)" "broker_inv m"
  obtains T where "fset T = expired_in m ns now" "k = fcard T" "recovered_to T m m1"
proof -
  obtain T E where T: "broker_inv m1" "requeue_frame T (m\<lparr>lease_expirations := E\<rparr>) m1"
    and E: "\<And>k. fm_get [] E k = (if k = ns then filter (\<lambda>p. now < fst p) (fm_get [] (lease_expirations m) ns)
                            else fm_get [] (lease_expirations m) k)"
    and fT: "fset T = expired_in m ns now" "k = fcard T" "fset T \<subseteq> {tid. can_advance (the_tasks m) tid}"
    by (rule recover_expired_leases_inv [OF assms]) auto
  have ts: "the_tasks m1 = requeue_set T (the_tasks m)" "lease_expirations m1 = E"
    using T(2) by (simp_all add: requeue_frame_def)
  have "leases_complete m1" if "leases_complete m"
    unfolding leases_complete_def ts
  proof (intro allI impI)
    fix tid l
    assume l: "lease_of (requeue_set T (the_tasks m)) tid = Some l"
    then have out: "tid \<notin> expired_in m ns now" and l: "lease_of (the_tasks m) tid = Some l"
      by (auto simp: look_requeue_set look_Some fT(1) [symmetric] split: if_splits)
    then have h: "in_heaps (lease_expirations m) (leased_expires_at_ms l, tid, leased_lease_epoch l)"
      using that by (simp add: leases_complete_def)
    have live: "live_candidate (the_tasks m) (leased_expires_at_ms l) tid (leased_lease_epoch l)"
      using l by (auto simp: live_candidate_lease)
    show "in_heaps E (leased_expires_at_ms l, tid, leased_lease_epoch l)"
    proof (rule in_heaps_filtered [OF h E])
      assume "(leased_expires_at_ms l, tid, leased_lease_epoch l) \<in> set (fm_get [] (lease_expirations m) ns)"
      with out live show "now < fst (leased_expires_at_ms l, tid, leased_lease_epoch l)"
        unfolding expired_in_def by fastforce
    qed
  qed
  then have "keeps m m1"
    using recover_ready_complete [OF assms] recover_homed [OF assms] by (auto simp: keeps_def index_complete_split)
  with T fT that show thesis by (auto simp: requeue_frame_def recovered_to_def changes_def)
qed

section \<open>Granting a lease\<close>

lemma grant_inv:
  assumes inv: "broker_inv m" and t: "fmlookup (the_tasks m) tid = Some t" "task_state t = TaskState.Queued q"
    and absent: "\<And>c k. (c, tid) \<notin> set (fm_get [] (ready_tasks m) k)"
    and lid: "fmlookup (active_lease_tasks m) (leased_lease_id l) = None"
    and g: "fmlookup (the_groups m) (leased_group_id l) = Some g" "leased_generation l = group_generation g"
      "leased_owner_member_id l \<in> members g"
    and t': "t' = t\<lparr>task_state := TaskState.Leased l, task_revision := r\<rparr>" "r \<noteq> 0"
    and m': "m' = push_expiration ns (leased_expires_at_ms l) tid (leased_lease_epoch l)
      (insert_member_lease (leased_group_id l) (leased_owner_member_id l) tid
        ((put_task tid t' m)\<lparr>active_lease_tasks := fmupd (leased_lease_id l) tid (active_lease_tasks m)\<rparr>))"
  shows "broker_inv m'"
proof -
  have s': "task_state t' = TaskState.Leased l" by (simp add: t')
  note look = look_lookup [OF t(1)] task_view_state(1) [OF t(2)] task_view_state(2) [OF s']
    task_lid_key(1) [OF s'] task_lid_key(2)
  have id: "same_identity t t'" "task_revision t' \<noteq> 0" using t' by (simp_all add: same_identity_def)
  have "leases_owned {} (fmupd tid t' (the_tasks m)) (the_groups m)"
    using inv g by (intro owned_grant [where l' = l]) (auto simp: inv_ex_def look simp del: task_view_simps)
  with inv show ?thesis
    unfolding inv_ex_def m' push_expiration_def insert_member_lease_def
    using id lid absent
    by (simp add: entities_put [OF _ t(1)] active_grant member_grant ready_absent completed_same
        counts_same look same_identity_def heap_push_def sorted_insort del: task_view_simps)
qed

section \<open>Claiming\<close>

text \<open>The claim in three parts: the retry of a held lease, recovery, and the grant of a ready task.\<close>

definition claim_grant :: "ClaimTaskCommand \<Rightarrow> NamespaceId \<Rightarrow> Generation \<Rightarrow> TaskId \<Rightarrow> BrokerStateMachine \<Rightarrow> TaskClaimResult handled" where
  "claim_grant c ns generation tid m2 =
     check_r (checked_deadline (ct_now_ms c) (ct_lease_duration_ms c)) m2 (\<lambda>expires.
     check_r (sm_fv (Revision_next (st_revision (sm_state m2)))) m2 (\<lambda>next_global_revision.
     check_r (ok_or (fmlookup (the_tasks m2) tid) (TaskNotFound tid)) m2 (\<lambda>t.
     check_r (map_err TaskTransition (Task_claim t
       \<lparr>grant_lease_id = ct_lease_id c, grant_owner_member_id = ct_member_id c,
        grant_group_id = ct_group_id c, grant_generation = generation,
        grant_expires_at_ms = expires\<rparr>)) m2 (\<lambda>t'.
     let m3 = put_task tid t' m2 in
     case task_state t' of
       TaskState.Leased lease \<Rightarrow>
         let m4 = m3\<lparr>active_lease_tasks := fmupd (ct_lease_id c) tid (active_lease_tasks m3)\<rparr>;
             m5 = push_expiration ns expires tid (leased_lease_epoch lease)
                    (insert_member_lease (ct_group_id c) (ct_member_id c) tid m4);
             m6 = set_revision next_global_revision (changed_tasks_update (finsert tid) m5)
         in check_r (ok_or (fmlookup (the_tasks m6) tid) (TaskNotFound tid)) m6 (\<lambda>u.
            (Ok ((task_claim_result m6 generation (Some u))
                   \<lparr>cr_task_revision := Some (task_revision t')\<rparr>), m6))
     | _ \<Rightarrow> (Err (TaskTransition (NotLeased (Task_status t'))), m3)))))"

definition claim_new :: "ClaimTaskCommand \<Rightarrow> NamespaceId \<Rightarrow> Generation \<Rightarrow> BrokerStateMachine \<Rightarrow> TaskClaimResult handled" where
  "claim_new c ns generation m =
     seq_r (recover_expired_leases ns (ct_now_ms c) m) (\<lambda>recovered m1.
     case pop_ready_task ns m1 of
       (None, m2) \<Rightarrow>
         if recovered > 0 then
           check_r (sm_fv (Revision_next (st_revision (sm_state m2)))) m2 (\<lambda>next_revision.
           let m3 = set_revision next_revision m2
           in (Ok (task_claim_result m3 generation None), m3))
         else (Ok (task_claim_result m2 generation None), m2)
     | (Some tid, m2) \<Rightarrow> claim_grant c ns generation tid m2)"

lemma claim_task_parts:
  "claim_task c m =
     check_r (require_term m (ct_expected_term c)) m (\<lambda>_.
     check_r (require_group_member m (ct_group_id c) (ct_member_id c) (ct_expected_generation c)) m
       (\<lambda>(ns, generation).
     case fmlookup (active_lease_tasks m) (ct_lease_id c) of
       Some existing \<Rightarrow>
         check_r (ok_or (fmlookup (the_tasks m) existing) (TaskNotFound existing)) m (\<lambda>t.
         case task_state t of
           TaskState.Leased lease \<Rightarrow>
             if leased_owner_member_id lease = ct_member_id c \<and> leased_group_id lease = ct_group_id c
             then (Ok (task_claim_result m generation (Some t)), m)
             else (Err (LeaseIdConflict (ct_lease_id c)), m)
         | _ \<Rightarrow> (Err (LeaseIdConflict (ct_lease_id c)), m))
     | None \<Rightarrow> claim_new c ns generation m))"
  by (simp only: claim_task_def claim_new_def claim_grant_def)

definition claimed :: "ClaimTaskCommand \<Rightarrow> TimestampMs \<Rightarrow> LeaseEpoch \<Rightarrow> LeasedTask" where
  "claimed c expires e =
     \<lparr>leased_lease_id = ct_lease_id c, leased_owner_member_id = ct_member_id c, leased_group_id = ct_group_id c,
      leased_generation = ct_expected_generation c, leased_lease_epoch = e, leased_expires_at_ms = expires\<rparr>"

definition granted_machine ::
  "NamespaceId \<Rightarrow> TaskId \<Rightarrow> Task \<Rightarrow> LeasedTask \<Rightarrow> Revision \<Rightarrow> BrokerStateMachine \<Rightarrow> BrokerStateMachine" where
  "granted_machine ns tid t' l next_revision m2 =
     set_revision next_revision (changed_tasks_update (finsert tid)
       (push_expiration ns (leased_expires_at_ms l) tid (leased_lease_epoch l)
         (insert_member_lease (leased_group_id l) (leased_owner_member_id l) tid
           ((put_task tid t' m2)\<lparr>active_lease_tasks := fmupd (leased_lease_id l) tid (active_lease_tasks m2)\<rparr>))))"

lemma claim_grant_cases:
  assumes "claim_grant c ns (ct_expected_generation c) tid m2 = (r, m')"
    and t: "fmlookup (the_tasks m2) tid = Some t" "task_state t = TaskState.Queued q"
  obtains e where "r = Err e" "m' = m2"
  | expires rev e trev t' l where "checked_add (ct_now_ms c) (ct_lease_duration_ms c) = Some expires"
    "Revision_next (st_revision (sm_state m2)) = Ok rev" "LeaseEpoch_next (queued_lease_epoch q) = Ok e"
    "Revision_next (task_revision t) = Ok trev" "l = claimed c expires e"
    "t' = t\<lparr>task_state := TaskState.Leased l, task_revision := trev\<rparr>"
    "m' = granted_machine ns tid t' l rev m2"
    "r = Ok (task_claim_result m' (ct_expected_generation c) (Some t'))"
proof -
  let ?g = "\<lambda>x. \<lparr>grant_lease_id = ct_lease_id c, grant_owner_member_id = ct_member_id c,
        grant_group_id = ct_group_id c, grant_generation = ct_expected_generation c, grant_expires_at_ms = x\<rparr>"
  consider e where "checked_deadline (ct_now_ms c) (ct_lease_duration_ms c) = Err e"
    | x e where "checked_deadline (ct_now_ms c) (ct_lease_duration_ms c) = Ok x" "Revision_next (st_revision (sm_state m2)) = Err e"
    | x rev e where "checked_deadline (ct_now_ms c) (ct_lease_duration_ms c) = Ok x" "Revision_next (st_revision (sm_state m2)) = Ok rev"
      "Task_claim t (?g x) = Err e"
    | x rev t' where "checked_deadline (ct_now_ms c) (ct_lease_duration_ms c) = Ok x" "Revision_next (st_revision (sm_state m2)) = Ok rev"
      "Task_claim t (?g x) = Ok t'"
    by (metis sumE)
  then show thesis
  proof cases
    case (4 x rev t')
    from 4(3) t(2) obtain e trev where e: "LeaseEpoch_next (queued_lease_epoch q) = Ok e"
      "Revision_next (task_revision t) = Ok trev"
      "t' = t\<lparr>task_state := TaskState.Leased (claimed c x e), task_revision := trev\<rparr>"
      by (auto simp: Task_claim_Ok claimed_def)
    have x: "checked_add (ct_now_ms c) (ct_lease_duration_ms c) = Some x"
      using 4(1) by (simp add: checked_deadline_def ok_or_iff)
    have "(r, m') = (Ok (task_claim_result m' (ct_expected_generation c) (Some t')),
        granted_machine ns tid t' (claimed c x e) rev m2)"
      using assms(1) t(1) 4 e(3)
      by (auto simp: claim_grant_def granted_machine_def claimed_def Let_def task_claim_result_def
          push_expiration_def insert_member_lease_def)
    then show thesis by (intro that(2) [OF x 4(2) e(1,2) refl e(3)]) simp_all
  qed (use assms(1) t(1) that(1) in \<open>auto simp: claim_grant_def\<close>)
qed

lemma granted_simps [simp]:
  "sm_state (granted_machine ns tid t' l rv m) = (sm_state m)\<lparr>st_tasks := fmupd tid t' (the_tasks m), st_revision := rv\<rparr>"
  "ready_tasks (granted_machine ns tid t' l rv m) = ready_tasks m"
  "lease_expirations (granted_machine ns tid t' l rv m) = fmupd ns
     (heap_push (leased_expires_at_ms l, tid, leased_lease_epoch l) (fm_get [] (lease_expirations m) ns)) (lease_expirations m)"
  "changed_tasks (granted_machine ns tid t' l rv m) = finsert tid (changed_tasks m)"
  "changed_namespaces (granted_machine ns tid t' l rv m) = changed_namespaces m"
  "changed_groups (granted_machine ns tid t' l rv m) = changed_groups m"
  "deleted_tasks (granted_machine ns tid t' l rv m) = deleted_tasks m"
  by (simp_all add: granted_machine_def push_expiration_def insert_member_lease_def)

lemma granted_keeps:
  assumes t': "task_state t' = TaskState.Leased l" "task_namespace_id t' = task_namespace_id t"
    and t: "fmlookup (the_tasks m) tid = Some t"
    and g: "fmlookup (the_groups m) (leased_group_id l) = Some g" "group_namespace_id g = ns"
    and heap: "fm_get [] (ready_tasks m) ns = (c, tid) # h"
    and R: "\<And>k. fm_get [] R k = (if k = ns then tl (fm_get [] (ready_tasks m) ns) else fm_get [] (ready_tasks m) k)"
  shows "keeps m (granted_machine ns tid t' l rv (m\<lparr>ready_tasks := R\<rparr>))" (is "keeps m ?m'")
proof -
  note v = task_view_state(2) [OF t'(1)]
  have "ready_complete ?m'" if "ready_complete m"
    unfolding ready_complete_def
  proof (intro allI impI)
    fix k a
    assume "ready_of (the_tasks ?m') k = Some a"
    then have k: "k \<noteq> tid" "ready_of (the_tasks m) k = Some a" using v by (auto split: if_splits)
    with that obtain n where "(a, k) \<in> set (fm_get [] (ready_tasks m) n)"
      unfolding ready_complete_def in_heaps_def by blast
    with k(1) heap have "(a, k) \<in> set (fm_get [] R n)" by (auto simp: R)
    then show "in_heaps (ready_tasks ?m') (a, k)" by (auto simp: in_heaps_def)
  qed
  moreover have "leases_complete ?m'" if "leases_complete m"
    using that v by (auto simp: leases_complete_def simp del: task_view_simps)
  moreover have "homed home ?m'" if hm: "homed home m" for home
  proof -
    have sub: "set (fm_get [] R k) \<subseteq> set (fm_get [] (ready_tasks m) k)" for k
      using R heap by auto
    have "(c, tid) \<in> set (fm_get [] (ready_tasks m) ns)" using heap by simp
    with hm have ns: "ns = home tid" unfolding homed_def by blast
    have "task_namespace_id t = home tid" using hm t by (auto simp: homed_def look_lookup)
    with hm sub ns g v t'(2) show ?thesis
      unfolding homed_def by (simp del: task_view_simps) blast
  qed
  ultimately show ?thesis by (simp add: keeps_def index_complete_split)
qed

lemma pop_ready_inv:
  assumes "pop_ready_task ns m = (res, m2)" "broker_inv m"
  obtains R where "m2 = m\<lparr>ready_tasks := R\<rparr>" "broker_inv m2"
    "\<And>k. fm_get [] R k = (if k = ns then tl (fm_get [] (ready_tasks m) ns) else fm_get [] (ready_tasks m) k)"
    "res = (case fm_get [] (ready_tasks m) ns of [] \<Rightarrow> None | (c, tid) # h \<Rightarrow> Some tid)"
proof -
  have ri: "ready_index (the_tasks m) (ready_tasks m)" using assms(2) by (simp add: inv_ex_def)
  obtain R where R: "m2 = m\<lparr>ready_tasks := R\<rparr>"
    "\<And>k. fm_get [] R k = (if k = ns then tl (fm_get [] (ready_tasks m) ns) else fm_get [] (ready_tasks m) k)"
    "res = (case fm_get [] (ready_tasks m) ns of [] \<Rightarrow> None | (c, tid) # h \<Rightarrow> Some tid)"
    by (rule pop_ready_task_spec [OF ri assms(1)]) blast
  have "broker_inv m2" using assms(2) ready_pop [OF ri R(2)] by (simp add: R(1) inv_ex_def)
  with R show thesis by (intro that)
qed

lemma pop_homed:
  assumes "homed home m"
    "\<And>k. fm_get [] R k = (if k = ns then tl (fm_get [] (ready_tasks m) ns) else fm_get [] (ready_tasks m) k)"
  shows "homed home (m\<lparr>ready_tasks := R\<rparr>)"
proof -
  have "set (fm_get [] R k) \<subseteq> set (fm_get [] (ready_tasks m) k)" for k
    using assms(2) by (cases "fm_get [] (ready_tasks m) ns") auto
  with assms(1) show ?thesis unfolding homed_def by simp blast
qed

lemma pop_none_keeps:
  assumes "fm_get [] (ready_tasks m) ns = []"
    "\<And>k. fm_get [] R k = (if k = ns then tl (fm_get [] (ready_tasks m) ns) else fm_get [] (ready_tasks m) k)"
  shows "keeps m (m\<lparr>ready_tasks := R\<rparr>)"
proof -
  have "fm_get [] R = fm_get [] (ready_tasks m)" using assms by (intro ext) simp
  then show ?thesis by (simp add: keeps_def index_complete_def homed_def in_heaps_def)
qed

lemma unused_lease_id:
  assumes "broker_inv m" "fmlookup (active_lease_tasks m) lid = None"
    and "broker_inv m1" "the_tasks m1 = requeue_set T (the_tasks m)"
  shows "fmlookup (active_lease_tasks m1) lid = None"
proof (rule ccontr)
  assume "fmlookup (active_lease_tasks m1) lid \<noteq> None"
  then obtain tid where "lid_of (requeue_set T (the_tasks m)) tid = Some lid"
    using assms(3,4) by (auto simp: inv_ex_def active_index_def)
  then have "lid_of (the_tasks m) tid = Some lid"
    by (auto simp: look_requeue_set look_Some split: if_splits)
  then have "fmlookup (active_lease_tasks m) lid = Some tid"
    using assms(1) unfolding inv_ex_def active_index_def by blast
  with assms(2) show False by simp
qed

lemma granted_inv:
  assumes inv: "broker_inv m1" and heap: "fm_get [] (ready_tasks m1) ns = (created, tid) # h"
    and R: "\<And>k. fm_get [] R k = (if k = ns then tl (fm_get [] (ready_tasks m1) ns) else fm_get [] (ready_tasks m1) k)"
    and t: "fmlookup (the_tasks m1) tid = Some t" "task_state t = TaskState.Queued q"
    and lid: "fmlookup (active_lease_tasks m1) (leased_lease_id l) = None"
    and g: "fmlookup (the_groups m1) (leased_group_id l) = Some g" "leased_generation l = group_generation g"
      "leased_owner_member_id l \<in> members g"
    and t': "t' = t\<lparr>task_state := TaskState.Leased l, task_revision := r\<rparr>" "r \<noteq> 0"
  shows "broker_inv (granted_machine ns tid t' l rv (m1\<lparr>ready_tasks := R\<rparr>))"
proof -
  let ?m2 = "m1\<lparr>ready_tasks := R\<rparr>"
  have ri: "ready_index (the_tasks m1) (ready_tasks m1)" using inv by (simp add: inv_ex_def)
  have inv2: "broker_inv ?m2" using inv ready_pop [OF ri R] by (simp add: inv_ex_def)
  have absent: "(c, tid) \<notin> set (fm_get [] (ready_tasks ?m2) k)" for c k
    using ready_pop_absent [OF ri R heap] by simp
  have "broker_inv (push_expiration ns (leased_expires_at_ms l) tid (leased_lease_epoch l)
      (insert_member_lease (leased_group_id l) (leased_owner_member_id l) tid
        ((put_task tid t' ?m2)\<lparr>active_lease_tasks := fmupd (leased_lease_id l) tid (active_lease_tasks ?m2)\<rparr>)))"
    by (rule grant_inv [OF inv2 _ t(2) absent _ _ g(2,3) t' refl]) (use t lid g in simp_all)
  then show ?thesis unfolding granted_machine_def by (simp only: inv_frame)
qed

lemma fcard_pos: "0 < fcard T \<longleftrightarrow> T \<noteq> {||}"
  by (auto simp: fcard.rep_eq card_gt_0_iff)

lemma claim_none_cases:
  assumes "(if 0 < fcard T then
       check_r (sm_fv (Revision_next (st_revision (sm_state m2)))) m2 (\<lambda>next_revision.
         let m3 = set_revision next_revision m2 in (Ok (task_claim_result m3 gen None), m3))
     else (Ok (task_claim_result m2 gen None), m2)) = (r, m')" "recovered_to T m m2"
  obtains (failed) e where "r = Err e" "m' = m2"
  | (empty) rv where
    "T = {||} \<and> rv = st_revision (sm_state m) \<or> T \<noteq> {||} \<and> Revision_next (st_revision (sm_state m)) = Ok rv"
    "sm_state m' = (sm_state m)\<lparr>st_tasks := requeue_set T (the_tasks m), st_revision := rv\<rparr>"
    "r = Ok (empty_claim_result m' gen)" "broker_inv m'" "keeps m m'"
    "changes m' = (changed_namespaces m, changed_tasks m |\<union>| T, deleted_tasks m, changed_groups m)"
proof (cases "T = {||}")
  case True
  with assms show thesis
    by (intro empty [of "st_revision (sm_state m)"])
      (auto simp: fcard_pos task_claim_result_def recovered_to_def)
next
  case False
  show thesis
  proof (cases "Revision_next (st_revision (sm_state m))")
    case (Inl e)
    with assms False show thesis
      by (intro failed [of "StateMachineError.FencingValue e"]) (auto simp: fcard_pos recovered_to_def)
  next
    case (Inr rv)
    then have m': "m' = set_revision rv m2" "r = Ok (empty_claim_result m' gen)"
      using assms False by (auto simp: fcard_pos recovered_to_def Let_def task_claim_result_def)
    have "broker_inv m'" "keeps m m'"
      unfolding m'(1) inv_frame keeps_frame using assms(2) by (simp_all add: recovered_to_def)
    with Inr m' assms(2) False show thesis
      by (intro empty [of rv]) (auto simp: changes_def recovered_to_def)
  qed
qed

lemma claim_pop_grant:
  assumes "recovered_to T m m1" "broker_inv m"
    and lid: "fmlookup (active_lease_tasks m) (ct_lease_id c) = None"
    and g: "fmlookup (the_groups m) (ct_group_id c) = Some g" "group_generation g = ct_expected_generation c"
      "ct_member_id c \<in> members g" "group_namespace_id g = ns"
    and heap: "fm_get [] (ready_tasks m1) ns = (created, tid) # h"
    and R: "\<And>k. fm_get [] R k = (if k = ns then tl (fm_get [] (ready_tasks m1) ns) else fm_get [] (ready_tasks m1) k)"
    and t: "fmlookup (the_tasks m1) tid = Some t" "task_state t = TaskState.Queued q"
    and t': "t' = t\<lparr>task_state := TaskState.Leased (claimed c x e), task_revision := trev\<rparr>" "trev \<noteq> 0"
    and m': "m' = granted_machine ns tid t' (claimed c x e) rv (m1\<lparr>ready_tasks := R\<rparr>)"
  shows "broker_inv m'" "keeps m m'"
proof -
  have m1: "broker_inv m1" "keeps m m1" "the_tasks m1 = requeue_set T (the_tasks m)" "the_groups m1 = the_groups m"
    using assms(1) by (simp_all add: recovered_to_def)
  have "fmlookup (active_lease_tasks m1) (leased_lease_id (claimed c x e)) = None"
    using unused_lease_id [OF assms(2) lid m1(1,3)] by (simp add: claimed_def)
  then show "broker_inv m'"
    unfolding m' using g m1(4)
    by (intro granted_inv [OF m1(1) heap R t _ _ _ _ t', where g = g]) (simp_all add: claimed_def)
  have "keeps m1 m'"
    unfolding m' by (rule granted_keeps [OF _ _ t(1) _ g(4) heap R]) (use g(1) m1(4) t' in \<open>simp_all add: claimed_def\<close>)
  then show "keeps m m'" by (rule keeps_trans [OF m1(2)])
qed

lemma claim_new_cases:
  assumes "claim_new c ns (ct_expected_generation c) m = (r, m')" "broker_inv m"
    and lid: "fmlookup (active_lease_tasks m) (ct_lease_id c) = None"
    and g: "fmlookup (the_groups m) (ct_group_id c) = Some g" "group_generation g = ct_expected_generation c"
      "ct_member_id c \<in> members g" "ns = group_namespace_id g"
  obtains (failed) e T where "r = Err e" "broker_inv m'" "\<And>home. homed home m \<Longrightarrow> homed home m'"
    "sm_state m' = (sm_state m)\<lparr>st_tasks := requeue_set T (the_tasks m)\<rparr>"
    "fset T \<subseteq> expired_in m ns (ct_now_ms c)" "fset T \<subseteq> {tid. can_advance (the_tasks m) tid}"
  | (empty) T m1 rv where "recover_expired_leases ns (ct_now_ms c) m = (Ok (fcard T), m1)" "fset T = expired_in m ns (ct_now_ms c)"
    "fset T \<subseteq> {tid. can_advance (the_tasks m) tid}" "fm_get [] (ready_tasks m1) ns = []"
    "T = {||} \<and> rv = st_revision (sm_state m) \<or> T \<noteq> {||} \<and> Revision_next (st_revision (sm_state m)) = Ok rv"
    "sm_state m' = (sm_state m)\<lparr>st_tasks := requeue_set T (the_tasks m), st_revision := rv\<rparr>"
    "r = Ok (empty_claim_result m' (ct_expected_generation c))" "broker_inv m'" "keeps m m'"
    "changes m' = (changed_namespaces m, changed_tasks m |\<union>| T, deleted_tasks m, changed_groups m)"
  | (granted) T m1 created tid h t q expires rv e trev t' where
    "recover_expired_leases ns (ct_now_ms c) m = (Ok (fcard T), m1)" "fset T = expired_in m ns (ct_now_ms c)"
    "fset T \<subseteq> {tid. can_advance (the_tasks m) tid}" "fm_get [] (ready_tasks m1) ns = (created, tid) # h"
    "checked_add (ct_now_ms c) (ct_lease_duration_ms c) = Some expires"
    "Revision_next (st_revision (sm_state m)) = Ok rv"
    "fmlookup (requeue_set T (the_tasks m)) tid = Some t" "task_state t = TaskState.Queued q"
    "LeaseEpoch_next (queued_lease_epoch q) = Ok e" "Revision_next (task_revision t) = Ok trev"
    "t' = t\<lparr>task_state := TaskState.Leased (claimed c expires e), task_revision := trev\<rparr>"
    "sm_state m' = (sm_state m)\<lparr>st_tasks := fmupd tid t' (requeue_set T (the_tasks m)), st_revision := rv\<rparr>"
    "r = Ok (task_claim_result m' (ct_expected_generation c) (Some t'))" "broker_inv m'" "keeps m m'"
    "changes m' = (changed_namespaces m, finsert tid (changed_tasks m |\<union>| T), deleted_tasks m, changed_groups m)"
proof (cases "fst (recover_expired_leases ns (ct_now_ms c) m)")
  case (Inl e)
  then obtain m1 where m1: "recover_expired_leases ns (ct_now_ms c) m = (Err e, m1)" by (metis prod.collapse)
  obtain T where "fset T \<subseteq> expired_in m ns (ct_now_ms c)" "fset T \<subseteq> {tid. can_advance (the_tasks m) tid}"
    "broker_inv m1" "sm_state m1 = (sm_state m)\<lparr>st_tasks := requeue_set T (the_tasks m)\<rparr>"
    by (rule recover_expired_leases_inv [OF m1 assms(2)]) (auto simp: requeue_frame_def)
  with m1 assms(1) show thesis
    by (intro failed [of e T]) (auto simp: claim_new_def intro: recover_homed [OF _ assms(2)])
next
  case (Inr k)
  then obtain m1 where m1: "recover_expired_leases ns (ct_now_ms c) m = (Ok k, m1)" by (metis prod.collapse)
  obtain T where T: "fset T = expired_in m ns (ct_now_ms c)" "k = fcard T" "recovered_to T m m1"
    by (rule recover_Ok [OF m1 assms(2)])
  then have inv1: "broker_inv m1" "fset T \<subseteq> {tid. can_advance (the_tasks m) tid}"
    "sm_state m1 = (sm_state m)\<lparr>st_tasks := requeue_set T (the_tasks m)\<rparr>" by (simp_all add: recovered_to_def)
  obtain res m2 where pop: "pop_ready_task ns m1 = (res, m2)" by fastforce
  obtain R where R: "m2 = m1\<lparr>ready_tasks := R\<rparr>" "broker_inv m2"
    "\<And>k. fm_get [] R k = (if k = ns then tl (fm_get [] (ready_tasks m1) ns) else fm_get [] (ready_tasks m1) k)"
    "res = (case fm_get [] (ready_tasks m1) ns of [] \<Rightarrow> None | (c, tid) # h \<Rightarrow> Some tid)"
    by (rule pop_ready_inv [OF pop inv1(1)]) blast
  have home: "homed home m2" if "homed home m" for home
    using T(3) that pop_homed [OF _ R(3)] by (simp add: keeps_def R(1) recovered_to_def)
  show thesis
  proof (cases "fm_get [] (ready_tasks m1) ns")
    case Nil
    have to: "recovered_to T m m2"
      using T(3) R(2) keeps_trans [OF _ pop_none_keeps [OF Nil R(3)], of m]
      by (simp add: recovered_to_def R(1) changes_def)
    note none = assms(1) [unfolded claim_new_def m1 seq_r_simps pop R(4) Nil T(2) list.case prod.case option.case]
    show thesis
    proof (rule claim_none_cases [OF none to])
      fix e assume "r = Err e" "m' = m2"
      with R(1,2) home T(1) inv1(2,3) show thesis by (intro failed [of e T]) simp_all
    qed (rule empty [OF m1 [unfolded T(2)] T(1) inv1(2) Nil])
  next
    case (Cons p h)
    obtain created tid where p: "p = (created, tid)" by (cases p)
    note heap = Cons [unfolded p]
    have "ready_of (the_tasks m1) tid = Some created"
      using inv1(1) heap by (intro ready_sound [of _ "ready_tasks m1" _ _ ns]) (simp_all add: inv_ex_def)
    then obtain t q where t: "fmlookup (the_tasks m1) tid = Some t" "task_state t = TaskState.Queued q"
      by (auto simp: look_Some)
    have grant: "claim_grant c ns (ct_expected_generation c) tid m2 = (r, m')"
      using assms(1) m1 pop R(4) heap by (simp add: claim_new_def)
    have t2: "fmlookup (the_tasks m2) tid = Some t" using t(1) R(1) by simp
    show thesis
    proof (rule claim_grant_cases [OF grant t2 t(2)])
      fix e assume "r = Err e" "m' = m2"
      with R(1,2) home T(1) inv1(2,3) show thesis by (intro failed [of e T]) simp_all
    next
      fix expires rv e trev t' l
      assume *: "checked_add (ct_now_ms c) (ct_lease_duration_ms c) = Some expires"
        "Revision_next (st_revision (sm_state m2)) = Ok rv" "LeaseEpoch_next (queued_lease_epoch q) = Ok e"
        "Revision_next (task_revision t) = Ok trev" "l = claimed c expires e"
        "t' = t\<lparr>task_state := TaskState.Leased l, task_revision := trev\<rparr>"
        "m' = granted_machine ns tid t' l rv m2" "r = Ok (task_claim_result m' (ct_expected_generation c) (Some t'))"
      have inv': "broker_inv m'" "keeps m m'"
        using claim_pop_grant [OF T(3) assms(2) lid g(1-3) g(4) [symmetric] heap R(3) t *(6) [unfolded *(5)]
            revision.next_pos [OF *(4)] *(7) [unfolded *(5) R(1)]] by simp_all
      show thesis
        by (rule granted [OF m1 [unfolded T(2)] T(1) inv1(2) heap *(1) _ _ t(2) *(3,4) *(6) [unfolded *(5)] _ *(8) inv'])
          (use * R(1) T(3) t(1) in \<open>simp_all add: recovered_to_def changes_def\<close>)
    qed
  qed
qed

lemma require_group_member_Ok:
  "require_group_member m gid mid gen = Ok p \<longleftrightarrow>
     (\<exists>g. fmlookup (the_groups m) gid = Some g \<and> group_generation g = gen \<and> mid \<in> members g \<and>
        p = (group_namespace_id g, gen))"
  by (cases p) (auto simp: require_group_member_def require_member_Ok)

text \<open>The checks every lease command starts with.\<close>

definition authorised :: "BrokerStateMachine \<Rightarrow> Term \<Rightarrow> ConsumerGroupId \<Rightarrow> ConsumerId \<Rightarrow> Generation \<Rightarrow> ConsumerGroup \<Rightarrow> bool" where
  "authorised m expected_term gid mid gen g \<longleftrightarrow> st_term (sm_state m) = expected_term \<and>
     fmlookup (the_groups m) gid = Some g \<and> group_generation g = gen \<and> mid \<in> members g"

lemma check_authorised:
  assumes "check_r (require_term m trm) m (\<lambda>_. check_r (require_group_member m gid mid gen) m k) = (r, m')"
  obtains e where "r = Err e" "m' = m"
  | g where "authorised m trm gid mid gen g" "k (group_namespace_id g, gen) = (r, m')"
proof (cases "require_term m trm")
  case (Inl e)
  with assms show thesis by (intro that(1) [of e]) auto
next
  case (Inr u)
  then have trm: "st_term (sm_state m) = trm" by (simp add: require_term_def split: if_splits)
  show thesis
  proof (cases "require_group_member m gid mid gen")
    case (Inl e)
    with Inr assms show thesis by (intro that(1) [of e]) auto
  next
    case mem: (Inr p)
    from mem obtain g where "fmlookup (the_groups m) gid = Some g" "group_generation g = gen" "mid \<in> members g"
      "p = (group_namespace_id g, gen)" by (auto simp: require_group_member_Ok)
    with mem Inr trm assms that(2) [of g] show thesis by (simp add: authorised_def)
  qed
qed

lemma claim_task_cases:
  assumes "claim_task c m = (r, m')" "broker_inv m"
  obtains (rejected) e where "r = Err e" "m' = m"
  | (replayed) g tid t l where
    "authorised m (ct_expected_term c) (ct_group_id c) (ct_member_id c) (ct_expected_generation c) g"
    "fmlookup (active_lease_tasks m) (ct_lease_id c) = Some tid"
    "fmlookup (the_tasks m) tid = Some t" "task_state t = TaskState.Leased l" "leased_lease_id l = ct_lease_id c"
    "leased_owner_member_id l = ct_member_id c" "leased_group_id l = ct_group_id c" "m' = m"
    "r = Ok (task_claim_result m (ct_expected_generation c) (Some t))"
  | (new) g where "authorised m (ct_expected_term c) (ct_group_id c) (ct_member_id c) (ct_expected_generation c) g"
    "fmlookup (active_lease_tasks m) (ct_lease_id c) = None"
    "claim_new c (group_namespace_id g) (ct_expected_generation c) m = (r, m')"
proof (rule check_authorised [OF assms(1) [unfolded claim_task_parts]])
  fix g
  assume g: "authorised m (ct_expected_term c) (ct_group_id c) (ct_member_id c) (ct_expected_generation c) g"
    and k: "(case (group_namespace_id g, ct_expected_generation c) of (ns, generation) \<Rightarrow>
     case fmlookup (active_lease_tasks m) (ct_lease_id c) of
       Some existing \<Rightarrow>
         check_r (ok_or (fmlookup (the_tasks m) existing) (TaskNotFound existing)) m (\<lambda>t.
         case task_state t of
           TaskState.Leased lease \<Rightarrow>
             if leased_owner_member_id lease = ct_member_id c \<and> leased_group_id lease = ct_group_id c
             then (Ok (task_claim_result m generation (Some t)), m)
             else (Err (LeaseIdConflict (ct_lease_id c)), m)
         | _ \<Rightarrow> (Err (LeaseIdConflict (ct_lease_id c)), m))
     | None \<Rightarrow> claim_new c ns generation m) = (r, m')"
  show thesis
  proof (cases "fmlookup (active_lease_tasks m) (ct_lease_id c)")
    case None
    with k new [OF g] show thesis by simp
  next
    case (Some tid)
    then have "lid_of (the_tasks m) tid = Some (ct_lease_id c)"
      using assms(2) by (simp add: inv_ex_def active_index_def)
    then obtain t l where t: "fmlookup (the_tasks m) tid = Some t" "task_state t = TaskState.Leased l"
      "leased_lease_id l = ct_lease_id c"
      by (auto simp: look_Some task_lid_def)
    with k Some rejected replayed [OF g Some t] show thesis by (auto split: if_splits)
  qed
qed (rule rejected)

lemma claim_task_inv:
  assumes "claim_task c m = (r, m')" "broker_inv m"
  shows "broker_inv m'" "homed home m \<Longrightarrow> homed home m'" "r = Ok x \<Longrightarrow> keeps m m'"
proof -
  have "broker_inv m' \<and> (homed home m \<longrightarrow> homed home m') \<and> (r = Ok x \<longrightarrow> keeps m m')"
    using assms
  proof (cases rule: claim_task_cases)
    case (new g)
    then have g: "fmlookup (the_groups m) (ct_group_id c) = Some g" "group_generation g = ct_expected_generation c"
      "ct_member_id c \<in> members g" by (simp_all add: authorised_def)
    show ?thesis
      by (rule claim_new_cases [OF new(3) assms(2) new(2) g refl]) (auto simp: keeps_def)
  qed (use assms(2) in auto)
  then show "broker_inv m'" "homed home m \<Longrightarrow> homed home m'" "r = Ok x \<Longrightarrow> keeps m m'" by blast+
qed

section \<open>Renewing and completing\<close>

definition renew_fence :: "RenewTaskLeaseCommand \<Rightarrow> LeaseFence" where
  "renew_fence c = \<lparr>fence_lease_id = rl_lease_id c, fence_owner_member_id = rl_member_id c,
     fence_group_id = rl_group_id c, fence_generation = rl_expected_generation c,
     fence_lease_epoch = rl_expected_lease_epoch c, fence_observed_at_ms = rl_now_ms c\<rparr>"

definition complete_fence :: "CompleteTaskCommand \<Rightarrow> LeaseFence" where
  "complete_fence c = \<lparr>fence_lease_id = cm_lease_id c, fence_owner_member_id = cm_member_id c,
     fence_group_id = cm_group_id c, fence_generation = cm_expected_generation c,
     fence_lease_epoch = cm_expected_lease_epoch c, fence_observed_at_ms = cm_completed_at_ms c\<rparr>"

lemma lease_owner:
  "broker_inv m \<Longrightarrow> lease_of (the_tasks m) tid = Some l \<Longrightarrow>
   \<exists>g. fmlookup (the_groups m) (leased_group_id l) = Some g \<and>
      leased_generation l \<le> group_generation g \<and> leased_owner_member_id l \<in> members g"
  unfolding inv_ex_def leases_owned_def by blast

lemma homed_push:
  assumes "homed home m" "task_namespace_id t' = home tid" "ns = home tid"
    and "\<And>l g. task_lease t' = Some l \<Longrightarrow> fmlookup (the_groups m) (leased_group_id l) = Some g \<Longrightarrow> group_namespace_id g = home tid"
  shows "homed home (push_expiration ns x tid e (put_task tid t' m))"
  using assms unfolding homed_def push_expiration_def
  by (simp del: task_view_simps) blast

lemma renewed_inv:
  assumes inv: "broker_inv m" and t: "fmlookup (the_tasks m) tid = Some t" "task_state t = TaskState.Leased l"
    and l': "l' = l\<lparr>leased_expires_at_ms := x\<rparr>"
    and t': "t' = t\<lparr>task_state := TaskState.Leased l', task_revision := r\<rparr>" "r \<noteq> 0"
    and m': "m' = push_expiration (task_namespace_id t) x tid (leased_lease_epoch l') (put_task tid t' m)"
  shows "broker_inv m'" "keeps m m'"
proof -
  have s': "task_state t' = TaskState.Leased l'" by (simp add: t')
  note look = look_lookup [OF t(1)] task_view_state(2) [OF t(2)] task_view_state(2) [OF s']
    task_lid_key(1) [OF t(2)] task_lid_key(1) [OF s']
  have id: "same_identity t t'" "task_revision t' \<noteq> 0" using t' by (simp_all add: same_identity_def)
  have "lease_of (the_tasks m) tid = Some l" by (simp add: look)
  then obtain g where "fmlookup (the_groups m) (leased_group_id l) = Some g"
      "leased_generation l \<le> group_generation g" "leased_owner_member_id l \<in> members g"
    using lease_owner [OF inv] by blast
  then have "leases_owned {} (fmupd tid t' (the_tasks m)) (the_groups m)"
    using inv by (intro owned_grant [where l' = l' and g = g]) (simp_all add: inv_ex_def look l')
  with inv show "broker_inv m'"
    unfolding inv_ex_def m' push_expiration_def using id
    by (simp add: entities_put [OF _ t(1)] active_same member_same ready_same completed_same
        counts_same look same_identity_def heap_push_def sorted_insort l')
  have "index_complete m \<Longrightarrow> index_complete m'"
    unfolding index_complete_def m' push_expiration_def using look
    by (auto simp: l' simp del: task_view_simps)
  moreover have "homed home m'" if "homed home m" for home
  proof -
    have "task_namespace_id t = home tid" using that t by (auto simp: homed_def look_lookup)
    moreover have "lease_of (the_tasks m) tid = Some l" by (simp add: look)
    with that have "fmlookup (the_groups m) (leased_group_id l) = Some g \<Longrightarrow> group_namespace_id g = home tid" for g
      unfolding homed_def by blast
    ultimately show ?thesis
      unfolding m' using that by (intro homed_push) (auto simp: t' l' task_lease_def)
  qed
  ultimately show "keeps m m'" by (simp add: keeps_def)
qed

lemma renew_task_lease_cases:
  assumes "renew_task_lease c m = (r, m')" "broker_inv m"
  obtains (rejected) e where "r = Err e" "m' = m"
  | (renewed) g t l expires rv trev t' where
    "authorised m (rl_expected_term c) (rl_group_id c) (rl_member_id c) (rl_expected_generation c) g"
    "checked_add (rl_now_ms c) (rl_lease_duration_ms c) = Some expires"
    "Revision_next (st_revision (sm_state m)) = Ok rv" "fmlookup (the_tasks m) (rl_task_id c) = Some t"
    "require_active_lease t (renew_fence c) = Ok l" "Revision_next (task_revision t) = Ok trev"
    "t' = t\<lparr>task_state := TaskState.Leased (l\<lparr>leased_expires_at_ms := expires\<rparr>), task_revision := trev\<rparr>"
    "sm_state m' = (sm_state m)\<lparr>st_tasks := fmupd (rl_task_id c) t' (the_tasks m), st_revision := rv\<rparr>"
    "r = Ok \<lparr>rr_metadata = metadata m', rr_task_id = rl_task_id c, rr_task_revision = trev,
             rr_lease_id = rl_lease_id c, rr_lease_epoch = leased_lease_epoch l,
             rr_lease_expires_at_ms = expires, rr_generation = rl_expected_generation c\<rparr>"
    "broker_inv m'" "keeps m m'"
    "changes m' = (changed_namespaces m, finsert (rl_task_id c) (changed_tasks m), deleted_tasks m, changed_groups m)"
proof (rule check_authorised [OF assms(1) [unfolded renew_task_lease_def, folded renew_fence_def]])
  fix g
  assume g: "authorised m (rl_expected_term c) (rl_group_id c) (rl_member_id c) (rl_expected_generation c) g"
  let ?d = "checked_deadline (rl_now_ms c) (rl_lease_duration_ms c)" and ?n = "Revision_next (st_revision (sm_state m))"
  note result = assms(1) [unfolded renew_task_lease_def, folded renew_fence_def]
  have pre: "require_term m (rl_expected_term c) = Ok ()"
    "require_group_member m (rl_group_id c) (rl_member_id c) (rl_expected_generation c) = Ok (group_namespace_id g, rl_expected_generation c)"
    using g by (simp_all add: authorised_def require_term_def require_group_member_Ok)
  consider e where "?d = Err e" | x e where "?d = Ok x" "?n = Err e"
    | x rv where "?d = Ok x" "?n = Ok rv" "fmlookup (the_tasks m) (rl_task_id c) = None"
    | x rv t e where "?d = Ok x" "?n = Ok rv" "fmlookup (the_tasks m) (rl_task_id c) = Some t"
      "Task_renew t (renew_fence c) x = Err e"
    | x rv t t' where "?d = Ok x" "?n = Ok rv" "fmlookup (the_tasks m) (rl_task_id c) = Some t"
      "Task_renew t (renew_fence c) x = Ok t'"
    by (metis sumE option.exhaust)
  then show thesis
  proof cases
    case (5 x rv t t')
    from 5(4) obtain l trev where l: "require_active_lease t (renew_fence c) = Ok l"
      "Revision_next (task_revision t) = Ok trev"
      "t' = t\<lparr>task_state := TaskState.Leased (l\<lparr>leased_expires_at_ms := x\<rparr>), task_revision := trev\<rparr>"
      by (auto simp: Task_renew_Ok)
    have x: "checked_add (rl_now_ms c) (rl_lease_duration_ms c) = Some x"
      using 5(1) by (simp add: checked_deadline_def ok_or_iff)
    define m1 where "m1 = push_expiration (task_namespace_id t) x (rl_task_id c) (leased_lease_epoch l) (put_task (rl_task_id c) t' m)"
    have inv: "broker_inv m1" "keeps m m1"
      using renewed_inv [OF assms(2) 5(3) _ refl l(3) revision.next_pos [OF l(2)] m1_def [THEN trans]] l(1)
      by (simp_all add: require_active_lease_Ok)
    have m': "m' = set_revision rv (changed_tasks_update (finsert (rl_task_id c)) m1)"
      "r = Ok \<lparr>rr_metadata = metadata m', rr_task_id = rl_task_id c, rr_task_revision = trev,
             rr_lease_id = rl_lease_id c, rr_lease_epoch = leased_lease_epoch l,
             rr_lease_expires_at_ms = x, rr_generation = rl_expected_generation c\<rparr>"
      using result pre 5 l(3) by (auto simp: m1_def Let_def)
    show thesis
    proof (rule renewed [OF g x 5(2,3) l _ m'(2)])
      show "broker_inv m'" "keeps m m'" unfolding m'(1) inv_frame keeps_frame by (rule inv)+
    qed (simp_all add: m' m1_def push_expiration_def changes_def)
  qed (use result pre rejected in \<open>auto\<close>)
qed (rule rejected)

lemma completed_inv:
  assumes inv: "broker_inv m" and t: "fmlookup (the_tasks m) tid = Some t" "task_state t = TaskState.Leased l"
    and t': "t' = t\<lparr>task_state := TaskState.Completed (completed_by l res at), task_revision := r\<rparr>" "r \<noteq> 0"
    and m': "m' = (\<lambda>n. n\<lparr>completed_tasks := heap_push (at, tid) (completed_tasks n)\<rparr>)
      (remove_member_lease_task (leased_group_id l) (leased_owner_member_id l) tid
        ((put_task tid t' m)\<lparr>active_lease_tasks := fmdrop (leased_lease_id l) (active_lease_tasks m)\<rparr>))"
  shows "broker_inv m'" "keeps m m'"
proof -
  have s': "task_state t' = TaskState.Completed (completed_by l res at)" by (simp add: t')
  note look = look_lookup [OF t(1)] task_view_state(2) [OF t(2)] task_view_state(3) [OF s']
    task_lid_key(1) [OF t(2)] task_lid_key(2)
  have id: "same_identity t t'" "task_revision t' \<noteq> 0" using t' by (simp_all add: same_identity_def)
  let ?n = "remove_member_lease_task (leased_group_id l) (leased_owner_member_id l) tid m"
  have m1: "m' = ((put_task tid t' ?n)\<lparr>active_lease_tasks := fmdrop (leased_lease_id l) (active_lease_tasks m),
      completed_tasks := heap_push (at, tid) (completed_tasks m)\<rparr>)"
    unfolding m' remove_member_commute by simp
  have "inv_ex {} {tid} ?n"
    using inv by (intro remove_member_inv) (simp_all add: look)
  moreover have "leases_owned {} (fmupd tid t' (the_tasks m)) (the_groups m)"
    using inv owned_release [of "{}" _ _ t' tid] by (simp add: inv_ex_def look)
  ultimately show "broker_inv m'"
    unfolding inv_ex_def m1 using id member_release [of "{tid}" "the_tasks m" _ tid t']
    by (simp add: entities_put [OF _ t(1)] active_release ready_same completed_push
        counts_same look same_identity_def completed_by_def)
  have "index_complete m \<Longrightarrow> index_complete m'"
    unfolding index_complete_def m1 using look by (auto simp del: task_view_simps)
  moreover have "homed home m \<Longrightarrow> homed home m'" for home
    unfolding homed_def m1 using look by (auto simp: t' simp del: task_view_simps)
  ultimately show "keeps m m'" by (simp add: keeps_def)
qed

lemma put_task_same: "fmlookup (the_tasks m) tid = Some t \<Longrightarrow> put_task tid t m = m"
proof -
  assume "fmlookup (the_tasks m) tid = Some t"
  then have "fmupd tid t (the_tasks m) = the_tasks m" by (intro fmap_ext) auto
  then show ?thesis by (cases m) (cases "sm_state m"; simp)
qed

lemma Task_complete_cases:
  obtains e where "Task_complete t f res = Err e"
  | d where "Task_complete t f res = Ok (CompletionOutcome.AlreadyCompleted, t)"
    "task_state t = TaskState.Completed d" "completed_lease_id d = fence_lease_id f" "completed_result d = res"
  | l r t' where "Task_complete t f res = Ok (CompletionOutcome.Completed, t')"
    "require_active_lease t f = Ok l" "Revision_next (task_revision t) = Ok r"
    "t' = t\<lparr>task_state := TaskState.Completed (completed_by l res (fence_observed_at_ms f)), task_revision := r\<rparr>"
proof (cases "Task_complete t f res")
  case (Inr p)
  obtain oc t' where p: "p = (oc, t')" by (cases p)
  from Inr [unfolded p Task_complete_Ok] show thesis
    using that(2,3) Inr [unfolded p] by auto
qed (rule that(1))

lemma complete_task_cases:
  assumes "complete_task c m = (r, m')" "broker_inv m"
  obtains (rejected) e where "r = Err e" "m' = m"
  | (replayed) g t d where
    "authorised m (cm_expected_term c) (cm_group_id c) (cm_member_id c) (cm_expected_generation c) g"
    "fmlookup (the_tasks m) (cm_task_id c) = Some t" "task_state t = TaskState.Completed d"
    "completed_lease_id d = cm_lease_id c" "completed_result d = cm_result c" "m' = m"
    "r = Ok \<lparr>cd_metadata = metadata m, cd_task_id = cm_task_id c, cd_task_revision = task_revision t,
             cd_status = TaskStatus.Completed\<rparr>"
  | (completed) g t l rv trev t' where
    "authorised m (cm_expected_term c) (cm_group_id c) (cm_member_id c) (cm_expected_generation c) g"
    "Revision_next (st_revision (sm_state m)) = Ok rv" "fmlookup (the_tasks m) (cm_task_id c) = Some t"
    "require_active_lease t (complete_fence c) = Ok l" "Revision_next (task_revision t) = Ok trev"
    "t' = t\<lparr>task_state := TaskState.Completed (completed_by l (cm_result c) (cm_completed_at_ms c)), task_revision := trev\<rparr>"
    "sm_state m' = (sm_state m)\<lparr>st_tasks := fmupd (cm_task_id c) t' (the_tasks m), st_revision := rv\<rparr>"
    "r = Ok \<lparr>cd_metadata = metadata m', cd_task_id = cm_task_id c, cd_task_revision = trev,
             cd_status = TaskStatus.Completed\<rparr>"
    "broker_inv m'" "keeps m m'"
    "changes m' = (changed_namespaces m, finsert (cm_task_id c) (changed_tasks m), deleted_tasks m, changed_groups m)"
proof (rule check_authorised [OF assms(1) [unfolded complete_task_def, folded complete_fence_def]])
  fix g
  assume g: "authorised m (cm_expected_term c) (cm_group_id c) (cm_member_id c) (cm_expected_generation c) g"
  let ?n = "Revision_next (st_revision (sm_state m))"
  note result = assms(1) [unfolded complete_task_def, folded complete_fence_def]
  have pre: "require_term m (cm_expected_term c) = Ok ()"
    "require_group_member m (cm_group_id c) (cm_member_id c) (cm_expected_generation c) = Ok (group_namespace_id g, cm_expected_generation c)"
    using g by (simp_all add: authorised_def require_term_def require_group_member_Ok)
  have fence: "fence_lease_id (complete_fence c) = cm_lease_id c" "fence_observed_at_ms (complete_fence c) = cm_completed_at_ms c"
    by (simp_all add: complete_fence_def)
  consider e where "?n = Err e" | rv where "?n = Ok rv" "fmlookup (the_tasks m) (cm_task_id c) = None"
    | rv t where "?n = Ok rv" "fmlookup (the_tasks m) (cm_task_id c) = Some t"
    by (metis sumE option.exhaust)
  then show thesis
  proof cases
    case t: (3 rv t)
    show thesis
    proof (rule Task_complete_cases [of t "complete_fence c" "cm_result c", unfolded fence])
      fix e assume "Task_complete t (complete_fence c) (cm_result c) = Err e"
      with t result pre show thesis by (intro rejected [of "TaskTransition e"]) auto
    next
      fix d
      assume d: "Task_complete t (complete_fence c) (cm_result c) = Ok (CompletionOutcome.AlreadyCompleted, t)"
        "task_state t = TaskState.Completed d" "completed_lease_id d = cm_lease_id c" "completed_result d = cm_result c"
      with result pre t show thesis
        by (intro replayed [OF g t(2) d(2-4)]) (auto simp: put_task_same [OF t(2)] Let_def Task_status_def)
    next
      fix l trev t'
      assume l: "Task_complete t (complete_fence c) (cm_result c) = Ok (CompletionOutcome.Completed, t')"
        "require_active_lease t (complete_fence c) = Ok l" "Revision_next (task_revision t) = Ok trev"
        "t' = t\<lparr>task_state := TaskState.Completed (completed_by l (cm_result c) (cm_completed_at_ms c)), task_revision := trev\<rparr>"
      define m1 where "m1 = (\<lambda>n. n\<lparr>completed_tasks := heap_push (cm_completed_at_ms c, cm_task_id c) (completed_tasks n)\<rparr>)
        (remove_member_lease_task (leased_group_id l) (leased_owner_member_id l) (cm_task_id c)
          ((put_task (cm_task_id c) t' m)\<lparr>active_lease_tasks := fmdrop (leased_lease_id l) (active_lease_tasks m)\<rparr>))"
      have lease: "task_state t = TaskState.Leased l" "leased_group_id l = cm_group_id c"
        "leased_owner_member_id l = cm_member_id c" "leased_lease_id l = cm_lease_id c"
        using l(2) by (auto simp: require_active_lease_Ok complete_fence_def)
      note inv = completed_inv [OF assms(2) t(2) lease(1) l(4) revision.next_pos [OF l(3)] m1_def]
      have m': "m' = set_revision rv (changed_tasks_update (finsert (cm_task_id c)) m1)"
        "r = Ok \<lparr>cd_metadata = metadata m', cd_task_id = cm_task_id c, cd_task_revision = trev,
               cd_status = TaskStatus.Completed\<rparr>"
        using result pre t l(1,4) lease(2-4) by (auto simp: m1_def Let_def Task_status_def)
      show thesis
      proof (rule completed [OF g t l(2-4) _ m'(2)])
        show "broker_inv m'" "keeps m m'" unfolding m'(1) inv_frame keeps_frame by (rule inv)+
      qed (simp_all add: m' m1_def changes_def)
    qed
  qed (use result pre rejected in \<open>auto\<close>)
qed (rule rejected)

end
