(* ===== verification/Transitions.thy ===== *)
theory Transitions
  imports Prelude
begin

text \<open>
  Reachability of a labelled transition system, and the interface under which a predicate holds in
  every reachable state.  The broker, the session table and the adapters are instances.
\<close>

inductive reach :: "('s \<Rightarrow> bool) \<Rightarrow> ('l \<Rightarrow> 's \<Rightarrow> 's \<Rightarrow> bool) \<Rightarrow> 's \<Rightarrow> bool"
  for init :: "'s \<Rightarrow> bool" and step :: "'l \<Rightarrow> 's \<Rightarrow> 's \<Rightarrow> bool" where
  start: "init s \<Longrightarrow> reach init step s"
| step: "reach init step s \<Longrightarrow> step l s s' \<Longrightarrow> reach init step s'"

inductive run :: "('l \<Rightarrow> 's \<Rightarrow> 's \<Rightarrow> bool) \<Rightarrow> 's \<Rightarrow> 'l list \<Rightarrow> 's \<Rightarrow> bool"
  for step :: "'l \<Rightarrow> 's \<Rightarrow> 's \<Rightarrow> bool" where
  stop: "run step s [] s"
| more: "step l s s' \<Longrightarrow> run step s' ls s'' \<Longrightarrow> run step s (l # ls) s''"

inductive_simps run_Nil [simp]: "run step s [] s'"
inductive_simps run_Cons: "run step s (l # ls) s'"

lemma run_append: "run step s (ls @ ls') s'' \<longleftrightarrow> (\<exists>s'. run step s ls s' \<and> run step s' ls' s'')"
  by (induction ls arbitrary: s) (auto simp: run_Cons)

locale invariant_of =
  fixes init :: "'s \<Rightarrow> bool" and step :: "'l \<Rightarrow> 's \<Rightarrow> 's \<Rightarrow> bool" and inv :: "'s \<Rightarrow> bool"
  assumes init_inv: "init s \<Longrightarrow> inv s"
    and step_inv: "step l s s' \<Longrightarrow> inv s \<Longrightarrow> inv s'"
begin

lemma reach_inv: "reach init step s \<Longrightarrow> inv s"
  by (induction rule: reach.induct) (auto intro: init_inv step_inv)

lemma run_inv: "run step s ls s' \<Longrightarrow> inv s \<Longrightarrow> inv s'"
  by (induction rule: run.induct) (auto intro: step_inv)

lemma reach_run: "run step s ls s' \<Longrightarrow> reach init step s \<Longrightarrow> reach init step s'"
  by (induction rule: run.induct) (auto intro: reach.step)

end

text \<open>
  A quantity that no step decreases, and the runs it is compared over.
\<close>

locale monotone_system =
  fixes step :: "'l \<Rightarrow> 's \<Rightarrow> 's \<Rightarrow> bool" and inv :: "'s \<Rightarrow> bool" and rel :: "'s \<Rightarrow> 's \<Rightarrow> bool"
  assumes step_keeps: "step l s s' \<Longrightarrow> inv s \<Longrightarrow> inv s'"
    and step_rel: "step l s s' \<Longrightarrow> inv s \<Longrightarrow> rel s s'"
    and rel_refl: "rel s s"
    and rel_trans: "rel s s' \<Longrightarrow> rel s' s'' \<Longrightarrow> rel s s''"
begin

lemma run_rel: "run step s ls s' \<Longrightarrow> inv s \<Longrightarrow> rel s s'"
  by (induction rule: run.induct) (blast intro: step_keeps step_rel rel_refl rel_trans)+

end

end
