(* ===== verification/Broker_Apply.thy ===== *)
theory Broker_Apply
  imports Broker_Lease Transitions
begin

text \<open>
  Pruning and terms, and the command dispatcher: the invariant of the broker holds in every state
  that any sequence of commands reaches.
\<close>

section \<open>Pruning\<close>

text \<open>The completed tasks a prune command removes: the oldest ones, up to the bound.\<close>

definition prunable :: "BrokerStateMachine \<Rightarrow> TimestampMs \<Rightarrow> usize \<Rightarrow> (TimestampMs \<times> TaskId) list" where
  "prunable m before n = take n (takeWhile (\<lambda>p. fst p \<le> before) (completed_tasks m))"

lemma completed_namespace_done:
  "done_of ts tid = Some at \<Longrightarrow> completed_namespace ts at tid = ns_of ts tid"
  by (auto simp: completed_namespace_def look_def split: option.splits TaskState.splits)

lemma select_completed_spec:
  assumes "\<forall>(at, tid) \<in> set heap. done_of ts tid = Some at" "length sel \<le> n"
  shows "select_completed ts before n heap sel =
    sel @ map (\<lambda>(at, tid). (at, tid, the (ns_of ts tid)))
      (take (n - length sel) (takeWhile (\<lambda>p. fst p \<le> before) heap))"
  using assms
proof (induction heap arbitrary: sel)
  case (Cons p heap)
  obtain at tid where p: "p = (at, tid)" by (cases p)
  then have d: "done_of ts tid = Some at" using Cons.prems(1) by simp
  then obtain ns where ns: "ns_of ts tid = Some ns" by (auto simp: look_Some)
  show ?case
  proof (cases "length sel < n \<and> at \<le> before")
    case True
    then obtain k where "n - length sel = Suc k" "n - Suc (length sel) = k" by (metis Suc_diff_Suc)
    with True Cons.IH [of "sel @ [(at, tid, ns)]"] Cons.prems p d ns show ?thesis
      by (simp add: completed_namespace_done)
  qed (use p in auto)
qed simp

lemma drop_done_inv:
  assumes inv: "broker_inv m" and heap: "completed_tasks m = (at, tid) # h"
    and t: "fmlookup (the_tasks m) tid = Some t" and ns: "task_namespace_id t = ns"
    and m': "m' = (sm_state_update (st_tasks_update (fmdrop tid)) (m\<lparr>completed_tasks := h\<rparr>))\<lparr>
      namespace_task_counts := fmupd ns (fm_get 0 (namespace_task_counts m) ns - 1) (namespace_task_counts m),
      deleted_tasks := finsert tid (deleted_tasks m)\<rparr>"
  shows "broker_inv m'" "keeps m m'" "0 < fm_get 0 (namespace_task_counts m) ns"
proof -
  have ci: "completed_index (the_tasks m) ((at, tid) # h)" using inv heap by (simp add: inv_ex_def)
  then have d: "done_of (the_tasks m) tid = Some at"
    unfolding completed_index_def by (meson list.set_intros(1))
  note look = look_exclusive(3) [OF d] lid_key_of(2) [OF look_exclusive(3) [OF d, THEN conjunct1]]
  have nsof: "ns_of (the_tasks m) tid = Some ns" using t ns by (simp add: look_lookup)
  have out: "(a, tid) \<notin> set h" for a
  proof
    assume "(a, tid) \<in> set h"
    then have "done_of (the_tasks m) tid = Some a" using ci unfolding completed_index_def by auto
    with d have "(at, tid) \<in> set h" using \<open>(a, tid) \<in> set h\<close> by simp
    with ci show False by (auto simp: completed_index_def)
  qed
  have "completed_index (fmdrop tid (the_tasks m)) h"
    unfolding completed_index_def
  proof (intro conjI allI)
    show "sorted_wrt (<) h" using ci by (simp add: completed_index_def)
    fix a k
    show "(a, k) \<in> set h \<longleftrightarrow> done_of (fmdrop tid (the_tasks m)) k = Some a"
      using ci out by (cases "k = tid") (auto simp: completed_index_def simp del: task_view_simps)
  qed
  moreover have "entities_wf (st_tasks_update (fmdrop tid) (sm_state m))"
    using inv by (auto simp: inv_ex_def entities_wf_def)
  moreover have "task_counts (fmdrop tid (the_tasks m)) (fmupd ns (fm_get 0 (namespace_task_counts m) ns - 1) (namespace_task_counts m))"
    using inv nsof by (intro counts_drop) (simp_all add: inv_ex_def)
  ultimately show "broker_inv m'"
    using inv unfolding m' inv_ex_def
    by (simp add: active_drop member_drop owned_drop ready_drop look)
  show "keeps m m'"
    unfolding keeps_def index_complete_def homed_def m' by auto
  show "0 < fm_get 0 (namespace_task_counts m) ns"
    using inv card_in_ns_drop [OF nsof] by (simp add: inv_ex_def task_counts_def)
qed

lemma prune_loop_step:
  assumes "pruned < target" "completed_tasks m = (at, tid) # h" "at \<le> before"
    "done_of (the_tasks m) tid = Some at" "ns_of (the_tasks m) tid = Some ns"
    "0 < fm_get 0 (namespace_task_counts m) ns"
  shows "prune_loop before target pruned m = prune_loop before target (pruned + 1)
    ((sm_state_update (st_tasks_update (fmdrop tid)) (m\<lparr>completed_tasks := h\<rparr>))\<lparr>
      namespace_task_counts := fmupd ns (fm_get 0 (namespace_task_counts m) ns - 1) (namespace_task_counts m),
      deleted_tasks := finsert tid (deleted_tasks m)\<rparr>)"
proof -
  obtain n where "fmlookup (namespace_task_counts m) ns = Some n" "fm_get 0 (namespace_task_counts m) ns = n"
    using assms(6) by (auto simp: fm_get_def split: option.splits)
  with assms completed_namespace_done [OF assms(4)] show ?thesis
    by (subst prune_loop.simps) (simp add: Let_def leD)
qed

lemma prune_loop_spec:
  assumes "broker_inv m" "completed_tasks m = ds @ rest" "\<forall>p \<in> set ds. fst p \<le> before"
  shows "\<exists>m'. prune_loop before (k + length ds) k m = (Ok (k + length ds), m') \<and> broker_inv m' \<and> keeps m m' \<and>
    sm_state m' = (sm_state m)\<lparr>st_tasks := fmfilter (\<lambda>tid. tid \<notin> snd ` set ds) (the_tasks m)\<rparr> \<and>
    changes m' = (changed_namespaces m, changed_tasks m, deleted_tasks m |\<union>| fset_of_list (map snd ds), changed_groups m)"
  using assms
proof (induction ds arbitrary: k m)
  case Nil
  have "fmfilter (\<lambda>tid. True) (the_tasks m) = the_tasks m" by (intro fmap_ext) simp
  with Nil show ?case by (simp add: prune_loop.simps changes_def)
next
  case (Cons p ds)
  obtain at tid where p: "p = (at, tid)" by (cases p)
  have heap: "completed_tasks m = (at, tid) # ds @ rest" using Cons.prems(2) p by simp
  have "(at, tid) \<in> set (completed_tasks m)" by (simp add: heap)
  then have d: "done_of (the_tasks m) tid = Some at"
    using Cons.prems(1) unfolding inv_ex_def completed_index_def by blast
  then obtain t where t: "fmlookup (the_tasks m) tid = Some t" by (auto simp: look_Some)
  let ?ns = "task_namespace_id t"
  define m1 where "m1 = (sm_state_update (st_tasks_update (fmdrop tid)) (m\<lparr>completed_tasks := ds @ rest\<rparr>))\<lparr>
      namespace_task_counts := fmupd ?ns (fm_get 0 (namespace_task_counts m) ?ns - 1) (namespace_task_counts m),
      deleted_tasks := finsert tid (deleted_tasks m)\<rparr>"
  note di = drop_done_inv [OF Cons.prems(1) heap t refl m1_def]
  have nsof: "ns_of (the_tasks m) tid = Some ?ns" using t by (simp add: look_lookup)
  have le: "at \<le> before" using Cons.prems(3) p by simp
  have loop: "prune_loop before (k + length (p # ds)) k m = prune_loop before (k + 1 + length ds) (k + 1) m1"
    using prune_loop_step [OF _ heap le d nsof di(3), of k "k + length (p # ds)"] by (simp add: m1_def)
  obtain m' where m': "prune_loop before (k + 1 + length ds) (k + 1) m1 = (Ok (k + 1 + length ds), m')"
    "broker_inv m'" "keeps m1 m'"
    "sm_state m' = (sm_state m1)\<lparr>st_tasks := fmfilter (\<lambda>tid. tid \<notin> snd ` set ds) (the_tasks m1)\<rparr>"
    "changes m' = (changed_namespaces m1, changed_tasks m1, deleted_tasks m1 |\<union>| fset_of_list (map snd ds), changed_groups m1)"
    using Cons.IH [OF di(1), of "k + 1"] Cons.prems(3) by (auto simp: m1_def)
  have "fmfilter (\<lambda>x. x \<notin> snd ` set ds) (fmdrop tid (the_tasks m)) = fmfilter (\<lambda>x. x \<notin> snd ` set (p # ds)) (the_tasks m)"
    by (intro fmap_ext) (auto simp: p)
  moreover have s1: "sm_state m1 = (sm_state m)\<lparr>st_tasks := fmdrop tid (the_tasks m)\<rparr>"
    by (simp add: m1_def)
  ultimately have "sm_state m' = (sm_state m)\<lparr>st_tasks := fmfilter (\<lambda>x. x \<notin> snd ` set (p # ds)) (the_tasks m)\<rparr>"
    using m'(4) by (simp add: s1 cong del: fmfilter_cong)
  with m'(1,2,5) loop p keeps_trans [OF di(2) m'(3)] show ?case
    by (simp add: m1_def changes_def)
qed

lemma prunable_take:
  assumes "broker_inv m"
  shows "completed_tasks m = prunable m before n @ drop (length (prunable m before n)) (completed_tasks m)"
    "\<forall>p \<in> set (prunable m before n). fst p \<le> before"
    "select_completed (the_tasks m) before n (completed_tasks m) [] =
       map (\<lambda>(at, tid). (at, tid, the (ns_of (the_tasks m) tid))) (prunable m before n)"
proof -
  let ?h = "completed_tasks m"
  let ?P = "\<lambda>p. fst p \<le> before"
  have "?h = prunable m before n @ (drop n (takeWhile ?P ?h) @ dropWhile ?P ?h)"
    by (simp add: prunable_def flip: append_assoc)
  then show "?h = prunable m before n @ drop (length (prunable m before n)) ?h"
    by (metis append_eq_conv_conj)
  show "\<forall>p \<in> set (prunable m before n). fst p \<le> before"
    unfolding prunable_def by (auto dest!: in_set_takeD set_takeWhileD)
  have "\<forall>(at, tid) \<in> set ?h. done_of (the_tasks m) tid = Some at"
    using assms unfolding inv_ex_def completed_index_def by blast
  then show "select_completed (the_tasks m) before n ?h [] =
       map (\<lambda>(at, tid). (at, tid, the (ns_of (the_tasks m) tid))) (prunable m before n)"
    by (simp add: select_completed_spec prunable_def)
qed

text \<open>No namespace counts fewer tasks than the command removes from it.\<close>

lemma count_namespaces_get:
  "fm_get 0 (count_namespaces sel counts) ns = fm_get 0 counts ns + length (filter (\<lambda>s. snd (snd s) = ns) sel)"
  by (induction sel counts rule: count_namespaces.induct) auto

lemma check_counts_Ok:
  "check_counts counts xs = Ok u \<longleftrightarrow> (\<forall>(ns, n) \<in> set xs. n \<le> fm_get 0 counts ns)"
  by (induction xs rule: check_counts.induct) auto

lemma prune_counts_Ok:
  assumes "broker_inv m" "sel = map (\<lambda>(at, tid). (at, tid, the (ns_of (the_tasks m) tid))) (prunable m before n)"
  shows "check_counts (namespace_task_counts m) (sorted_list_of_fmap (count_namespaces sel fmempty)) = Ok ()"
  unfolding check_counts_Ok
proof (intro ballI, clarify)
  fix ns k
  assume "(ns, k) \<in> set (sorted_list_of_fmap (count_namespaces sel fmempty))"
  then have "fm_get 0 (count_namespaces sel fmempty) ns = k"
    by (simp add: set_entries fm_get_def)
  then have k: "k = length (filter (\<lambda>s. snd (snd s) = ns) sel)"
    by (simp add: count_namespaces_get)
  let ?P = "filter (\<lambda>p. the (ns_of (the_tasks m) (snd p)) = ns) (prunable m before n)"
  have ci: "completed_index (the_tasks m) (completed_tasks m)" using assms(1) by (simp add: inv_ex_def)
  then have dn: "done_of (the_tasks m) tid = Some at" if "(at, tid) \<in> set (prunable m before n)" for at tid
    using that prunable_take(1) [OF assms(1), of before n] unfolding completed_index_def by (metis Un_iff set_append)
  have "distinct (prunable m before n)"
    using ci prunable_take(1) [OF assms(1), of before n]
    unfolding completed_index_def by (metis distinct_append strict_sorted_iff)
  moreover have "inj_on snd (set (prunable m before n))"
    using dn by (intro inj_onI) (metis option.inject prod.collapse)
  ultimately have "distinct (map snd (prunable m before n))" by (simp add: distinct_map)
  then have "distinct (map snd ?P)" by (rule distinct_map_filter)
  then have "length ?P = card (snd ` set ?P)" using distinct_card [of "map snd ?P"] by (simp only: length_map set_map)
  moreover have "snd ` set ?P \<subseteq> {tid. ns_of (the_tasks m) tid = Some ns}"
    using dn by (force simp: look_Some look_lookup)
  then have "card (snd ` set ?P) \<le> card {tid. ns_of (the_tasks m) tid = Some ns}"
    by (intro card_mono) simp_all
  moreover have "k = length ?P"
    unfolding k assms(2) by (simp add: filter_map o_def case_prod_unfold)
  ultimately show "k \<le> fm_get 0 (namespace_task_counts m) ns"
    using assms(1) by (simp add: inv_ex_def task_counts_def)
qed

lemma prune_completed_tasks_cases:
  assumes "prune_completed_tasks c m = (r, m')" "broker_inv m"
  obtains (rejected) e where "r = Err e" "m' = m" "\<And>ns. e \<noteq> TaskCountUnderflow ns"
  | (none) "prunable m (pc_completed_before_ms c) (pc_max_tasks c) = []" "m' = m"
    "r = Ok \<lparr>pr_metadata = metadata m, pr_pruned_count = 0\<rparr>"
  | (pruned) rv ds where "ds = prunable m (pc_completed_before_ms c) (pc_max_tasks c)" "ds \<noteq> []"
    "Revision_next (st_revision (sm_state m)) = Ok rv"
    "sm_state m' = (sm_state m)\<lparr>st_tasks := fmfilter (\<lambda>tid. tid \<notin> snd ` set ds) (the_tasks m), st_revision := rv\<rparr>"
    "r = Ok \<lparr>pr_metadata = metadata m', pr_pruned_count = length ds\<rparr>" "broker_inv m'" "keeps m m'"
    "changes m' = (changed_namespaces m, changed_tasks m, deleted_tasks m |\<union>| fset_of_list (map snd ds), changed_groups m)"
proof -
  let ?ds = "prunable m (pc_completed_before_ms c) (pc_max_tasks c)"
  note sel = prunable_take(3) [OF assms(2), of "pc_completed_before_ms c" "pc_max_tasks c"]
  note counts = prune_counts_Ok [OF assms(2) refl, of "pc_completed_before_ms c" "pc_max_tasks c"]
  note result = assms(1) [unfolded prune_completed_tasks_def Let_def sel]
  consider "pc_max_tasks c = 0" | "pc_max_tasks c \<noteq> 0" "?ds = []"
    | e where "pc_max_tasks c \<noteq> 0" "?ds \<noteq> []" "Revision_next (st_revision (sm_state m)) = Err e"
    | rv where "pc_max_tasks c \<noteq> 0" "?ds \<noteq> []" "Revision_next (st_revision (sm_state m)) = Ok rv"
    by (metis sumE)
  then show thesis
  proof cases
    case (4 rv)
    from prune_loop_spec [OF assms(2) prunable_take(1,2) [OF assms(2), of "pc_completed_before_ms c" "pc_max_tasks c"], of 0]
    obtain m1 where m1: "prune_loop (pc_completed_before_ms c) (length ?ds) 0 m = (Ok (length ?ds), m1)" "broker_inv m1" "keeps m m1"
      "sm_state m1 = (sm_state m)\<lparr>st_tasks := fmfilter (\<lambda>tid. tid \<notin> snd ` set ?ds) (the_tasks m)\<rparr>"
      "changes m1 = (changed_namespaces m, changed_tasks m, deleted_tasks m |\<union>| fset_of_list (map snd ?ds), changed_groups m)"
      by auto
    have m': "m' = set_revision rv m1" "r = Ok \<lparr>pr_metadata = metadata m', pr_pruned_count = length ?ds\<rparr>"
      using result counts m1(1) 4 by auto
    show thesis
    proof (rule pruned [OF refl 4(2,3) _ m'(2)])
      show "broker_inv m'" "keeps m m'" unfolding m'(1) inv_frame keeps_frame by (rule m1)+
    qed (use m1(4,5) in \<open>simp_all add: m'(1) changes_def\<close>)
  next
    case (3 e)
    with result counts show thesis by (intro rejected [of "StateMachineError.FencingValue e"]) auto
  next
    case 1
    with result show thesis by (intro rejected [of "InvalidCapacity ''max_tasks''"]) auto
  next
    case 2
    with result show thesis by (intro none) auto
  qed
qed

section \<open>Terms\<close>

lemma advance_term_cases:
  assumes "advance_term c m = (r, m')" "broker_inv m"
  obtains (rejected) e where "r = Err e" "m' = m"
  | (advanced) rv where "st_term (sm_state m) = at_expected_term c" "st_term (sm_state m) < at_new_term c"
    "Revision_next (st_revision (sm_state m)) = Ok rv"
    "m' = m\<lparr>sm_state := (sm_state m)\<lparr>st_term := at_new_term c, st_revision := rv\<rparr>\<rparr>"
    "r = Ok \<lparr>ta_metadata = metadata m'\<rparr>" "broker_inv m'" "keeps m m'"
proof -
  consider "st_term (sm_state m) \<noteq> at_expected_term c"
    | "st_term (sm_state m) = at_expected_term c" "\<not> st_term (sm_state m) < at_new_term c"
    | e where "st_term (sm_state m) = at_expected_term c" "st_term (sm_state m) < at_new_term c"
      "Revision_next (st_revision (sm_state m)) = Err e"
    | rv where "st_term (sm_state m) = at_expected_term c" "st_term (sm_state m) < at_new_term c"
      "Revision_next (st_revision (sm_state m)) = Ok rv"
    by (metis sumE)
  then show thesis
  proof cases
    case (4 rv)
    let ?m = "m\<lparr>sm_state := (sm_state m)\<lparr>st_term := at_new_term c, st_revision := rv\<rparr>\<rparr>"
    have "at_new_term c \<noteq> 0" using 4(2) by auto
    then have "entities_wf (sm_state ?m)"
      using assms(2) by (auto simp: inv_ex_def entities_wf_def)
    then have "broker_inv ?m" "keeps m ?m"
      using assms(2) by (simp_all add: inv_ex_def keeps_def index_complete_def homed_def)
    moreover have "\<not> at_new_term c \<le> st_term (sm_state m)" using 4(2) by simp
    then have "m' = ?m" "r = Ok \<lparr>ta_metadata = metadata m'\<rparr>"
      using 4(1,3) assms(1) by (auto simp: advance_term_def require_term_def Let_def simp del: not_le)
    ultimately show thesis by (intro advanced [OF 4]) simp_all
  qed (use assms(1) rejected in \<open>auto simp: advance_term_def require_term_def not_less split: if_splits\<close>)
qed

section \<open>Commands\<close>

lemma renew_task_lease_inv:
  assumes "renew_task_lease c m = (r, m')" "broker_inv m"
  shows "broker_inv m' \<and> keeps m m'"
  by (rule renew_task_lease_cases [OF assms]) (simp_all add: assms(2))

lemma complete_task_inv:
  assumes "complete_task c m = (r, m')" "broker_inv m"
  shows "broker_inv m' \<and> keeps m m'"
  by (rule complete_task_cases [OF assms]) (simp_all add: assms(2))

lemma prune_completed_tasks_inv:
  assumes "prune_completed_tasks c m = (r, m')" "broker_inv m"
  shows "broker_inv m' \<and> keeps m m'"
  by (rule prune_completed_tasks_cases [OF assms]) (simp_all add: assms(2))

lemma advance_term_inv:
  assumes "advance_term c m = (r, m')" "broker_inv m"
  shows "broker_inv m' \<and> keeps m m'"
  by (rule advance_term_cases [OF assms]) (simp_all add: assms(2))

lemma snd_applied [simp]: "snd (applied f h) = snd h"
  by (cases h; cases "fst h") (auto simp: applied_def)

lemma fst_applied: "fst (applied f h) = (case fst h of Err e \<Rightarrow> Err e
     | Ok x \<Rightarrow> Ok \<lparr>am_result = f x, am_changes = take_changes (snd h)\<rparr>)"
  by (cases h; cases "fst h") (auto simp: applied_def)

lemma clear_changes_frame [simp]:
  "inv_ex P U (clear_changes m) = inv_ex P U m" "keeps m' (clear_changes m) = keeps m' m"
  "keeps (clear_changes m) m' = keeps m m'"
  "sm_state (clear_changes m) = sm_state m" "changes (clear_changes m) = ({||}, {||}, {||}, {||})"
  by (simp_all add: clear_changes_def inv_ex_def keeps_def index_complete_def homed_def changes_def)

definition publishes_home :: "(TaskId \<Rightarrow> NamespaceId) \<Rightarrow> BrokerCommand \<Rightarrow> bool" where
  "publishes_home home c \<longleftrightarrow> (case c of PublishTask p \<Rightarrow> pt_namespace_id p = home (pt_task_id p) | _ \<Rightarrow> True)"

definition is_claim :: "BrokerCommand \<Rightarrow> bool" where
  "is_claim c \<longleftrightarrow> (\<exists>p. c = ClaimTask p)"

lemma apply_command_inv:
  assumes "broker_inv m"
  shows "broker_inv (snd (apply_command c m)) \<and>
    (publishes_home home c \<longrightarrow> homed home m \<longrightarrow> homed home (snd (apply_command c m))) \<and>
    (\<not> is_claim c \<or> isl (fst (apply_command c m)) = False \<longrightarrow> index_complete m \<longrightarrow> index_complete (snd (apply_command c m)))"
proof (cases c)
  case (EnsureNamespace x)
  then show ?thesis
    using ensure_namespace_inv [OF surjective_pairing assms, of x] by (simp add: keeps_def)
next
  case (PublishTask x)
  then show ?thesis
    using publish_task_inv [OF surjective_pairing assms, of x home] by (simp add: publishes_home_def)
next
  case (EnsureConsumerGroup x)
  then show ?thesis
    using ensure_consumer_group_inv [OF surjective_pairing assms, of x] by (simp add: keeps_def)
next
  case (JoinConsumerGroup x)
  then show ?thesis
    using join_consumer_group_inv [OF surjective_pairing assms, of x] by (simp add: keeps_def)
next
  case (Heartbeat x)
  then show ?thesis
    using heartbeat_inv [OF surjective_pairing assms, of x] by (simp add: keeps_def)
next
  case (LeaveConsumerGroup x)
  then show ?thesis
    using leave_consumer_group_inv [OF surjective_pairing assms, of x] by (simp add: keeps_def)
next
  case (ReapStaleMembers x)
  then show ?thesis
    using reap_stale_members_inv [OF surjective_pairing assms, of x] by (simp add: keeps_def)
next
  case (ClaimTask x)
  then show ?thesis
    using claim_task_inv [OF surjective_pairing [of "claim_task x m"] assms]
    by (auto simp: keeps_def is_claim_def fst_applied split: sum.splits)
next
  case (RenewTaskLease x)
  then show ?thesis
    using renew_task_lease_inv [OF surjective_pairing assms, of x] by (simp add: keeps_def)
next
  case (CompleteTask x)
  then show ?thesis
    using complete_task_inv [OF surjective_pairing assms, of x] by (simp add: keeps_def)
next
  case (PruneCompletedTasks x)
  then show ?thesis
    using prune_completed_tasks_inv [OF surjective_pairing assms, of x] by (simp add: keeps_def)
next
  case (AdvanceTerm x)
  then show ?thesis
    using advance_term_inv [OF surjective_pairing assms, of x] by (simp add: keeps_def)
qed

section \<open>Reachable brokers\<close>

definition broker_init :: "BrokerStateMachine \<Rightarrow> bool" where
  "broker_init m \<longleftrightarrow> m = BrokerStateMachine_default"

definition broker_step :: "BrokerCommand \<Rightarrow> BrokerStateMachine \<Rightarrow> BrokerStateMachine \<Rightarrow> bool" where
  "broker_step c m m' \<longleftrightarrow> snd (broker_apply c m) = m'"

text \<open>
  Steps that publish every task in its home namespace, and in which a claim that fails is refused at
  once: for its term, membership or generation, or because its lease identifier is in use.
\<close>

definition claim_refused :: "ClaimTaskCommand \<Rightarrow> BrokerStateMachine \<Rightarrow> bool" where
  "claim_refused c m \<longleftrightarrow> isl (require_term m (ct_expected_term c)) \<or>
     isl (require_group_member m (ct_group_id c) (ct_member_id c) (ct_expected_generation c)) \<or>
     fmlookup (active_lease_tasks m) (ct_lease_id c) \<noteq> None"

definition fails_cleanly :: "BrokerCommand \<Rightarrow> BrokerStateMachine \<Rightarrow> bool" where
  "fails_cleanly c m \<longleftrightarrow> (case c of ClaimTask p \<Rightarrow> isl (fst (broker_apply c m)) \<longrightarrow> claim_refused p m | _ \<Rightarrow> True)"

lemma claim_refused_clear [simp]: "claim_refused c (clear_changes m) = claim_refused c m"
  by (simp add: claim_refused_def clear_changes_def require_term_def require_group_member_def)

lemma claim_refused_keeps: "claim_refused c m \<Longrightarrow> snd (claim_task c m) = m"
  by (auto simp: claim_refused_def claim_task_parts check_r_def ok_or_def split: sum.splits option.splits TaskState.splits)

definition orderly_step :: "(TaskId \<Rightarrow> NamespaceId) \<Rightarrow> BrokerCommand \<Rightarrow> BrokerStateMachine \<Rightarrow> BrokerStateMachine \<Rightarrow> bool" where
  "orderly_step home c m m' \<longleftrightarrow> broker_step c m m' \<and> publishes_home home c \<and> fails_cleanly c m"

definition orderly :: "(TaskId \<Rightarrow> NamespaceId) \<Rightarrow> BrokerStateMachine \<Rightarrow> bool" where
  "orderly home m \<longleftrightarrow> broker_inv m \<and> homed home m \<and> index_complete m"

lemma clear_changes_other [simp]:
  "homed home (clear_changes m) = homed home m" "index_complete (clear_changes m) = index_complete m"
  by (simp_all add: clear_changes_def homed_def index_complete_def)

interpretation bk: invariant_of broker_init broker_step broker_inv
proof unfold_locales
  show "broker_init m \<Longrightarrow> broker_inv m" for m
    by (simp add: broker_init_def default_inv)
  show "broker_step c m m' \<Longrightarrow> broker_inv m \<Longrightarrow> broker_inv m'" for c m m'
    using apply_command_inv [of "clear_changes m" c] by (auto simp: broker_step_def broker_apply_def)
qed

interpretation bo: invariant_of broker_init "orderly_step home" "orderly home" for home
proof unfold_locales
  show "broker_init m \<Longrightarrow> orderly home m" for m
    by (simp add: broker_init_def orderly_def default_inv)
  show "orderly home m'" if "orderly_step home c m m'" "orderly home m" for c m m'
  proof -
    from that(2) have inv: "broker_inv m" "homed home m" "index_complete m" by (simp_all add: orderly_def)
    have keep: "broker_inv m'" "homed home m'" "\<not> is_claim c \<or> isl (fst (broker_apply c m)) = False \<Longrightarrow> index_complete m'"
      using that(1) inv apply_command_inv [of "clear_changes m" c home]
      by (auto simp: orderly_step_def broker_step_def broker_apply_def)
    moreover have "m' = clear_changes m" if "is_claim c" "isl (fst (broker_apply c m))"
    proof -
      from that obtain p where p: "c = ClaimTask p" by (auto simp: is_claim_def)
      with that \<open>orderly_step home c m m'\<close> have "claim_refused p (clear_changes m)"
        by (simp add: orderly_step_def fails_cleanly_def)
      from claim_refused_keeps [OF this] p \<open>orderly_step home c m m'\<close> show ?thesis
        by (simp add: orderly_step_def broker_step_def broker_apply_def snd_applied)
    qed
    ultimately have "index_complete m'"
      using inv(3) by (cases "is_claim c \<and> isl (fst (broker_apply c m))") auto
    with keep show ?thesis by (simp add: orderly_def)
  qed
qed

end
