(* ===== verification/Broker_Effects.thy ===== *)
theory Broker_Effects
  imports Broker_Apply
begin

text \<open>
  What any command does to the authoritative state: tasks move along their life cycle or are
  removed when completed, generations and the term never go back, the revision advances by one
  exactly when something changes, and the change set names every entity that differs.
\<close>

section \<open>Relations between states\<close>

definition task_moves :: "TaskId fset \<Rightarrow> (TaskId, Task) fmap \<Rightarrow> (TaskId, Task) fmap \<Rightarrow> bool" where
  "task_moves deleted ts ts' \<longleftrightarrow> (\<forall>tid t. fmlookup ts tid = Some t \<longrightarrow>
     (case fmlookup ts' tid of
        Some t' \<Rightarrow> task_step\<^sup>*\<^sup>* t t'
      | None \<Rightarrow> tid |\<in>| deleted \<and> (\<exists>c. task_state t = TaskState.Completed c)))"

definition group_grows :: "ConsumerGroup \<Rightarrow> ConsumerGroup \<Rightarrow> bool" where
  "group_grows g g' \<longleftrightarrow> group_namespace_id g' = group_namespace_id g \<and> group_revision g \<le> group_revision g' \<and>
     (members g' = members g \<and> group_generation g' = group_generation g \<or>
      members g' \<noteq> members g \<and> group_generation g < group_generation g')"

definition groups_grow :: "group_registry \<Rightarrow> group_registry \<Rightarrow> bool" where
  "groups_grow gs gs' \<longleftrightarrow> (\<forall>gid g. fmlookup gs gid = Some g \<longrightarrow>
     (\<exists>g'. fmlookup gs' gid = Some g' \<and> group_grows g g'))"

definition extends :: "('k, 'v) fmap \<Rightarrow> ('k, 'v) fmap \<Rightarrow> bool" where
  "extends f f' \<longleftrightarrow> (\<forall>k v. fmlookup f k = Some v \<longrightarrow> fmlookup f' k = Some v)"

definition same_outside :: "'k fset \<Rightarrow> ('k, 'v) fmap \<Rightarrow> ('k, 'v) fmap \<Rightarrow> bool" where
  "same_outside K f f' \<longleftrightarrow> (\<forall>k. k |\<notin>| K \<longrightarrow> fmlookup f' k = fmlookup f k)"

text \<open>The change set covers the difference, and what it names exists afterwards or is gone.\<close>

definition recorded :: "BrokerStateMachine \<Rightarrow> BrokerStateMachine \<Rightarrow> bool" where
  "recorded m m' \<longleftrightarrow>
     same_outside (changed_namespaces m') (st_namespaces (sm_state m)) (st_namespaces (sm_state m')) \<and>
     same_outside (changed_tasks m' |\<union>| deleted_tasks m') (the_tasks m) (the_tasks m') \<and>
     same_outside (changed_groups m') (the_groups m) (the_groups m') \<and>
     changed_namespaces m' |\<subseteq>| fmdom (st_namespaces (sm_state m')) \<and>
     changed_tasks m' |\<subseteq>| fmdom (the_tasks m') \<and> changed_groups m' |\<subseteq>| fmdom (the_groups m') \<and>
     deleted_tasks m' |\<inter>| fmdom (the_tasks m') = {||} \<and> deleted_tasks m' |\<subseteq>| fmdom (the_tasks m)"

definition effect :: "(StateMachineError + 'a) \<Rightarrow> BrokerStateMachine \<Rightarrow> BrokerStateMachine \<Rightarrow> bool" where
  "effect r m m' \<longleftrightarrow> task_moves (deleted_tasks m') (the_tasks m) (the_tasks m') \<and> groups_grow (the_groups m) (the_groups m') \<and>
     extends (st_namespaces (sm_state m)) (st_namespaces (sm_state m')) \<and>
     st_term (sm_state m) \<le> st_term (sm_state m') \<and>
     (\<not> isl r \<longrightarrow> recorded m m' \<and>
        (sm_state m' = sm_state m \<or>
         Revision_next (st_revision (sm_state m)) = Ok (st_revision (sm_state m'))))"

abbreviation no_changes :: "BrokerStateMachine \<Rightarrow> bool" where
  "no_changes m \<equiv> changes m = ({||}, {||}, {||}, {||})"

lemma task_moves_refl [simp]: "task_moves D ts ts"
  by (simp add: task_moves_def)

lemma group_grows_refl [simp]: "group_grows g g"
  by (simp add: group_grows_def)

lemma groups_grow_refl [simp]: "groups_grow gs gs"
  by (simp add: groups_grow_def)

lemma extends_refl [simp]: "extends f f"
  by (simp add: extends_def)

lemma extends_new [simp]: "fmlookup f k = None \<Longrightarrow> extends f (fmupd k v f)"
  by (auto simp: extends_def)

lemma groups_grow_upd: "fmlookup gs gid = Some g \<Longrightarrow> group_grows g g' \<Longrightarrow> groups_grow gs (fmupd gid g' gs)"
  by (auto simp: groups_grow_def)

lemma groups_grow_new: "fmlookup gs gid = None \<Longrightarrow> groups_grow gs (fmupd gid g' gs)"
  by (auto simp: groups_grow_def)

lemma same_outside_refl [simp]: "same_outside K f f"
  by (simp add: same_outside_def)

lemma same_outside_upd [simp]: "k |\<in>| K \<Longrightarrow> same_outside K f (fmupd k v f)"
  by (auto simp: same_outside_def)

lemma recorded_refl: "no_changes m \<Longrightarrow> recorded m m"
  by (simp add: recorded_def changes_def)

lemma effect_refl: "no_changes m \<Longrightarrow> effect r m m"
  by (simp add: effect_def recorded_refl)

lemma task_moves_upd:
  "fmlookup ts tid = Some t \<Longrightarrow> task_step t t' \<Longrightarrow> task_moves D ts (fmupd tid t' ts)"
  by (auto simp: task_moves_def split: option.splits)

lemma task_moves_new: "fmlookup ts tid = None \<Longrightarrow> task_moves D ts (fmupd tid t' ts)"
  by (auto simp: task_moves_def split: option.splits)

lemma task_moves_requeue:
  assumes "fset T \<subseteq> {tid. can_advance ts tid}" "\<And>tid. tid |\<in>| T \<Longrightarrow> lease_of ts tid \<noteq> None"
  shows "task_moves D ts (requeue_set T ts)"
  unfolding task_moves_def
proof (intro allI impI)
  fix tid t
  assume "fmlookup ts tid = Some t"
  from requeue_set_step [OF assms this] obtain t' where "fmlookup (requeue_set T ts) tid = Some t'" "task_step\<^sup>*\<^sup>* t t'" .
  then show "case fmlookup (requeue_set T ts) tid of None \<Rightarrow> tid |\<in>| D \<and> (\<exists>c. task_state t = TaskState.Completed c)
      | Some t' \<Rightarrow> task_step\<^sup>*\<^sup>* t t'" by simp
qed

lemma task_moves_step:
  assumes "task_moves D ts ts'" "fmlookup ts' tid = Some t" "task_step t t'"
  shows "task_moves D ts (fmupd tid t' ts')"
  using assms by (force simp: task_moves_def split: option.splits intro: rtranclp.rtrancl_into_rtrancl)

lemma same_outside_requeue [simp]: "same_outside (T |\<union>| K) ts (requeue_set T ts)"
  by (simp add: same_outside_def)

lemma requeue_set_dom [simp]: "fmdom (requeue_set T ts) = fmdom ts"
  by (simp add: requeue_set_def)

section \<open>Effects of the handlers\<close>

lemma ensure_namespace_effect:
  assumes "ensure_namespace c m = (r, m')" "no_changes m"
  shows "effect r m m' \<and> (isl r \<longrightarrow> m' = m)"
  using assms(1)
proof (cases rule: ensure_namespace_cases)
  case (added rv)
  then show ?thesis using assms(2) by (auto simp: effect_def recorded_def changes_def)
qed (use effect_refl [OF assms(2)] in simp_all)

lemma publish_task_effect:
  assumes "publish_task c m = (r, m')" "no_changes m"
  shows "effect r m m' \<and> (isl r \<longrightarrow> m' = m)"
  using assms(1)
proof (cases rule: publish_task_cases)
  case (published rv)
  then show ?thesis
    using assms(2) by (auto simp: effect_def recorded_def changes_def push_ready_def task_moves_new)
qed (use effect_refl [OF assms(2)] in simp_all)

lemma ensure_consumer_group_effect:
  assumes "ensure_consumer_group c m = (r, m')" "no_changes m"
  shows "effect r m m' \<and> (isl r \<longrightarrow> m' = m)"
  using assms(1)
proof (cases rule: ensure_consumer_group_cases)
  case (added rv)
  then show ?thesis
    using assms(2) by (auto simp: effect_def recorded_def changes_def groups_grow_new)
qed (use effect_refl [OF assms(2)] in simp_all)

lemma fmupd_same: "fmlookup f k = Some v \<Longrightarrow> fmupd k v f = f"
  by (intro fmap_ext) auto

lemma group_op_effect:
  assumes "no_changes m" "fmlookup (the_groups m) gid = Some g" "group_grows g g'" "group_id g' = gid"
    and "Revision_next (st_revision (sm_state m)) = Ok rv" "\<not> b \<Longrightarrow> g' = g"
    and "m' = (let m1 = set_groups (fmupd gid g' (the_groups m)) m in
       if b then changed_groups_update (finsert (group_id g')) (set_revision rv m1) else m1)"
  shows "effect r m m'"
proof (cases b)
  case True
  then show ?thesis
    using assms by (auto simp: effect_def recorded_def changes_def groups_grow_upd)
next
  case False
  with assms have "sm_state m' = sm_state m" "no_changes m'"
    by (simp_all add: fmupd_same changes_def)
  with assms(1) show ?thesis by (simp add: effect_def recorded_def changes_def)
qed

lemma touched_revision: "touched mid now g g' \<Longrightarrow> group_revision g \<le> group_revision g'"
  by (auto simp: touched_def dest: revision.next_le)

lemma touched_grows: "touched mid now g g' \<Longrightarrow> group_grows g g'"
  using touched_members [of mid now g g'] touched_fields [of mid now g g'] touched_revision [of mid now g g']
  by (simp add: group_grows_def)

lemma join_revision: "ConsumerGroup_join g mid caps now n = Ok (oc, g') \<Longrightarrow> group_revision g \<le> group_revision g'"
  using touched_revision [of mid now g g'] by (auto simp: join_Ok dest: revision.next_le split: option.splits)

lemma join_consumer_group_effect:
  assumes "join_consumer_group c m = (r, m')" "broker_inv m" "no_changes m"
  shows "effect r m m' \<and> (isl r \<longrightarrow> m' = m)"
  using assms(1)
proof (cases rule: join_consumer_group_cases)
  case (2 rv g oc g')
  have "group_grows g g'"
    using join_fields(2) [OF 2(3)] join_generation [OF 2(3)] join_revision [OF 2(3)]
    by (auto simp: group_grows_def order_less_le)
  moreover have "oc = JoinOutcome.Unchanged \<Longrightarrow> g' = g"
    using 2(3) by (auto simp: join_Ok split: option.splits)
  ultimately have "effect r m m'"
    using group_entity(2) [OF assms(2) 2(2)] join_fields(1) [OF 2(3)]
    by (intro group_op_effect [OF assms(3) 2(2) _ _ 2(1) _ 2(4)]) auto
  with 2(5) show ?thesis by simp
qed (use effect_refl [OF assms(3)] in simp)

lemma heartbeat_effect:
  assumes "heartbeat c m = (r, m')" "broker_inv m" "no_changes m"
  shows "effect r m m' \<and> (isl r \<longrightarrow> m' = m)"
  using assms(1)
proof (cases rule: heartbeat_cases)
  case (2 rv g oc g' member)
  have "group_grows g g'"
    using 2(3) touched_grows [of _ _ g g'] by (auto simp: heartbeat_Ok)
  moreover have "oc \<noteq> Updated \<Longrightarrow> g' = g"
    using 2(3) by (auto simp: heartbeat_Ok)
  ultimately have "effect r m m'"
    using group_entity(2) [OF assms(2) 2(2)] heartbeat_fields(1) [OF 2(3)]
    by (intro group_op_effect [OF assms(3) 2(2) _ _ 2(1) _ 2(4)]) auto
  with 2(6) show ?thesis by simp
qed (use effect_refl [OF assms(3)] in simp)

lemma key_lease: "key_of ts tid = Some k \<Longrightarrow> lease_of ts tid \<noteq> None"
  by (auto simp: look_Some task_key_def)

lemma leave_grows:
  assumes "ConsumerGroup_leave g mid gen = Ok (mem, g')"
  shows "group_grows g g'"
proof -
  have "group_namespace_id g' = group_namespace_id g" "group_revision g \<le> group_revision g'"
    using assms by (auto simp: leave_Ok dest: revision.next_le)
  moreover have "members g' \<noteq> members g" using leave_generation(1,2) [OF assms] by blast
  ultimately show ?thesis using leave_generation(3) [OF assms] by (simp add: group_grows_def)
qed

lemma leave_consumer_group_effect:
  assumes "leave_consumer_group c m = (r, m')" "broker_inv m" "no_changes m"
  shows "effect r m m' \<and> (isl r \<longrightarrow> m' = m)"
  using assms(1,2)
proof (cases rule: leave_consumer_group_cases)
  case (2 rv g mem g')
  let ?T = "member_tasks (sm_state m) (lg_group_id c, lg_member_id c)"
  have "group_grows g g'"
    using 2(3) by (rule leave_grows)
  moreover have "task_moves (deleted_tasks m') (the_tasks m) (requeue_set ?T (the_tasks m))"
    using 2(9) by (intro task_moves_requeue) (auto dest: key_lease)
  moreover have "?T |\<subseteq>| fmdom (the_tasks m)"
    by (auto simp: look_Some intro: fmdomI)
  ultimately show ?thesis
    using 2 assms(3) by (auto simp: effect_def recorded_def changes_def groups_grow_upd same_outside_requeue [where K = "{||}", simplified])
qed (use effect_refl [OF assms(3)] in simp)

lemma shrink_grows:
  assumes "Generation_next (group_generation g) = Ok gen" "Revision_next (group_revision g) = Ok r"
    and "mids \<noteq> []" "set mids \<subseteq> members g"
  shows "group_grows g (shrink mids g)"
proof -
  obtain mid where "mid \<in> set mids" "mid \<in> members g"
    using assms(3,4) by (metis list.set_intros(1) neq_Nil_conv subsetD)
  then have "members (shrink mids g) \<noteq> members g" by auto
  then show ?thesis
    using generation.next_plus [OF assms(1)] generation.next_less [OF assms(1)]
      revision.next_plus [OF assms(2)] revision.next_le [OF assms(2)]
    by (simp add: group_grows_def) (simp add: shrink_def)
qed

lemma reaped_groups_dom [simp]: "fmdom (reaped_groups cs gs) = fmdom gs"
  by (simp add: reaped_groups_def)

lemma reap_stale_members_effect:
  assumes "reap_stale_members c m = (r, m')" "broker_inv m" "no_changes m"
  shows "effect r m m' \<and> (isl r \<longrightarrow> m' = m)"
  using assms(1,2)
proof (cases rule: reap_stale_members_cases)
  case (3 rv cs)
  let ?T = "evicted (sm_state m) (snd ` set cs)"
  have wf: "groups_wf (the_groups m)"
    using assms(2) by (auto simp: groups_wf_def inv_ex_def entities_wf_def)
  have "group_grows g (if of_group gid cs = [] then g else shrink (of_group gid cs) g)"
    if g: "fmlookup (the_groups m) gid = Some g" for gid g
  proof (cases "of_group gid cs = []")
    case False
    then have "gid \<in> fst ` snd ` set cs" by (simp add: of_group_empty)
    from 3(10) [OF this g] obtain gen r where "Generation_next (group_generation g) = Ok gen"
      "Revision_next (group_revision g) = Ok r" by blast
    moreover have "set (of_group gid cs) \<subseteq> members g"
      using g 3(1) by (auto simp: in_of_group fmlookup_dom_iff elim!: set_stalest [OF wf])
    ultimately show ?thesis using False by (simp add: shrink_grows)
  qed simp
  then have "groups_grow (the_groups m) (reaped_groups cs (the_groups m))"
    by (auto simp: groups_grow_def reaped_groups_def)
  moreover have "task_moves (deleted_tasks m') (the_tasks m) (requeue_set ?T (the_tasks m))"
    using 3(9) by (intro task_moves_requeue) (auto dest: key_lease)
  moreover have "?T |\<subseteq>| fmdom (the_tasks m)"
    by (auto simp: look_Some intro: fmdomI)
  moreover have "same_outside (fset_of_list (map (fst \<circ> snd) cs)) (the_groups m) (reaped_groups cs (the_groups m))"
    by (auto simp: same_outside_def reaped_groups_def of_group_empty fset_of_list_elem image_iff option.map_ident
        intro!: option.map_cong0 [where g = id, unfolded option.map_id0 id_apply])
  moreover have "fset_of_list (map (fst \<circ> snd) cs) |\<subseteq>| fmdom (the_groups m)"
    using 3(1) by (auto simp: fset_of_list_elem fmlookup_dom_iff elim!: set_stalest [OF wf])
  ultimately show ?thesis
    using 3 assms(3) by (auto simp: effect_def recorded_def changes_def groups_grow_upd same_outside_requeue [where K = "{||}", simplified])
qed (use effect_refl [OF assms(3)] in simp_all)

lemma expired_leased: "tid \<in> expired_in m ns now \<Longrightarrow> lease_of (the_tasks m) tid \<noteq> None"
  by (auto dest!: expired_in_lease simp: expired_lease_def)

lemma recovered_moves:
  assumes "fset T \<subseteq> expired_in m ns now" "fset T \<subseteq> {tid. can_advance (the_tasks m) tid}"
  shows "task_moves D (the_tasks m) (requeue_set T (the_tasks m))" "T |\<subseteq>| fmdom (the_tasks m)"
proof -
  show "task_moves D (the_tasks m) (requeue_set T (the_tasks m))"
    using assms(1) expired_leased by (intro task_moves_requeue [OF assms(2)]) blast
  show "T |\<subseteq>| fmdom (the_tasks m)"
    using assms(2) by (auto simp: can_advance_def intro: fmdomI)
qed

lemma claim_new_effect:
  assumes "claim_new c ns (ct_expected_generation c) m = (r, m')" "broker_inv m" "no_changes m"
    and "fmlookup (active_lease_tasks m) (ct_lease_id c) = None"
    and "fmlookup (the_groups m) (ct_group_id c) = Some g" "group_generation g = ct_expected_generation c"
      "ct_member_id c \<in> members g" "ns = group_namespace_id g"
  shows "effect r m m'"
  using assms(1,2,4-8)
proof (cases rule: claim_new_cases)
  case (failed e T)
  then show ?thesis using recovered_moves(1) [OF failed(5,6)] by (simp add: effect_def)
next
  case (empty T m1 rv)
  have T: "fset T \<subseteq> expired_in m ns (ct_now_ms c)" using empty(2) by simp
  have "sm_state m' = sm_state m" if "T = {||}" using empty(5,6) that by auto
  then show ?thesis
    using empty(5,6,10) recovered_moves [OF T empty(3)] assms(3)
    by (auto simp: effect_def recorded_def changes_def same_outside_requeue [where K = "{||}", simplified])
next
  case (granted T m1 created tid h t q expires rv e trev t')
  have T: "fset T \<subseteq> expired_in m ns (ct_now_ms c)" using granted(2) by simp
  note mv = recovered_moves [OF T granted(3)]
  have "Task_claim t \<lparr>grant_lease_id = ct_lease_id c, grant_owner_member_id = ct_member_id c,
        grant_group_id = ct_group_id c, grant_generation = ct_expected_generation c,
        grant_expires_at_ms = expires\<rparr> = Ok t'"
    using granted(8-11) by (auto simp: Task_claim_Ok claimed_def)
  then have "task_moves (deleted_tasks m') (the_tasks m) (fmupd tid t' (requeue_set T (the_tasks m)))"
    by (intro task_moves_step [OF mv(1) granted(7)]) (rule task_step.claim)
  moreover have "same_outside (finsert tid T) (the_tasks m) (fmupd tid t' (requeue_set T (the_tasks m)))"
    by (simp add: same_outside_def)
  ultimately show ?thesis
    using granted(6,12,16) mv(2) assms(3)
    by (auto simp: effect_def recorded_def changes_def)
qed

lemma claim_task_effect:
  assumes "claim_task c m = (r, m')" "broker_inv m" "no_changes m"
  shows "effect r m m'"
  using assms(1,2)
proof (cases rule: claim_task_cases)
  case (new g)
  then show ?thesis
    by (intro claim_new_effect [OF new(3) assms(2,3) new(2), of g]) (simp_all add: authorised_def)
qed (use effect_refl [OF assms(3)] in simp_all)

lemma task_op_effect:
  assumes "no_changes m" "fmlookup (the_tasks m) tid = Some t" "task_step t t'"
    and "Revision_next (st_revision (sm_state m)) = Ok rv"
    and "sm_state m' = (sm_state m)\<lparr>st_tasks := fmupd tid t' (the_tasks m), st_revision := rv\<rparr>"
    and "changes m' = (changed_namespaces m, finsert tid (changed_tasks m), deleted_tasks m, changed_groups m)"
  shows "effect r m m'"
  using assms by (auto simp: effect_def recorded_def changes_def task_moves_upd)

lemma renew_task_lease_effect:
  assumes "renew_task_lease c m = (r, m')" "broker_inv m" "no_changes m"
  shows "effect r m m' \<and> (isl r \<longrightarrow> m' = m)"
  using assms(1,2)
proof (cases rule: renew_task_lease_cases)
  case (renewed g t l expires rv trev t')
  have "Task_renew t (renew_fence c) expires = Ok t'"
    using renewed(5-7) by (simp add: Task_renew_Ok)
  then have "task_step t t'" by (rule task_step.renew)
  with renewed(9) show ?thesis
    using task_op_effect [OF assms(3) renewed(4) _ renewed(3,8,12)] by simp
qed (use effect_refl [OF assms(3)] in simp)

lemma complete_task_effect:
  assumes "complete_task c m = (r, m')" "broker_inv m" "no_changes m"
  shows "effect r m m' \<and> (isl r \<longrightarrow> m' = m)"
  using assms(1,2)
proof (cases rule: complete_task_cases)
  case (completed g t l rv trev t')
  have "Task_complete t (complete_fence c) (cm_result c) = Ok (CompletionOutcome.Completed, t')"
    using completed(4-6) by (simp add: Task_complete_Ok) (simp add: complete_fence_def)
  then have "task_step t t'" by (rule task_step.complete)
  with completed(8) show ?thesis
    using task_op_effect [OF assms(3) completed(3) _ completed(2,7,11)] by simp
qed (use effect_refl [OF assms(3)] in simp_all)

lemma prune_completed_tasks_effect:
  assumes "prune_completed_tasks c m = (r, m')" "broker_inv m" "no_changes m"
  shows "effect r m m' \<and> (isl r \<longrightarrow> m' = m)"
  using assms(1,2)
proof (cases rule: prune_completed_tasks_cases)
  case (pruned rv ds)
  have d: "done_of (the_tasks m) tid = Some at" if "(at, tid) \<in> set ds" for at tid
    using that prunable_take(1) [OF assms(2), of "pc_completed_before_ms c" "pc_max_tasks c"] assms(2)
    unfolding pruned(1) inv_ex_def completed_index_def by (metis Un_iff set_append)
  have "task_moves (deleted_tasks m') (the_tasks m) (fmfilter (\<lambda>tid. tid \<notin> snd ` set ds) (the_tasks m))"
    unfolding task_moves_def
  proof (intro allI impI)
    fix tid t
    assume t: "fmlookup (the_tasks m) tid = Some t"
    show "case fmlookup (fmfilter (\<lambda>tid. tid \<notin> snd ` set ds) (the_tasks m)) tid of
        Some t' \<Rightarrow> task_step\<^sup>*\<^sup>* t t'
      | None \<Rightarrow> tid |\<in>| deleted_tasks m' \<and> (\<exists>c. task_state t = TaskState.Completed c)"
    proof (cases "tid \<in> snd ` set ds")
      case True
      then obtain at where "(at, tid) \<in> set ds" by auto
      with d [OF this] t pruned(8) show ?thesis
        by (auto simp: look_lookup changes_def fset_of_list_elem image_iff)
    qed (use t in simp)
  qed
  moreover have "same_outside (fset_of_list (map snd ds)) (the_tasks m) (fmfilter (\<lambda>tid. tid \<notin> snd ` set ds) (the_tasks m))"
    by (auto simp: same_outside_def fset_of_list_elem)
  moreover have "fset_of_list (map snd ds) |\<inter>| fmdom (fmfilter (\<lambda>tid. tid \<notin> snd ` set ds) (the_tasks m)) = {||}"
    by (force simp: fset_of_list_elem)
  moreover have "fset_of_list (map snd ds) |\<subseteq>| fmdom (the_tasks m)"
    by (auto simp: fset_of_list_elem look_Some fmlookup_dom_iff dest!: d)
  ultimately show ?thesis
    using pruned(3-5,8) assms(3) by (auto simp: effect_def recorded_def changes_def)
qed (use effect_refl [OF assms(3)] in simp_all)

lemma advance_term_effect:
  assumes "advance_term c m = (r, m')" "broker_inv m" "no_changes m"
  shows "effect r m m' \<and> (isl r \<longrightarrow> m' = m)"
  using assms(1,2)
proof (cases rule: advance_term_cases)
  case (advanced rv)
  then show ?thesis
    using assms(3) by (auto simp: effect_def recorded_def changes_def)
qed (use effect_refl [OF assms(3)] in simp)

section \<open>Commands\<close>

lemma handler_effect:
  "effect (fst (applied f h)) m m' = effect (fst h) m m'" "isl (fst (applied f h)) = isl (fst h)"
  by (simp_all add: effect_def fst_applied split: sum.splits)

lemma apply_command_effect:
  assumes "broker_inv m" "no_changes m"
  shows "effect (fst (apply_command c m)) m (snd (apply_command c m)) \<and>
    (isl (fst (apply_command c m)) \<longrightarrow> \<not> is_claim c \<longrightarrow> snd (apply_command c m) = m)"
proof (cases c)
  case (EnsureNamespace x)
  then show ?thesis
    using ensure_namespace_effect [OF surjective_pairing assms(2), of x] by (auto simp: handler_effect)
next
  case (PublishTask x)
  then show ?thesis
    using publish_task_effect [OF surjective_pairing assms(2), of x] by (auto simp: handler_effect)
next
  case (EnsureConsumerGroup x)
  then show ?thesis
    using ensure_consumer_group_effect [OF surjective_pairing assms(2), of x] by (auto simp: handler_effect)
next
  case (JoinConsumerGroup x)
  then show ?thesis
    using join_consumer_group_effect [OF surjective_pairing assms(1) assms(2), of x] by (auto simp: handler_effect)
next
  case (Heartbeat x)
  then show ?thesis
    using heartbeat_effect [OF surjective_pairing assms(1) assms(2), of x] by (auto simp: handler_effect)
next
  case (LeaveConsumerGroup x)
  then show ?thesis
    using leave_consumer_group_effect [OF surjective_pairing assms(1) assms(2), of x] by (auto simp: handler_effect)
next
  case (ReapStaleMembers x)
  then show ?thesis
    using reap_stale_members_effect [OF surjective_pairing assms(1) assms(2), of x] by (auto simp: handler_effect)
next
  case (ClaimTask x)
  then show ?thesis
    using claim_task_effect [OF surjective_pairing assms(1) assms(2), of x] by (auto simp: handler_effect is_claim_def)
next
  case (RenewTaskLease x)
  then show ?thesis
    using renew_task_lease_effect [OF surjective_pairing assms(1) assms(2), of x] by (auto simp: handler_effect)
next
  case (CompleteTask x)
  then show ?thesis
    using complete_task_effect [OF surjective_pairing assms(1) assms(2), of x] by (auto simp: handler_effect)
next
  case (PruneCompletedTasks x)
  then show ?thesis
    using prune_completed_tasks_effect [OF surjective_pairing assms(1) assms(2), of x] by (auto simp: handler_effect)
next
  case (AdvanceTerm x)
  then show ?thesis
    using advance_term_effect [OF surjective_pairing assms(1) assms(2), of x] by (auto simp: handler_effect)
qed

lemma broker_apply_effect:
  assumes "broker_apply c m = (r, m')" "broker_inv m"
  shows "effect r (clear_changes m) m'" "isl r \<Longrightarrow> \<not> is_claim c \<Longrightarrow> m' = clear_changes m"
  using apply_command_effect [of "clear_changes m" c] assms by (simp_all add: broker_apply_def)

end
