(* ===== verification/Broker_Runs.thy ===== *)
theory Broker_Runs
  imports Broker_Effects
begin

text \<open>
  Orderly brokers, whose heaps are complete, and the quantities that no run decreases.
\<close>

section \<open>Orderly brokers\<close>

text \<open>With complete heaps, the heaps of a namespace are exactly its ready and expired tasks.\<close>

lemma orderly_ready:
  assumes "orderly home m"
  shows "set (fm_get [] (ready_tasks m) ns) =
    {(c, tid). ready_of (the_tasks m) tid = Some c \<and> ns_of (the_tasks m) tid = Some ns}"
proof -
  have ri: "ready_index (the_tasks m) (ready_tasks m)"
    and hm: "homed home m" and ic: "index_complete m"
    using assms by (simp_all add: orderly_def inv_ex_def)
  have nsof: "ns_of (the_tasks m) tid = Some (home tid)" if "ready_of (the_tasks m) tid = Some c" for tid c
    using that hm by (auto simp: homed_def look_Some)
  have "(c, tid) \<in> set (fm_get [] (ready_tasks m) ns) \<longleftrightarrow>
      ready_of (the_tasks m) tid = Some c \<and> ns_of (the_tasks m) tid = Some ns" for c tid
  proof
    assume *: "(c, tid) \<in> set (fm_get [] (ready_tasks m) ns)"
    then have "ns = home tid" using hm unfolding homed_def by blast
    with ready_sound [OF ri *] nsof show "ready_of (the_tasks m) tid = Some c \<and> ns_of (the_tasks m) tid = Some ns"
      by simp
  next
    assume *: "ready_of (the_tasks m) tid = Some c \<and> ns_of (the_tasks m) tid = Some ns"
    then obtain k where k: "(c, tid) \<in> set (fm_get [] (ready_tasks m) k)"
      using ic unfolding index_complete_def in_heaps_def by blast
    moreover from k have "k = home tid" using hm unfolding homed_def by blast
    moreover have "ns = home tid" using * nsof [of tid c] by simp
    ultimately show "(c, tid) \<in> set (fm_get [] (ready_tasks m) ns)" by simp
  qed
  then show ?thesis by auto
qed

definition expired_tasks :: "BrokerState \<Rightarrow> NamespaceId \<Rightarrow> TimestampMs \<Rightarrow> TaskId set" where
  "expired_tasks s ns now = {tid. \<exists>l. lease_of (st_tasks s) tid = Some l \<and> leased_expires_at_ms l \<le> now \<and>
     ns_of (st_tasks s) tid = Some ns}"

lemma orderly_expired:
  assumes "orderly home m"
  shows "expired_in m ns now = expired_tasks (sm_state m) ns now"
proof -
  have hm: "homed home m" and ic: "index_complete m" using assms by (simp_all add: orderly_def)
  have nsof: "ns_of (the_tasks m) tid = Some (home tid)" if "lease_of (the_tasks m) tid = Some l" for tid l
    using that hm by (auto simp: homed_def look_Some)
  have "tid \<in> expired_in m ns now \<longleftrightarrow> tid \<in> expired_tasks (sm_state m) ns now" for tid
  proof
    assume "tid \<in> expired_in m ns now"
    then obtain x e l where x: "(x, tid, e) \<in> set (fm_get [] (lease_expirations m) ns)" "x \<le> now"
      "lease_of (the_tasks m) tid = Some l" "leased_expires_at_ms l = x"
      unfolding expired_in_def live_candidate_lease by blast
    then have "ns = home tid" using hm unfolding homed_def by blast
    with x nsof show "tid \<in> expired_tasks (sm_state m) ns now" by (simp add: expired_tasks_def)
  next
    assume "tid \<in> expired_tasks (sm_state m) ns now"
    then obtain l where l: "lease_of (the_tasks m) tid = Some l" "leased_expires_at_ms l \<le> now"
      "ns_of (the_tasks m) tid = Some ns" by (auto simp: expired_tasks_def)
    obtain k where k: "(leased_expires_at_ms l, tid, leased_lease_epoch l) \<in> set (fm_get [] (lease_expirations m) k)"
      using ic l(1) unfolding index_complete_def in_heaps_def by blast
    then have "k = home tid" using hm unfolding homed_def by blast
    with k l nsof show "tid \<in> expired_in m ns now" unfolding expired_in_def live_candidate_lease by auto
  qed
  then show ?thesis by blast
qed

text \<open>What a claim may be answered with: the queued tasks and the tasks whose lease has expired.\<close>

definition claimable :: "BrokerState \<Rightarrow> NamespaceId \<Rightarrow> TimestampMs \<Rightarrow> (TimestampMs \<times> TaskId) list" where
  "claimable s ns now =
     map (\<lambda>(tid, t). (task_created_at_ms t, tid))
       (filter (\<lambda>(tid, t). task_namespace_id t = ns \<and>
          (case task_state t of
             TaskState.Queued q \<Rightarrow> True
           | TaskState.Leased l \<Rightarrow> leased_expires_at_ms l \<le> now
           | TaskState.Completed c \<Rightarrow> False)) (sorted_list_of_fmap (st_tasks s)))"

lemma set_claimable:
  "set (claimable s ns now) =
     {(c, tid). \<exists>t. fmlookup (st_tasks s) tid = Some t \<and> task_created_at_ms t = c \<and> task_namespace_id t = ns \<and>
        ((\<exists>q. task_state t = TaskState.Queued q) \<or> tid \<in> expired_tasks s ns now)}"
proof -
  have "(c, tid) \<in> set (claimable s ns now) \<longleftrightarrow>
      (\<exists>t. fmlookup (st_tasks s) tid = Some t \<and> task_created_at_ms t = c \<and> task_namespace_id t = ns \<and>
        (case task_state t of TaskState.Queued q \<Rightarrow> True | TaskState.Leased l \<Rightarrow> leased_expires_at_ms l \<le> now
         | TaskState.Completed c \<Rightarrow> False))" for c tid
    by (auto simp: claimable_def set_entries image_iff)
  moreover have "(case task_state t of TaskState.Queued q \<Rightarrow> True | TaskState.Leased l \<Rightarrow> leased_expires_at_ms l \<le> now
      | TaskState.Completed c \<Rightarrow> False) \<longleftrightarrow> (\<exists>q. task_state t = TaskState.Queued q) \<or> tid \<in> expired_tasks s ns now"
    if "fmlookup (st_tasks s) tid = Some t" "task_namespace_id t = ns" for t tid
    using that by (cases "task_state t") (auto simp: expired_tasks_def look_lookup)
  ultimately show ?thesis by auto
qed

lemma requeued_ready_tasks:
  assumes "fset T = expired_tasks s ns now"
  shows "{(c, tid). ready_of (requeue_set T (st_tasks s)) tid = Some c \<and> ns_of (requeue_set T (st_tasks s)) tid = Some ns} =
    set (claimable s ns now)"
proof -
  have "ready_of (requeue_set T (st_tasks s)) tid = Some c \<and> ns_of (requeue_set T (st_tasks s)) tid = Some ns \<longleftrightarrow>
      (c, tid) \<in> set (claimable s ns now)" for c tid
  proof (cases "tid |\<in>| T")
    case True
    then obtain t l where t: "fmlookup (st_tasks s) tid = Some t" "task_state t = TaskState.Leased l"
      using assms by (auto simp: expired_tasks_def look_Some)
    with True assms show ?thesis
      by (auto simp: set_claimable look_requeue_set look_lookup requeued_ready [OF t(2)] simp del: task_view_simps)
  next
    case False
    with assms show ?thesis by (auto simp: set_claimable look_requeue_set look_Some)
  qed
  then show ?thesis by auto
qed

lemma claim_candidates:
  assumes "orderly home m" "recover_expired_leases ns now m = (Ok k, m1)"
  shows "sorted_wrt (<) (fm_get [] (ready_tasks m1) ns)"
    "set (fm_get [] (ready_tasks m1) ns) = set (claimable (sm_state m) ns now)"
proof -
  have inv: "broker_inv m" using assms(1) by (simp add: orderly_def)
  obtain T where T: "fset T = expired_in m ns now" "recovered_to T m m1"
    by (rule recover_Ok [OF assms(2) inv])
  have o1: "orderly home m1"
    using assms(1) T(2) by (simp add: orderly_def recovered_to_def keeps_def)
  show "sorted_wrt (<) (fm_get [] (ready_tasks m1) ns)"
    using o1 by (simp add: orderly_def inv_ex_def ready_index_def)
  have "the_tasks m1 = requeue_set T (the_tasks m)" using T(2) by (simp add: recovered_to_def)
  then show "set (fm_get [] (ready_tasks m1) ns) = set (claimable (sm_state m) ns now)"
    unfolding orderly_ready [OF o1]
    using requeued_ready_tasks [of T "sm_state m" ns now] T(1) orderly_expired [OF assms(1)] by simp
qed

text \<open>The task a fresh claim is answered with, when the claim succeeds.\<close>

lemma claim_answer:
  assumes "orderly home m" "claim_task c m = (Ok res, m')"
    and g: "fmlookup (the_groups m) (ct_group_id c) = Some g"
    and lid: "fmlookup (active_lease_tasks m) (ct_lease_id c) = None"
  shows "case cr_task_id res of
      None \<Rightarrow> claimable (sm_state m) (group_namespace_id g) (ct_now_ms c) = []
    | Some tid \<Rightarrow> \<exists>created. (created, tid) \<in> set (claimable (sm_state m) (group_namespace_id g) (ct_now_ms c)) \<and>
        (\<forall>p \<in> set (claimable (sm_state m) (group_namespace_id g) (ct_now_ms c)). (created, tid) \<le> p)"
proof -
  have inv: "broker_inv m" using assms(1) by (simp add: orderly_def)
  let ?C = "claimable (sm_state m) (group_namespace_id g) (ct_now_ms c)"
  show ?thesis
    using assms(2) inv
  proof (cases rule: claim_task_cases)
    case (new g')
    then have g': "g' = g" "fmlookup (the_groups m) (ct_group_id c) = Some g'"
      "group_generation g' = ct_expected_generation c" "ct_member_id c \<in> members g'"
      using g by (auto simp: authorised_def)
    from new(3) inv lid g'(2-4) refl show ?thesis
    proof (cases rule: claim_new_cases)
      case (empty T m1 rv)
      then have "set ?C = {}" using claim_candidates(2) [OF assms(1) empty(1)] g'(1) by simp
      with empty(7) show ?thesis by (simp add: empty_claim_result_def)
    next
      case (granted T m1 created tid h t q expires rv e trev t')
      note cand = claim_candidates [OF assms(1) granted(1)]
      have C: "set ?C = insert (created, tid) (set h)" "\<forall>p \<in> set h. (created, tid) < p"
        using cand granted(4) g'(1) by simp_all
      then have "(created, tid) \<in> set ?C" "\<forall>p \<in> set ?C. (created, tid) \<le> p"
        by (metis insert_iff less_imp_le order_refl)+
      moreover have "cr_task_id res = Some (task_id t)"
        using granted(11,13) by (simp add: task_claim_result_def)
      moreover have "task_id t = tid"
        using granted(7) inv by (auto simp: inv_ex_def entities_wf_def split: if_splits)
      ultimately show ?thesis by auto
    qed simp
  qed (use lid in simp_all)
qed

section \<open>Progress of a claim\<close>

text \<open>No counter of the broker is about to be exhausted.\<close>

definition counters_free :: "BrokerState \<Rightarrow> bool" where
  "counters_free s \<longleftrightarrow> unat (st_revision s) < 2 ^ 64 - 1 \<and>
     (\<forall>tid t. fmlookup (st_tasks s) tid = Some t \<longrightarrow>
        unat (task_revision t) < 2 ^ 64 - 2 \<and> unat (lease_epoch_of t) < 2 ^ 64 - 1)"

lemma recover_loop_total:
  assumes "\<forall>tid \<in> set tids. expired_lease (the_tasks m) now tid \<and> can_advance (the_tasks m) tid" "distinct tids"
  shows "\<exists>k m'. recover_loop ns now tids n m = (Ok k, m')"
  using assms
proof (induction tids arbitrary: n m)
  case (Cons tid tids)
  from Cons.prems(1) obtain t l r where t: "fmlookup (the_tasks m) tid = Some t"
    "task_state t = TaskState.Leased l" "leased_expires_at_ms l \<le> now" and r: "Revision_next (task_revision t) = Ok r"
    by (auto simp: expired_lease_def can_advance_def look_Some)
  let ?m1 = "release ns (task_created_at_ms t) (leased_lease_id l) tid (requeued t)
      (remove_member_lease_task (leased_group_id l) (leased_owner_member_id l) tid m)"
  have "\<forall>k \<in> set tids. expired_lease (the_tasks ?m1) now k \<and> can_advance (the_tasks ?m1) k"
    using Cons.prems by (auto simp: expired_lease_def can_advance_def)
  with Cons.IH [of ?m1 "n + 1"] Cons.prems(2) recover_step(1) [OF t r] show ?case by simp
qed simp

lemma recover_total:
  assumes "broker_inv m" "\<And>tid t. fmlookup (the_tasks m) tid = Some t \<Longrightarrow> can_advance (the_tasks m) tid"
  obtains k m1 where "recover_expired_leases ns now m = (Ok k, m1)"
proof -
  obtain E cs where u: "recover_expired_leases ns now m =
      recover_loop ns now (sorted_list_of_fset cs) 0 (m\<lparr>lease_expirations := E\<rparr>)"
    and cs: "fset cs = expired_in m ns now"
    by (rule recover_expired_unfold [OF assms(1), of ns now]) blast
  have "expired_lease (the_tasks m) now tid \<and> can_advance (the_tasks m) tid" if "tid |\<in>| cs" for tid
    using that cs expired_in_lease [of tid m ns now] assms(2) by (auto simp: expired_lease_def look_Some)
  with recover_loop_total [of "sorted_list_of_fset cs" "m\<lparr>lease_expirations := E\<rparr>" now ns 0] u that
  show thesis by (auto simp: set_sorted_list_of_fset)
qed

lemma requeued_counters:
  assumes "counters_free s" "fmlookup (requeue_set T (st_tasks s)) tid = Some t"
  shows "unat (task_revision t) < 2 ^ 64 - 1" "unat (lease_epoch_of t) < 2 ^ 64 - 1"
proof -
  from assms(2) obtain u where u: "fmlookup (st_tasks s) tid = Some u" "t = u \<or> t = requeued u"
    by (auto split: if_splits)
  then have c: "unat (task_revision u) < 2 ^ 64 - 2" "unat (lease_epoch_of u) < 2 ^ 64 - 1"
    using assms(1) by (auto simp: counters_free_def)
  have "unat (task_revision u + 1) = unat (task_revision u) + 1"
    using c(1) by (simp add: unat_word_ariths)
  then have "unat (task_revision (requeued u)) \<le> unat (task_revision u) + 1"
    by (simp add: requeued_def split: TaskState.split)
  moreover have "lease_epoch_of (requeued u) = lease_epoch_of u"
    by (simp add: requeued_def lease_epoch_of_def split: TaskState.split)
  ultimately show "unat (task_revision t) < 2 ^ 64 - 1" "unat (lease_epoch_of t) < 2 ^ 64 - 1"
    using u(2) c by auto
qed

lemma claim_grant_total:
  assumes "fmlookup (the_tasks m) tid = Some t" "task_state t = TaskState.Queued q"
    and "unat (task_revision t) < 2 ^ 64 - 1" "unat (lease_epoch_of t) < 2 ^ 64 - 1"
    and "unat (st_revision (sm_state m)) < 2 ^ 64 - 1"
    and "unat (ct_now_ms c) + unat (ct_lease_duration_ms c) < 2 ^ 64"
  shows "\<exists>res m'. claim_grant c ns gen tid m = (Ok res, m')"
proof -
  obtain x where x: "checked_deadline (ct_now_ms c) (ct_lease_duration_ms c) = Ok x"
    using assms(6) checked_add_None [of "ct_now_ms c" "ct_lease_duration_ms c"]
    by (cases "checked_add (ct_now_ms c) (ct_lease_duration_ms c)") (auto simp: checked_deadline_def)
  have "lease_epoch_of t = queued_lease_epoch q" using assms(2) by (simp add: lease_epoch_of_def)
  with assms x revision.next_total lease_epoch.next_total show ?thesis
    by (simp add: claim_grant_def Task_claim_def fv_def Let_def push_expiration_def insert_member_lease_def)
qed

lemma claim_total:
  assumes "orderly home m" and au: "authorised m (ct_expected_term c) (ct_group_id c) (ct_member_id c) (ct_expected_generation c) g"
    and lid: "fmlookup (active_lease_tasks m) (ct_lease_id c) = None" and cf: "counters_free (sm_state m)"
    and d: "unat (ct_now_ms c) + unat (ct_lease_duration_ms c) < 2 ^ 64"
    and work: "claimable (sm_state m) (group_namespace_id g) (ct_now_ms c) \<noteq> []"
  shows "\<exists>res m'. claim_task c m = (Ok res, m')"
proof -
  let ?ns = "group_namespace_id g"
  have inv: "broker_inv m" using assms(1) by (simp add: orderly_def)
  have "can_advance (the_tasks m) tid" if "fmlookup (the_tasks m) tid = Some t" for tid t
  proof -
    have "unat (task_revision t) < 2 ^ 64 - 2" using that cf by (simp add: counters_free_def)
    with revision.next_total [of "task_revision t"] that show ?thesis by (auto simp: can_advance_def)
  qed
  then obtain k m1 where rec: "recover_expired_leases ?ns (ct_now_ms c) m = (Ok k, m1)"
    using recover_total [OF inv, of ?ns "ct_now_ms c"] by blast
  obtain T where T: "recovered_to T m m1" by (rule recover_Ok [OF rec inv])
  then have m1: "broker_inv m1" "sm_state m1 = (sm_state m)\<lparr>st_tasks := requeue_set T (the_tasks m)\<rparr>"
    by (simp_all add: recovered_to_def)
  obtain created tid h where heap: "fm_get [] (ready_tasks m1) ?ns = (created, tid) # h"
    using claim_candidates(2) [OF assms(1) rec] work by (cases "fm_get [] (ready_tasks m1) ?ns") auto
  have "ready_of (the_tasks m1) tid = Some created"
    using m1(1) heap by (intro ready_sound [of _ "ready_tasks m1" _ _ ?ns]) (simp_all add: inv_ex_def)
  then obtain t q where t: "fmlookup (the_tasks m1) tid = Some t" "task_state t = TaskState.Queued q"
    by (auto simp: look_Some)
  obtain res m2 where pop: "pop_ready_task ?ns m1 = (res, m2)" by fastforce
  obtain R where R: "m2 = m1\<lparr>ready_tasks := R\<rparr>" "res = Some tid"
    by (rule pop_ready_inv [OF pop m1(1)]) (use heap in simp)
  have "unat (task_revision t) < 2 ^ 64 - 1" "unat (lease_epoch_of t) < 2 ^ 64 - 1"
    using requeued_counters [OF cf, of T tid t] t(1) m1(2) by simp_all
  then obtain res' m' where "claim_grant c ?ns (ct_expected_generation c) tid m2 = (Ok res', m')"
    using claim_grant_total [of m2 tid t q c ?ns "ct_expected_generation c"] t R(1) m1(2) cf d by (auto simp: counters_free_def)
  moreover have "require_term m (ct_expected_term c) = Ok ()"
    "require_group_member m (ct_group_id c) (ct_member_id c) (ct_expected_generation c) = Ok (?ns, ct_expected_generation c)"
    using au by (simp_all add: authorised_def require_term_def require_group_member_Ok)
  ultimately have "claim_task c m = (Ok res', m')"
    using lid rec pop R(2) by (simp add: claim_task_parts claim_new_def)
  then show ?thesis by blast
qed

section \<open>Runs\<close>

definition keeping_step :: "TaskId \<Rightarrow> BrokerCommand \<Rightarrow> BrokerStateMachine \<Rightarrow> BrokerStateMachine \<Rightarrow> bool" where
  "keeping_step tid c m m' \<longleftrightarrow> broker_step c m m' \<and> tid |\<notin>| deleted_tasks m'"

definition task_descends :: "TaskId \<Rightarrow> BrokerStateMachine \<Rightarrow> BrokerStateMachine \<Rightarrow> bool" where
  "task_descends tid m m' \<longleftrightarrow> (\<forall>t. fmlookup (the_tasks m) tid = Some t \<longrightarrow>
     (\<exists>t'. fmlookup (the_tasks m') tid = Some t' \<and> task_step\<^sup>*\<^sup>* t t'))"

lemma broker_step_effect:
  assumes "broker_step c m m'" "broker_inv m"
  shows "broker_inv m'" "effect (fst (broker_apply c m)) (clear_changes m) m'"
  using assms bk.step_inv [of c m m'] broker_apply_effect(1) [OF surjective_pairing assms(2), of c]
  by (simp_all add: broker_step_def)

lemma task_moves_keep:
  assumes "task_moves D ts ts'" "tid |\<notin>| D" "fmlookup ts tid = Some t"
  shows "\<exists>t'. fmlookup ts' tid = Some t' \<and> task_step\<^sup>*\<^sup>* t t'"
proof -
  have "case fmlookup ts' tid of Some t' \<Rightarrow> task_step\<^sup>*\<^sup>* t t'
      | None \<Rightarrow> tid |\<in>| D \<and> (\<exists>c. task_state t = TaskState.Completed c)"
    using assms(1,3) by (simp add: task_moves_def)
  with assms(2) show ?thesis by (auto split: option.splits)
qed

interpretation kept: monotone_system "keeping_step tid" broker_inv "task_descends tid" for tid
proof unfold_locales
  fix c m m' m''
  show "keeping_step tid c m m' \<Longrightarrow> broker_inv m \<Longrightarrow> broker_inv m'"
    by (auto simp: keeping_step_def intro: broker_step_effect(1))
  show "task_descends tid m m'" if "keeping_step tid c m m'" "broker_inv m"
    using that broker_step_effect(2) [of c m m'] task_moves_keep [of "deleted_tasks m'" "the_tasks m" "the_tasks m'" tid]
    by (auto simp: keeping_step_def effect_def task_descends_def)
  show "task_descends tid m m" by (simp add: task_descends_def)
  show "task_descends tid m m' \<Longrightarrow> task_descends tid m' m'' \<Longrightarrow> task_descends tid m m''"
    by (fastforce simp: task_descends_def)
qed

text \<open>The clocks of the broker: term, group generations and the existence of groups.\<close>

definition clocks_le :: "BrokerStateMachine \<Rightarrow> BrokerStateMachine \<Rightarrow> bool" where
  "clocks_le m m' \<longleftrightarrow> st_term (sm_state m) \<le> st_term (sm_state m') \<and>
     (\<forall>gid g. fmlookup (the_groups m) gid = Some g \<longrightarrow>
        (\<exists>g'. fmlookup (the_groups m') gid = Some g' \<and> group_namespace_id g' = group_namespace_id g \<and>
           group_generation g \<le> group_generation g' \<and>
           (group_generation g' = group_generation g \<longrightarrow> members g' = members g)))"

lemma clocks_le_trans:
  assumes "clocks_le m m'" "clocks_le m' m''"
  shows "clocks_le m m''"
  unfolding clocks_le_def
proof (intro conjI allI impI)
  show "st_term (sm_state m) \<le> st_term (sm_state m'')"
    using assms by (auto simp: clocks_le_def intro: order_trans)
  fix gid g
  assume "fmlookup (the_groups m) gid = Some g"
  with assms(1) obtain g' where g': "fmlookup (the_groups m') gid = Some g'" "group_namespace_id g' = group_namespace_id g"
    "group_generation g \<le> group_generation g'" "group_generation g' = group_generation g \<longrightarrow> members g' = members g"
    unfolding clocks_le_def by blast
  with assms(2) obtain g'' where g'': "fmlookup (the_groups m'') gid = Some g''" "group_namespace_id g'' = group_namespace_id g'"
    "group_generation g' \<le> group_generation g''" "group_generation g'' = group_generation g' \<longrightarrow> members g'' = members g'"
    unfolding clocks_le_def by blast
  show "\<exists>h. fmlookup (the_groups m'') gid = Some h \<and> group_namespace_id h = group_namespace_id g \<and>
      group_generation g \<le> group_generation h \<and> (group_generation h = group_generation g \<longrightarrow> members h = members g)"
    using g' g'' by (intro exI [of _ g'']) (auto intro: order_trans dest: antisym)
qed

interpretation clk: monotone_system broker_step broker_inv clocks_le
proof unfold_locales
  fix c m m' m''
  show "broker_step c m m' \<Longrightarrow> broker_inv m \<Longrightarrow> broker_inv m'"
    by (rule broker_step_effect(1))
  show "clocks_le m m'" if "broker_step c m m'" "broker_inv m"
    using broker_step_effect(2) [OF that]
    by (fastforce simp: effect_def groups_grow_def group_grows_def clocks_le_def)
  show "clocks_le m m" by (simp add: clocks_le_def)
qed (rule clocks_le_trans)

end
