(* ===== verification/Scenario.thy ===== *)
theory Scenario
  imports Broker_Runs
begin

text \<open>
  A small broker for the examples: one namespace, one group with one member and two tasks, taken
  through a claim, a completion and a departure.
\<close>

abbreviation "ns1 \<equiv> NamespaceId ''n''"
abbreviation "gid1 \<equiv> ConsumerGroupId ''g''"
abbreviation "mid1 \<equiv> ConsumerId ''m''"
abbreviation "lid1 \<equiv> LeaseId ''l''"
abbreviation "tid1 \<equiv> TaskId ''a''"
abbreviation "tid2 \<equiv> TaskId ''b''"

definition ensure_ns1 :: BrokerCommand where
  "ensure_ns1 = EnsureNamespace \<lparr>en_namespace_id = ns1, en_max_namespaces = 4\<rparr>"

definition publish1 :: BrokerCommand where
  "publish1 = PublishTask \<lparr>pt_namespace_id = ns1, pt_task_id = tid1, pt_objective = ''first'',
     pt_created_at_ms = 5, pt_max_namespace_tasks = 4\<rparr>"

definition publish2 :: BrokerCommand where
  "publish2 = PublishTask \<lparr>pt_namespace_id = ns1, pt_task_id = tid2, pt_objective = ''second'',
     pt_created_at_ms = 3, pt_max_namespace_tasks = 4\<rparr>"

definition ensure_gid1 :: BrokerCommand where
  "ensure_gid1 = EnsureConsumerGroup \<lparr>eg_namespace_id = ns1, eg_group_id = gid1, eg_max_namespace_groups = 4\<rparr>"

definition join1 :: BrokerCommand where
  "join1 = JoinConsumerGroup \<lparr>jg_group_id = gid1, jg_member_id = mid1, jg_capabilities = [], jg_now_ms = 6,
     jg_max_group_members = 4\<rparr>"

definition claim1_command :: ClaimTaskCommand where
  "claim1_command = \<lparr>ct_group_id = gid1, ct_member_id = mid1, ct_expected_term = 1, ct_expected_generation = 1,
     ct_lease_id = lid1, ct_now_ms = 10, ct_lease_duration_ms = 100\<rparr>"

definition complete1_command :: CompleteTaskCommand where
  "complete1_command = \<lparr>cm_task_id = tid2, cm_group_id = gid1, cm_member_id = mid1, cm_expected_term = 1,
     cm_expected_generation = 1, cm_expected_lease_epoch = 1, cm_lease_id = lid1, cm_result = ''ok'',
     cm_completed_at_ms = 20\<rparr>"

definition leave1_command :: LeaveConsumerGroupCommand where
  "leave1_command = \<lparr>lg_group_id = gid1, lg_member_id = mid1, lg_expected_generation = 1\<rparr>"

definition run_commands :: "BrokerCommand list \<Rightarrow> BrokerStateMachine \<Rightarrow> BrokerStateMachine" where
  "run_commands = fold (\<lambda>c m. snd (broker_apply c m))"

lemmas eval_scenario = run_commands_def ensure_ns1_def publish1_def publish2_def ensure_gid1_def join1_def
  claim1_command_def complete1_command_def leave1_command_def

lemma drop_single: "fmdrop k (fmupd k v fmempty) = fmempty"
  by (intro fmap_ext) simp

lemmas eval_broker = eval_state_machine eval_scenario insort_insert_key_def drop_single

definition ready_broker :: BrokerStateMachine where
  "ready_broker = run_commands [ensure_ns1, publish1, publish2, ensure_gid1, join1] BrokerStateMachine_default"

definition leased_broker :: BrokerStateMachine where
  "leased_broker = snd (broker_apply (ClaimTask claim1_command) ready_broker)"

definition done_broker :: BrokerStateMachine where
  "done_broker = snd (broker_apply (CompleteTask complete1_command) leased_broker)"

definition left_broker :: BrokerStateMachine where
  "left_broker = snd (broker_apply (LeaveConsumerGroup leave1_command) leased_broker)"

abbreviation "queued1 \<equiv> \<lparr>task_id = tid1, task_namespace_id = ns1, task_objective = ''first'', task_created_at_ms = 5,
   task_revision = 1, task_state = TaskState.Queued \<lparr>queued_lease_epoch = 0\<rparr>\<rparr>"

abbreviation "task2 r st \<equiv> \<lparr>task_id = tid2, task_namespace_id = ns1, task_objective = ''second'', task_created_at_ms = 3,
   task_revision = r, task_state = st\<rparr>"

abbreviation "lease2 \<equiv> \<lparr>leased_lease_id = lid1, leased_owner_member_id = mid1, leased_group_id = gid1,
   leased_generation = 1, leased_lease_epoch = 1, leased_expires_at_ms = 110\<rparr>"

abbreviation "completed2 \<equiv> \<lparr>completed_lease_id = lid1, completed_owner_member_id = mid1, completed_group_id = gid1,
   completed_generation = 1, completed_lease_epoch = 1, completed_result = ''ok'', completed_completed_at_ms = 20\<rparr>"

abbreviation "group1 gen r ms \<equiv> \<lparr>group_id = gid1, group_namespace_id = ns1, group_generation = gen, group_revision = r,
   group_consumers = ms\<rparr>"

abbreviation "member1 \<equiv> \<lparr>consumer_id = mid1, consumer_capabilities = [], consumer_joined_at_ms = 6,
   consumer_last_heartbeat_at_ms = 6, consumer_revision = 1\<rparr>"

abbreviation "state1 r t g \<equiv> \<lparr>st_term = 1, st_revision = r,
   st_namespaces = fmupd ns1 \<lparr>namespace_id = ns1, namespace_revision = 1\<rparr> fmempty,
   st_tasks = fmupd tid2 t (fmupd tid1 queued1 fmempty), st_groups = fmupd gid1 g fmempty\<rparr>"

lemma ready_broker_eq:
  "ready_broker =
     \<lparr>sm_state = state1 5 (task2 1 (TaskState.Queued \<lparr>queued_lease_epoch = 0\<rparr>)) (group1 1 2 (fmupd mid1 member1 fmempty)),
      ready_tasks = fmupd ns1 [(3, tid2), (5, tid1)] fmempty, lease_expirations = fmempty,
      active_lease_tasks = fmempty, member_lease_tasks = fmempty, completed_tasks = [],
      namespace_task_counts = fmupd ns1 (Suc (Suc 0)) fmempty, namespace_group_counts = fmupd ns1 1 fmempty,
      changed_namespaces = {||}, changed_tasks = {||}, deleted_tasks = {||}, changed_groups = {|gid1|}\<rparr>"
  by (simp add: ready_broker_def eval_broker cong: eval_cong)

lemma leased_broker_eq:
  "leased_broker =
     \<lparr>sm_state = state1 6 (task2 2 (TaskState.Leased lease2)) (group1 1 2 (fmupd mid1 member1 fmempty)),
      ready_tasks = fmupd ns1 [(5, tid1)] fmempty, lease_expirations = fmupd ns1 [(110, tid2, 1)] fmempty,
      active_lease_tasks = fmupd lid1 tid2 fmempty, member_lease_tasks = fmupd (gid1, mid1) {|tid2|} fmempty,
      completed_tasks = [], namespace_task_counts = fmupd ns1 (Suc (Suc 0)) fmempty, namespace_group_counts = fmupd ns1 1 fmempty,
      changed_namespaces = {||}, changed_tasks = {|tid2|}, deleted_tasks = {||}, changed_groups = {||}\<rparr>"
  by (simp add: leased_broker_def ready_broker_eq eval_broker cong: eval_cong)

lemma done_broker_eq:
  "done_broker =
     \<lparr>sm_state = state1 7 (task2 3 (TaskState.Completed completed2)) (group1 1 2 (fmupd mid1 member1 fmempty)),
      ready_tasks = fmupd ns1 [(5, tid1)] fmempty, lease_expirations = fmupd ns1 [(110, tid2, 1)] fmempty,
      active_lease_tasks = fmempty, member_lease_tasks = fmempty,
      completed_tasks = [(20, tid2)], namespace_task_counts = fmupd ns1 (Suc (Suc 0)) fmempty,
      namespace_group_counts = fmupd ns1 1 fmempty,
      changed_namespaces = {||}, changed_tasks = {|tid2|}, deleted_tasks = {||}, changed_groups = {||}\<rparr>"
  by (simp add: done_broker_def leased_broker_eq eval_broker cong: eval_cong)

lemma left_broker_eq:
  "left_broker =
     \<lparr>sm_state = state1 7 (task2 3 (TaskState.Queued \<lparr>queued_lease_epoch = 1\<rparr>)) (group1 2 3 fmempty),
      ready_tasks = fmupd ns1 [(3, tid2), (5, tid1)] fmempty, lease_expirations = fmupd ns1 [(110, tid2, 1)] fmempty,
      active_lease_tasks = fmempty, member_lease_tasks = fmempty,
      completed_tasks = [], namespace_task_counts = fmupd ns1 (Suc (Suc 0)) fmempty,
      namespace_group_counts = fmupd ns1 1 fmempty,
      changed_namespaces = {||}, changed_tasks = {|tid2|}, deleted_tasks = {||}, changed_groups = {|gid1|}\<rparr>"
  by (simp add: left_broker_def leased_broker_eq eval_broker cong: eval_cong)

section \<open>Reachability\<close>

abbreviation "home1 \<equiv> \<lambda>tid :: TaskId. ns1"

abbreviation "orderly_reach \<equiv> reach broker_init (orderly_step home1)"

lemma orderly_reach_step:
  "orderly_reach m \<Longrightarrow> publishes_home home1 c \<Longrightarrow> \<not> isl (fst (broker_apply c m)) \<or> \<not> is_claim c \<Longrightarrow>
   orderly_reach (snd (broker_apply c m))"
  by (rule reach.step [where l = c])
    (auto simp: orderly_step_def broker_step_def fails_cleanly_def is_claim_def split: BrokerCommand.split)

lemma orderly_reach_run:
  "orderly_reach m \<Longrightarrow> list_all (\<lambda>c. publishes_home home1 c \<and> \<not> is_claim c) cs \<Longrightarrow> orderly_reach (run_commands cs m)"
  by (induction cs arbitrary: m) (auto simp: run_commands_def intro: orderly_reach_step)

lemma orderly_reach_scenario:
  "orderly_reach ready_broker" "orderly_reach leased_broker" "orderly_reach done_broker" "orderly_reach left_broker"
proof -
  show r: "orderly_reach ready_broker"
    unfolding ready_broker_def
    by (rule orderly_reach_run)
      (simp_all add: reach.start broker_init_def eval_scenario publishes_home_def is_claim_def)
  show l: "orderly_reach leased_broker"
    unfolding leased_broker_def
    by (rule orderly_reach_step [OF r])
      (simp_all add: publishes_home_def ready_broker_eq eval_broker cong: eval_cong)
  show "orderly_reach done_broker" "orderly_reach left_broker"
    unfolding done_broker_def left_broker_def
    by (intro orderly_reach_step [OF l]; simp add: publishes_home_def is_claim_def)+
qed

lemma reach_mono: "orderly_reach m \<Longrightarrow> reach broker_init broker_step m"
  by (induction rule: reach.induct) (auto simp: orderly_step_def intro: reach.intros)

lemmas scenario_reach = orderly_reach_scenario orderly_reach_scenario [THEN reach_mono]
lemmas scenario_orderly = orderly_reach_scenario [THEN bo.reach_inv]
lemmas scenario_inv = orderly_reach_scenario [THEN reach_mono, THEN bk.reach_inv]

end
