(* ===== verification/Broker_Retry.thy ===== *)
theory Broker_Retry
  imports Broker_Runs
begin

text \<open>
  Retries: a command that was applied, and whose answer was lost, gives the same answer again and
  changes nothing.
\<close>

lemma clear_changes_fields [simp]:
  "metadata (clear_changes m) = metadata m" "active_lease_tasks (clear_changes m) = active_lease_tasks m"
  by (simp_all add: clear_changes_def metadata_def)

lemma set_groups_same: "gs = the_groups m \<Longrightarrow> set_groups gs m = m"
  by (cases m) (cases "sm_state m"; simp)

lemma retry_ensure_namespace:
  assumes "ensure_namespace c m = (Ok r, m')" "broker_inv m"
  shows "ensure_namespace c (clear_changes m') = (Ok r, clear_changes m')"
  using assms(1)
proof (cases rule: ensure_namespace_cases)
  case (added rv)
  then show ?thesis by (simp add: ensure_namespace_def Namespace_new_def)
qed (simp_all add: ensure_namespace_def)

lemma retry_publish_task:
  assumes "publish_task c m = (Ok r, m')"
  shows "publish_task c (clear_changes m') = (Ok r, clear_changes m')"
  using assms(1)
proof (cases rule: publish_task_cases)
  case (published rv)
  then have "require_namespace (clear_changes m') (pt_namespace_id c) = Ok ()"
    by (simp add: require_namespace_Ok push_ready_def)
  with published show ?thesis
    by (simp add: publish_task_def push_ready_def Task_new_def Task_status_def)
next
  case (replayed t)
  then have "require_namespace (clear_changes m') (pt_namespace_id c) = Ok ()"
    by (simp add: require_namespace_Ok)
  with replayed show ?thesis by (simp add: publish_task_def)
qed simp

lemma retry_ensure_consumer_group:
  assumes "ensure_consumer_group c m = (Ok r, m')"
  shows "ensure_consumer_group c (clear_changes m') = (Ok r, clear_changes m')"
  using assms(1)
proof (cases rule: ensure_consumer_group_cases)
  case (added rv)
  then have "require_namespace (clear_changes m') (eg_namespace_id c) = Ok ()"
    by (simp add: require_namespace_Ok)
  with added show ?thesis by (simp add: ensure_consumer_group_def ConsumerGroup_new_def)
next
  case (replayed g)
  then have "require_namespace (clear_changes m') (eg_namespace_id c) = Ok ()"
    by (simp add: require_namespace_Ok)
  with replayed show ?thesis by (simp add: ensure_consumer_group_def)
qed simp

lemma join_again:
  assumes "ConsumerGroup_join g mid caps now n = Ok (oc, g')"
  shows "ConsumerGroup_join g' mid caps now n = Ok (JoinOutcome.Unchanged, g')"
  using assms
  by (cases "fmlookup (group_consumers g) mid") (auto simp: join_Ok touched_def Consumer_new_def)

lemma heartbeat_again:
  assumes "ConsumerGroup_heartbeat g mid gen now = Ok (oc, g')"
  shows "ConsumerGroup_heartbeat g' mid gen now = Ok (HeartbeatOutcome.Unchanged, g')"
  using assms by (auto simp: heartbeat_Ok touched_def)

lemma retry_join_consumer_group:
  assumes "join_consumer_group c m = (Ok r, m')" "Revision_next (st_revision (sm_state m')) = Ok rv'"
  shows "join_consumer_group c (clear_changes m') = (Ok r, clear_changes m')"
  using assms(1)
proof (cases rule: join_consumer_group_cases)
  case (2 rv g oc g')
  have g': "fmlookup (the_groups m') (jg_group_id c) = Some g'" using 2(4) by (simp add: Let_def)
  have "set_groups (fmupd (jg_group_id c) g' (the_groups m')) (clear_changes m') = clear_changes m'"
    using g' by (intro set_groups_same) (simp add: fmupd_same)
  with 2(5) g' join_again [OF 2(3)] assms(2) show ?thesis
    by (simp add: join_consumer_group_def coordinator_join_def coordinate_def group_mut_def Let_def)
qed simp

lemma retry_heartbeat:
  assumes "heartbeat c m = (Ok r, m')" "Revision_next (st_revision (sm_state m')) = Ok rv'"
  shows "heartbeat c (clear_changes m') = (Ok r, clear_changes m')"
  using assms(1)
proof (cases rule: heartbeat_cases)
  case (2 rv g oc g' member)
  have g': "fmlookup (the_groups m') (hb_group_id c) = Some g'" using 2(4) by (simp add: Let_def)
  have "set_groups (fmupd (hb_group_id c) g' (the_groups m')) (clear_changes m') = clear_changes m'"
    using g' by (intro set_groups_same) (simp add: fmupd_same)
  with 2(5,6) g' heartbeat_again [OF 2(3)] assms(2) show ?thesis
    by (simp add: heartbeat_def coordinator_heartbeat_def coordinate_def group_mut_def Let_def)
qed simp

lemma authorised_Ok:
  assumes "authorised m trm gid mid gen g"
  shows "require_term (clear_changes m) trm = Ok ()"
    "require_group_member (clear_changes m) gid mid gen = Ok (group_namespace_id g, gen)"
  using assms by (simp_all add: authorised_def require_term_def require_group_member_Ok)

lemma replay_claim:
  assumes "authorised m (ct_expected_term c) (ct_group_id c) (ct_member_id c) (ct_expected_generation c) g"
    and "fmlookup (active_lease_tasks m) (ct_lease_id c) = Some tid"
    and "fmlookup (the_tasks m) tid = Some t" "task_state t = TaskState.Leased l"
    and "leased_owner_member_id l = ct_member_id c" "leased_group_id l = ct_group_id c"
  shows "claim_task c (clear_changes m) =
    (Ok (task_claim_result m (ct_expected_generation c) (Some t)), clear_changes m)"
  using assms authorised_Ok [OF assms(1)]
  by (simp add: claim_task_def task_claim_result_def empty_claim_result_def)

lemma retry_claim_task:
  assumes "claim_task c m = (Ok r, m')" "broker_inv m" "cr_task_id r \<noteq> None"
  shows "claim_task c (clear_changes m') = (Ok r, clear_changes m')"
  using assms(1,2)
proof (cases rule: claim_task_cases)
  case (replayed g tid t l)
  with replay_claim [OF replayed(1-4,6,7)] show ?thesis by simp
next
  case (new g)
  then have g: "fmlookup (the_groups m) (ct_group_id c) = Some g" "group_generation g = ct_expected_generation c"
    "ct_member_id c \<in> members g" by (simp_all add: authorised_def)
  from new(3) assms(2) new(2) g refl show ?thesis
  proof (cases rule: claim_new_cases)
    case (granted T m1 created tid h t q expires rv e trev t')
    have au: "authorised m' (ct_expected_term c) (ct_group_id c) (ct_member_id c) (ct_expected_generation c) g"
      using new(1) granted(12) by (simp add: authorised_def)
    have t': "fmlookup (the_tasks m') tid = Some t'" "task_state t' = TaskState.Leased (claimed c expires e)"
      using granted(11,12) by simp_all
    then have "lid_of (the_tasks m') tid = Some (ct_lease_id c)"
      by (simp add: look_lookup task_lid_key claimed_def)
    then have "fmlookup (active_lease_tasks m') (ct_lease_id c) = Some tid"
      using granted(14) unfolding inv_ex_def active_index_def by blast
    from replay_claim [OF au this t'] granted(13) show ?thesis by (simp add: claimed_def)
  qed (use assms(3) in \<open>simp_all add: empty_claim_result_def\<close>)
qed simp

lemma retry_complete_task:
  assumes "complete_task c m = (Ok r, m')" "broker_inv m" "Revision_next (st_revision (sm_state m')) = Ok rv'"
  shows "complete_task c (clear_changes m') = (Ok r, clear_changes m')"
proof -
  obtain g t d where g: "authorised m' (cm_expected_term c) (cm_group_id c) (cm_member_id c) (cm_expected_generation c) g"
    and t: "fmlookup (the_tasks m') (cm_task_id c) = Some t" "task_state t = TaskState.Completed d"
      "completed_lease_id d = cm_lease_id c" "completed_result d = cm_result c"
    and r: "r = \<lparr>cd_metadata = metadata m', cd_task_id = cm_task_id c, cd_task_revision = task_revision t,
      cd_status = TaskStatus.Completed\<rparr>"
    using assms(1,2)
  proof (cases rule: complete_task_cases)
    case (completed g t l rv trev t')
    have "authorised m' (cm_expected_term c) (cm_group_id c) (cm_member_id c) (cm_expected_generation c) g"
      using completed(1,7) by (simp add: authorised_def)
    moreover have "leased_lease_id l = cm_lease_id c"
      using completed(4) by (simp add: require_active_lease_Ok complete_fence_def)
    ultimately show thesis
      using completed(6-8) by (intro that [of g t' "completed_by l (cm_result c) (cm_completed_at_ms c)"]) (simp_all add: completed_by_def)
  qed (use that in simp_all)
  have "Task_complete t (complete_fence c) (cm_result c) = Ok (CompletionOutcome.AlreadyCompleted, t)"
    using t by (auto simp: Task_complete_Ok complete_fence_def)
  moreover have "put_task (cm_task_id c) t (clear_changes m') = clear_changes m'"
    using t(1) by (intro put_task_same) simp
  ultimately show ?thesis
    using t(1,2) r assms(3) authorised_Ok [OF g]
    by (simp add: complete_task_def Let_def Task_status_def flip: complete_fence_def)
qed

section \<open>Commands\<close>

text \<open>
  The commands a client may repeat: the ones that establish something, and a claim that was answered
  with a task.
\<close>

definition retryable :: "BrokerCommand \<Rightarrow> BrokerMutationResult \<Rightarrow> bool" where
  "retryable c r \<longleftrightarrow>
     (case c of
        EnsureNamespace _ \<Rightarrow> True | PublishTask _ \<Rightarrow> True | EnsureConsumerGroup _ \<Rightarrow> True
      | JoinConsumerGroup _ \<Rightarrow> True | BrokerCommand.Heartbeat _ \<Rightarrow> True | CompleteTask _ \<Rightarrow> True
      | ClaimTask _ \<Rightarrow> (case r of TaskClaim x \<Rightarrow> cr_task_id x \<noteq> None | _ \<Rightarrow> False)
      | _ \<Rightarrow> False)"

lemma applied_Ok: "applied f h = (Ok am, m') \<longleftrightarrow>
    (\<exists>x. h = (Ok x, m') \<and> am = \<lparr>am_result = f x, am_changes = take_changes m'\<rparr>)"
  by (auto simp: applied_def seq_r_Ok)

lemma retry_same_answer:
  assumes "broker_apply c m = (Ok am, m')" "broker_inv m" "retryable c (am_result am)"
    and "Revision_next (st_revision (sm_state m')) = Ok rv'"
  shows "broker_apply c m' = (Ok \<lparr>am_result = am_result am, am_changes = take_changes (clear_changes m')\<rparr>, clear_changes m')"
proof -
  have inv: "broker_inv (clear_changes m)" using assms(2) by simp
  show ?thesis
  proof (cases c)
    case (EnsureNamespace x)
    with assms(1) obtain y where y: "ensure_namespace x (clear_changes m) = (Ok y, m')" "am_result am = BrokerMutationResult.Namespace y"
      by (auto simp: broker_apply_def applied_Ok)
    from retry_ensure_namespace [OF y(1) inv] y(2) show ?thesis by (simp add: EnsureNamespace broker_apply_def applied_def)
  next
    case (PublishTask x)
    with assms(1) obtain y where y: "publish_task x (clear_changes m) = (Ok y, m')" "am_result am = TaskPublished y"
      by (auto simp: broker_apply_def applied_Ok)
    from retry_publish_task [OF y(1)] y(2) show ?thesis by (simp add: PublishTask broker_apply_def applied_def)
  next
    case (EnsureConsumerGroup x)
    with assms(1) obtain y where y: "ensure_consumer_group x (clear_changes m) = (Ok y, m')" "am_result am = BrokerMutationResult.ConsumerGroup y"
      by (auto simp: broker_apply_def applied_Ok)
    from retry_ensure_consumer_group [OF y(1)] y(2) show ?thesis by (simp add: EnsureConsumerGroup broker_apply_def applied_def)
  next
    case (JoinConsumerGroup x)
    with assms(1) obtain y where y: "join_consumer_group x (clear_changes m) = (Ok y, m')" "am_result am = BrokerMutationResult.ConsumerGroup y"
      by (auto simp: broker_apply_def applied_Ok)
    from retry_join_consumer_group [OF y(1) assms(4)] y(2) show ?thesis by (simp add: JoinConsumerGroup broker_apply_def applied_def)
  next
    case (Heartbeat x)
    with assms(1) obtain y where y: "heartbeat x (clear_changes m) = (Ok y, m')" "am_result am = BrokerMutationResult.Heartbeat y"
      by (auto simp: broker_apply_def applied_Ok)
    from retry_heartbeat [OF y(1) assms(4)] y(2) show ?thesis by (simp add: Heartbeat broker_apply_def applied_def)
  next
    case (ClaimTask x)
    with assms(1) obtain y where y: "claim_task x (clear_changes m) = (Ok y, m')" "am_result am = TaskClaim y"
      by (auto simp: broker_apply_def applied_Ok)
    from retry_claim_task [OF y(1) inv] y(2) assms(3) show ?thesis by (simp add: ClaimTask broker_apply_def applied_def retryable_def)
  next
    case (CompleteTask x)
    with assms(1) obtain y where y: "complete_task x (clear_changes m) = (Ok y, m')" "am_result am = TaskCompleted y"
      by (auto simp: broker_apply_def applied_Ok)
    from retry_complete_task [OF y(1) inv assms(4)] y(2) show ?thesis by (simp add: CompleteTask broker_apply_def applied_def)
  qed (use assms(3) in \<open>simp_all add: retryable_def\<close>)
qed

text \<open>The change set of a successful command is the one the handler recorded.\<close>

lemma broker_apply_changes: "broker_apply c m = (Ok am, m') \<Longrightarrow> am_changes am = take_changes m'"
  by (cases c) (auto simp: broker_apply_def applied_Ok)

end
