(* ===== verification/Broker_Guarantees.thy ===== *)
theory Broker_Guarantees
  imports Scenario Broker_Retry
begin

text \<open>
  The guarantees of the broker state machine, each with the example it is applied to.
\<close>

section \<open>Invariant and ownership\<close>

text \<open>
  C2: Every broker that any sequence of commands reaches, failing commands included, is well formed:
  entities carry the key they are stored under, every lease belongs to a current member of its
  group, the lease, member, ready and completion indexes agree with the tasks, and the counters
  equal the numbers of tasks and groups.
\<close>

theorem reachable_broker_inv:
  assumes "reach broker_init broker_step m"
  shows "broker_inv m"
  using assms by (rule bk.reach_inv)

theorem reachable_broker_inv_witness:
  "reach broker_init broker_step leased_broker \<and> broker_inv leased_broker"
  using reachable_broker_inv [of leased_broker] scenario_reach by blast



section \<open>Fencing\<close>



text \<open>
  C11: A change of membership fences every lease granted before it.  When the generation of a lease
  is not the generation of its group any more, nobody can renew or complete the task under that
  lease, whatever the command carries.
\<close>

theorem membership_change_fences_leases:
  assumes "broker_inv m" "fmlookup (the_tasks m) tid = Some t" "task_state t = TaskState.Leased l"
    and "fmlookup (the_groups m) (leased_group_id l) = Some g" "leased_generation l \<noteq> group_generation g"
    and "rl_task_id c = tid" "cm_task_id d = tid"
  shows "isl (fst (renew_task_lease c m)) \<and> isl (fst (complete_task d m))"
proof -
  have "isl (fst (renew_task_lease c m))"
  proof (rule renew_task_lease_cases [OF surjective_pairing assms(1), of c])
    fix h u k
    assume "authorised m (rl_expected_term c) (rl_group_id c) (rl_member_id c) (rl_expected_generation c) h"
      "fmlookup (the_tasks m) (rl_task_id c) = Some u" "require_active_lease u (renew_fence c) = Ok k"
    with assms show ?thesis by (auto simp: authorised_def require_active_lease_Ok renew_fence_def)
  qed simp
  moreover have "isl (fst (complete_task d m))"
  proof (rule complete_task_cases [OF surjective_pairing assms(1), of d])
    fix h u k
    assume "authorised m (cm_expected_term d) (cm_group_id d) (cm_member_id d) (cm_expected_generation d) h"
      "fmlookup (the_tasks m) (cm_task_id d) = Some u" "require_active_lease u (complete_fence d) = Ok k"
    with assms show ?thesis by (auto simp: authorised_def require_active_lease_Ok complete_fence_def)
  qed (use assms(2,3,7) in auto)
  ultimately show ?thesis ..
qed

abbreviation "join2 \<equiv> JoinConsumerGroup \<lparr>jg_group_id = gid1, jg_member_id = ConsumerId ''k'', jg_capabilities = [],
  jg_now_ms = 15, jg_max_group_members = 4\<rparr>"

theorem membership_change_fences_leases_witness:
  "isl (fst (renew_task_lease \<lparr>rl_task_id = tid2, rl_group_id = gid1, rl_member_id = mid1, rl_expected_term = 1,
        rl_expected_generation = 2, rl_expected_lease_epoch = 1, rl_lease_id = lid1, rl_now_ms = 30,
        rl_lease_duration_ms = 100\<rparr> (snd (broker_apply join2 leased_broker)))) \<and>
   isl (fst (complete_task complete1_command (snd (broker_apply join2 leased_broker))))"
proof (rule membership_change_fences_leases [where tid = tid2 and t = "task2 2 (TaskState.Leased lease2)" and l = lease2
      and g = "group1 2 3 (fmupd (ConsumerId ''k'') \<lparr>consumer_id = ConsumerId ''k'', consumer_capabilities = [],
        consumer_joined_at_ms = 15, consumer_last_heartbeat_at_ms = 15, consumer_revision = 1\<rparr> (fmupd mid1 member1 fmempty))"])
  show "broker_inv (snd (broker_apply join2 leased_broker))"
    by (rule bk.step_inv [OF _ scenario_inv(2)]) (simp add: broker_step_def)
qed (simp_all add: leased_broker_eq eval_broker cong: eval_cong)

text \<open>
  C12: Terms fence.  Once the broker is in some term, every later claim, renewal or completion that
  names an earlier term is rejected and leaves the broker as it is.
\<close>

theorem old_term_is_rejected:
  assumes "broker_inv m" "run broker_step m cs m'"
    and "ct_expected_term a < st_term (sm_state m)" "rl_expected_term b < st_term (sm_state m)"
    and "cm_expected_term c < st_term (sm_state m)"
  shows "claim_task a m' = (Err (StaleTerm (ct_expected_term a) (st_term (sm_state m'))), m') \<and>
    renew_task_lease b m' = (Err (StaleTerm (rl_expected_term b) (st_term (sm_state m'))), m') \<and>
    complete_task c m' = (Err (StaleTerm (cm_expected_term c) (st_term (sm_state m'))), m')"
proof -
  have "st_term (sm_state m) \<le> st_term (sm_state m')"
    using clk.run_rel [OF assms(2,1)] by (simp add: clocks_le_def)
  with assms(3-5) have "ct_expected_term a \<noteq> st_term (sm_state m')" "rl_expected_term b \<noteq> st_term (sm_state m')"
    "cm_expected_term c \<noteq> st_term (sm_state m')" by auto
  then show ?thesis
    by (simp add: claim_task_def renew_task_lease_def complete_task_def require_term_def)
qed

abbreviation "term2 \<equiv> AdvanceTerm \<lparr>at_expected_term = 1, at_new_term = 2\<rparr>"

theorem old_term_is_rejected_witness:
  "\<exists>m'. run broker_step (snd (broker_apply term2 leased_broker)) [join2] m' \<and>
     claim_task claim1_command m' = (Err (StaleTerm 1 (st_term (sm_state m'))), m')"
proof -
  let ?m = "snd (broker_apply term2 leased_broker)" and ?m' = "snd (broker_apply join2 (snd (broker_apply term2 leased_broker)))"
  let ?r = "\<lparr>rl_task_id = tid2, rl_group_id = gid1, rl_member_id = mid1, rl_expected_term = 1,
        rl_expected_generation = 1, rl_expected_lease_epoch = 1, rl_lease_id = lid1, rl_now_ms = 30,
        rl_lease_duration_ms = 100\<rparr>"
  have inv: "broker_inv ?m" by (rule bk.step_inv [OF _ scenario_inv(2)]) (simp add: broker_step_def)
  have run: "run broker_step ?m [join2] ?m'" by (simp add: run_Cons broker_step_def)
  have "st_term (sm_state ?m) = 2" by (simp add: leased_broker_eq eval_broker word_le_nat_alt cong: eval_cong)
  with old_term_is_rejected [OF inv run, of claim1_command ?r complete1_command] run
  show ?thesis by (intro exI [of _ ?m']) (simp add: claim1_command_def complete1_command_def)
qed

section \<open>Claims\<close>





text \<open>
  C21: A retry is safe.  When a namespace, task, group, membership, heartbeat or completion command,
  or a claim that got a task, has succeeded, applying the same command again gives the same result
  and changes nothing, as long as the revision counter is not exhausted.
\<close>

theorem retry_gives_the_same_answer:
  assumes "reach broker_init broker_step m" "broker_apply c m = (Ok am, m')" "retryable c (am_result am)"
    and "unat (st_revision (sm_state m')) < 2 ^ 64 - 1"
  shows "\<exists>am'. broker_apply c m' = (Ok am', clear_changes m') \<and> am_result am' = am_result am"
  using retry_same_answer [OF assms(2) bk.reach_inv [OF assms(1)] assms(3) revision.next_total [OF assms(4)]]
  by simp

theorem retry_gives_the_same_answer_witness:
  "\<exists>am. broker_apply (ClaimTask claim1_command) ready_broker = (Ok am, leased_broker) \<and>
     (\<exists>am'. broker_apply (ClaimTask claim1_command) leased_broker = (Ok am', clear_changes leased_broker) \<and>
        am_result am' = am_result am)"
proof -
  obtain am where am: "broker_apply (ClaimTask claim1_command) ready_broker = (Ok am, leased_broker)"
    "retryable (ClaimTask claim1_command) (am_result am)"
    by (simp add: ready_broker_eq leased_broker_eq retryable_def eval_broker cong: eval_cong)
  have "unat (st_revision (sm_state leased_broker)) < 2 ^ 64 - 1" by (simp add: leased_broker_eq)
  from retry_gives_the_same_answer [OF scenario_reach(5) am this] am(1) show ?thesis by blast
qed

section \<open>Every command\<close>

text \<open>
  C22: A failing command has no effect.  Every command other than a claim that returns an error leaves
  the state and every index exactly as they were; only the list of changes is cleared.
\<close>

theorem failing_command_changes_nothing:
  assumes "reach broker_init broker_step m" "broker_apply c m = (Err e, m')" "\<not> is_claim c"
  shows "m' = clear_changes m"
  using broker_apply_effect(2) [OF assms(2) bk.reach_inv [OF assms(1)]] assms(3) by simp

theorem failing_command_changes_nothing_witness:
  "broker_apply (AdvanceTerm \<lparr>at_expected_term = 1, at_new_term = 1\<rparr>) leased_broker =
     (Err (NewTermNotGreater 1 1), clear_changes leased_broker)"
proof -
  let ?c = "AdvanceTerm \<lparr>at_expected_term = 1, at_new_term = 1\<rparr>"
  obtain m' where "broker_apply ?c leased_broker = (Err (NewTermNotGreater 1 1), m')"
    by (simp add: leased_broker_eq eval_broker cong: eval_cong)
  with failing_command_changes_nothing [OF scenario_reach(6) this] show ?thesis by (simp add: is_claim_def)
qed



text \<open>
  C24: The change set is exact.  Every namespace, task and group that differs after a successful
  command is named in the change set that the command returns; the changed entities exist
  afterwards, and the deleted tasks do not.
\<close>

theorem change_set_covers_the_difference:
  assumes "reach broker_init broker_step m" "broker_apply c m = (Ok am, m')"
  shows "{ns. fmlookup (st_namespaces (sm_state m')) ns \<noteq> fmlookup (st_namespaces (sm_state m)) ns} \<subseteq> set (cs_namespaces (am_changes am)) \<and>
    {tid. fmlookup (the_tasks m') tid \<noteq> fmlookup (the_tasks m) tid} \<subseteq> set (cs_tasks (am_changes am)) \<union> set (cs_deleted_tasks (am_changes am)) \<and>
    {gid. fmlookup (the_groups m') gid \<noteq> fmlookup (the_groups m) gid} \<subseteq> set (cs_groups (am_changes am)) \<and>
    set (cs_namespaces (am_changes am)) \<subseteq> fset (fmdom (st_namespaces (sm_state m'))) \<and>
    set (cs_tasks (am_changes am)) \<subseteq> fset (fmdom (the_tasks m')) \<and>
    set (cs_groups (am_changes am)) \<subseteq> fset (fmdom (the_groups m')) \<and>
    set (cs_deleted_tasks (am_changes am)) \<inter> fset (fmdom (the_tasks m')) = {}"
proof -
  have "recorded (clear_changes m) m'"
    using broker_apply_effect(1) [OF assms(2) bk.reach_inv [OF assms(1)]] by (simp add: effect_def)
  moreover have "am_changes am = take_changes m'" by (rule broker_apply_changes [OF assms(2)])
  ultimately show ?thesis
    by (auto simp: recorded_def same_outside_def take_changes_def set_sorted_list_of_fset)
qed

theorem change_set_covers_the_difference_witness:
  "\<exists>am. broker_apply (LeaveConsumerGroup leave1_command) leased_broker = (Ok am, left_broker) \<and>
     {tid. fmlookup (the_tasks left_broker) tid \<noteq> fmlookup (the_tasks leased_broker) tid} \<subseteq>
       set (cs_tasks (am_changes am)) \<union> set (cs_deleted_tasks (am_changes am))"
proof -
  obtain am where "broker_apply (LeaveConsumerGroup leave1_command) leased_broker = (Ok am, left_broker)"
    by (simp add: leased_broker_eq left_broker_eq eval_broker cong: eval_cong)
  with change_set_covers_the_difference [OF scenario_reach(6) this] show ?thesis by blast
qed

text \<open>
  C25: Tasks move along their life cycle.  Whatever command is applied, and whether it succeeds or not,
  every task either is still there, moved by zero or more of its own transitions, or was completed
  and pruned.
\<close>

theorem tasks_follow_their_life_cycle:
  assumes "reach broker_init broker_step m" "broker_apply c m = (r, m')" "fmlookup (the_tasks m) tid = Some t"
  shows "case fmlookup (the_tasks m') tid of
      Some t' \<Rightarrow> task_step\<^sup>*\<^sup>* t t'
    | None \<Rightarrow> tid |\<in>| deleted_tasks m' \<and> (\<exists>c. task_state t = TaskState.Completed c)"
  using broker_apply_effect(1) [OF assms(2) bk.reach_inv [OF assms(1)]] assms(3)
  by (simp add: effect_def task_moves_def)

theorem tasks_follow_their_life_cycle_witness:
  "task_step\<^sup>*\<^sup>* (task2 1 (TaskState.Queued \<lparr>queued_lease_epoch = 0\<rparr>)) (task2 2 (TaskState.Leased lease2))"
  using tasks_follow_their_life_cycle [OF scenario_reach(5) surjective_pairing [of "broker_apply (ClaimTask claim1_command) ready_broker"],
      of tid2 "task2 1 (TaskState.Queued \<lparr>queued_lease_epoch = 0\<rparr>)"] leased_broker_eq
  by (simp add: ready_broker_eq leased_broker_def)

section \<open>Departures, pruning and capacity\<close>

text \<open>
  C26: A departing member leaves nothing behind.  After a member has left its group, the member is
  gone, the generation of the group is larger, every task that was leased to the member is back in
  the queue with its lease epoch, and every other task is untouched.
\<close>

theorem leaving_requeues_exactly_the_leases_of_the_member:
  assumes "reach broker_init broker_step m" "leave_consumer_group c m = (Ok res, m')"
  shows "(\<exists>g g'. fmlookup (the_groups m) (lg_group_id c) = Some g \<and> fmlookup (the_groups m') (lg_group_id c) = Some g' \<and>
      members g' = members g - {lg_member_id c} \<and> group_generation g < group_generation g') \<and>
    (\<forall>tid. fmlookup (the_tasks m') tid =
       (if key_of (the_tasks m) tid = Some (lg_group_id c, lg_member_id c)
        then map_option requeued (fmlookup (the_tasks m) tid) else fmlookup (the_tasks m) tid))"
  using assms(2) bk.reach_inv [OF assms(1)]
proof (cases rule: leave_consumer_group_cases)
  case (2 rv g mem g')
  then show ?thesis using leave_generation [OF 2(3)] by auto
qed simp

theorem leaving_requeues_exactly_the_leases_of_the_member_witness:
  "fmlookup (the_tasks left_broker) tid2 = Some (requeued (task2 2 (TaskState.Leased lease2))) \<and>
   fmlookup (the_tasks left_broker) tid1 = fmlookup (the_tasks leased_broker) tid1"
proof -
  obtain res m' where m': "leave_consumer_group leave1_command leased_broker = (Ok res, m')"
    "sm_state m' = sm_state left_broker"
    by (simp add: leased_broker_eq left_broker_eq eval_broker cong: eval_cong)
  from leaving_requeues_exactly_the_leases_of_the_member [OF scenario_reach(6) m'(1)] m'(2) show ?thesis
    by (simp add: leased_broker_eq leave1_command_def look_def task_key_def task_lease_def)
qed

text \<open>
  C27: Reaping removes exactly the stalest members of the whole broker, oldest heartbeat first, at most
  as many as asked for, although the code selects them over all groups and again in each group; the
  result counts them and the affected groups, and the leases of every removed member are requeued.
\<close>

theorem reaping_removes_exactly_the_stalest_members:
  assumes "reach broker_init broker_step m" "reap_stale_members c m = (Ok res, m')"
    and "cs = take (rs_max_members c) (sort (reap_candidates (the_groups m) (rs_stale_before_ms c)))"
  shows "sr_reaped_count res = length cs \<and> sr_affected_group_count res = card (fst ` snd ` set cs) \<and>
    (\<forall>gid g. fmlookup (the_groups m) gid = Some g \<longrightarrow> (\<exists>g'. fmlookup (the_groups m') gid = Some g' \<and>
       members g' = members g - {mid. (gid, mid) \<in> snd ` set cs})) \<and>
    (\<forall>tid k. key_of (the_tasks m) tid = Some k \<longrightarrow> fmlookup (the_tasks m') tid =
       (if k \<in> snd ` set cs then map_option requeued (fmlookup (the_tasks m) tid) else fmlookup (the_tasks m) tid))"
proof -
  have cs: "cs = stalest (the_groups m) (rs_stale_before_ms c) (rs_max_members c)"
    by (simp add: assms(3) stalest_def)
  show ?thesis
    using assms(2) bk.reach_inv [OF assms(1)]
  proof (cases rule: reap_stale_members_cases)
    case 2
    then show ?thesis using cs by auto
  next
    case (3 rv ds)
    have ds: "ds = cs" using 3(1) cs by simp
    have K: "{mid. (gid, mid) \<in> snd ` set cs} = set (of_group gid cs)" for gid
      by (simp only: in_of_group [symmetric] Collect_mem_eq)
    have "\<exists>g'. fmlookup (the_groups m') gid = Some g' \<and> members g' = members g - {mid. (gid, mid) \<in> snd ` set cs}"
      if "fmlookup (the_groups m) gid = Some g" for gid g
      unfolding K using that 3(4) by (simp add: ds reaped_groups_def)
    moreover have "fmlookup (the_tasks m') tid =
       (if k \<in> snd ` set cs then map_option requeued (fmlookup (the_tasks m) tid) else fmlookup (the_tasks m) tid)"
      if "key_of (the_tasks m) tid = Some k" for tid k
      using that 3(4) by (auto simp: ds)
    ultimately show ?thesis using 3(5) ds by simp
  qed simp
qed

theorem reaping_removes_exactly_the_stalest_members_witness:
  "\<exists>res m'. reap_stale_members \<lparr>rs_stale_before_ms = 50, rs_max_members = 3\<rparr> leased_broker = (Ok res, m') \<and>
     sr_reaped_count res = 1 \<and> sr_affected_group_count res = 1 \<and>
     fmlookup (the_tasks m') tid2 = Some (requeued (task2 2 (TaskState.Leased lease2)))"
proof -
  let ?c = "\<lparr>rs_stale_before_ms = 50, rs_max_members = 3\<rparr>"
  obtain res m' where r: "reap_stale_members ?c leased_broker = (Ok res, m')"
    by (simp add: leased_broker_eq eval_broker cong: eval_cong del: fset_of_list_map fset_of_list_filter)
  have "[(6, gid1, mid1)] = take (rs_max_members ?c) (sort (reap_candidates (the_groups leased_broker) (rs_stale_before_ms ?c)))"
    by (simp add: leased_broker_eq reap_candidates_def fm_values_def)
  note * = reaping_removes_exactly_the_stalest_members [OF scenario_reach(6) r this]
  have "key_of (the_tasks leased_broker) tid2 = Some (gid1, mid1)"
    "fmlookup (the_tasks leased_broker) tid2 = Some (task2 2 (TaskState.Leased lease2))"
    by (simp_all add: leased_broker_eq look_def task_key_def task_lease_def)
  with * have "sr_reaped_count res = 1" "sr_affected_group_count res = 1"
    "fmlookup (the_tasks m') tid2 = Some (requeued (task2 2 (TaskState.Leased lease2)))" by auto
  with r show ?thesis by blast
qed

text \<open>The completed tasks of a state, oldest first, up to a bound.\<close>

definition oldest_completed :: "BrokerState \<Rightarrow> TimestampMs \<Rightarrow> usize \<Rightarrow> (TimestampMs \<times> TaskId) list" where
  "oldest_completed s before n = take n (sort (concat (map (\<lambda>(tid, t).
     case task_state t of
       TaskState.Completed d \<Rightarrow> if completed_completed_at_ms d \<le> before then [(completed_completed_at_ms d, tid)] else []
     | _ \<Rightarrow> []) (sorted_list_of_fmap (st_tasks s)))))"

lemma takeWhile_filter:
  fixes xs :: "(TimestampMs \<times> TaskId) list"
  assumes "sorted_wrt (<) xs"
  shows "takeWhile (\<lambda>p. fst p \<le> b) xs = filter (\<lambda>p. fst p \<le> b) xs"
  using assms
proof (induction xs)
  case (Cons x xs)
  have "fst x \<le> fst y" if "y \<in> set xs" for y
    using Cons.prems that by (auto simp: less_prod_def)
  then have "filter (\<lambda>p. fst p \<le> b) xs = []" if "\<not> fst x \<le> b"
    using that by (fastforce simp: filter_empty_conv)
  with Cons show ?case by simp
qed simp

lemma oldest_completed_prunable:
  assumes "broker_inv m"
  shows "oldest_completed (sm_state m) before n = prunable m before n"
proof -
  let ?F = "\<lambda>(tid, t). case task_state t of
       TaskState.Completed d \<Rightarrow> if completed_completed_at_ms d \<le> before then [(completed_completed_at_ms d, tid)] else []
     | _ \<Rightarrow> []"
  let ?xs = "concat (map ?F (sorted_list_of_fmap (the_tasks m)))" and ?ys = "takeWhile (\<lambda>p. fst p \<le> before) (completed_tasks m)"
  have ci: "completed_index (the_tasks m) (completed_tasks m)" using assms by (simp add: inv_ex_def)
  have "distinct ?xs"
    by (intro distinct_keyed_concat [where key = snd]) (auto split: TaskState.splits)
  then have "sorted_wrt (<) (sort ?xs)" by (simp add: strict_sorted_iff)
  moreover have "sorted_wrt (<) (completed_tasks m)" using ci by (simp add: completed_index_def)
  then have "sorted_wrt (<) ?ys" by (rule sorted_wrt_takeWhile)
  moreover have "set (sort ?xs) = set ?ys"
  proof -
    have ys: "?ys = filter (\<lambda>p. fst p \<le> before) (completed_tasks m)"
      using ci by (intro takeWhile_filter) (simp add: completed_index_def)
    have "(at, tid) \<in> set (completed_tasks m) \<longleftrightarrow> done_of (the_tasks m) tid = Some at" for at tid
      using ci unfolding completed_index_def by blast
    then have "(at, tid) \<in> set ?ys \<longleftrightarrow> done_of (the_tasks m) tid = Some at \<and> at \<le> before" for at tid
      unfolding ys by auto
    moreover have "(at, tid) \<in> set (sort ?xs) \<longleftrightarrow> done_of (the_tasks m) tid = Some at \<and> at \<le> before" for at tid
      by (auto simp: set_entries look_Some split: TaskState.splits if_splits) (metis | fastforce)+
    ultimately have "p \<in> set (sort ?xs) \<longleftrightarrow> p \<in> set ?ys" for p
      by (cases p) (simp only:)
    then show ?thesis by (rule set_eqI)
  qed
  ultimately have "sort ?xs = ?ys" by (rule strict_sorted_unique)
  then show ?thesis by (simp add: oldest_completed_def prunable_def)
qed

text \<open>
  C28: Pruning removes exactly the oldest completed tasks not newer than the bound, at most as many as
  asked for, reports their number, never touches an unfinished task, and never finds the task
  counter of a namespace too small.
\<close>

theorem pruning_removes_exactly_the_oldest_completed_tasks:
  assumes "reach broker_init broker_step m" "prune_completed_tasks c m = (r, m')"
  shows "case r of
      Err e \<Rightarrow> m' = m \<and> (\<forall>ns. e \<noteq> TaskCountUnderflow ns)
    | Ok res \<Rightarrow> pr_pruned_count res = length (oldest_completed (sm_state m) (pc_completed_before_ms c) (pc_max_tasks c)) \<and>
        (\<forall>tid. fmlookup (the_tasks m') tid =
           (if tid \<in> snd ` set (oldest_completed (sm_state m) (pc_completed_before_ms c) (pc_max_tasks c))
            then None else fmlookup (the_tasks m) tid))"
proof -
  have inv: "broker_inv m" using assms(1) by (rule bk.reach_inv)
  note old = oldest_completed_prunable [OF inv, of "pc_completed_before_ms c" "pc_max_tasks c"]
  from assms(2) inv show ?thesis
    by (cases rule: prune_completed_tasks_cases) (auto simp: old)
qed

theorem pruning_removes_exactly_the_oldest_completed_tasks_witness:
  "\<exists>res m'. prune_completed_tasks \<lparr>pc_completed_before_ms = 50, pc_max_tasks = 3\<rparr> done_broker = (Ok res, m') \<and>
     pr_pruned_count res = 1 \<and> fmlookup (the_tasks m') tid2 = None \<and>
     fmlookup (the_tasks m') tid1 = fmlookup (the_tasks done_broker) tid1"
proof -
  let ?c = "\<lparr>pc_completed_before_ms = 50, pc_max_tasks = 3\<rparr>"
  obtain res m' where r: "prune_completed_tasks ?c done_broker = (Ok res, m')"
    by (simp add: done_broker_eq eval_broker prune_loop.simps cong: eval_cong)
  have "oldest_completed (sm_state done_broker) 50 3 = [(20, tid2)]"
    by (simp add: done_broker_eq oldest_completed_def)
  with pruning_removes_exactly_the_oldest_completed_tasks [OF scenario_reach(7) r] r show ?thesis by simp
qed

text \<open>
  C29: Capacity limits hold.  A successful publication, group, namespace or join command that adds an
  entity leaves no more tasks or groups in the namespace, namespaces in the broker, or members in
  the group, than the limit the command carries.
\<close>

theorem capacity_limits_hold:
  assumes "reach broker_init broker_step m"
  shows "(\<forall>c r m'. publish_task c m = (Ok r, m') \<and> fmlookup (the_tasks m) (pt_task_id c) = None \<longrightarrow>
      card {tid. ns_of (the_tasks m') tid = Some (pt_namespace_id c)} \<le> pt_max_namespace_tasks c) \<and>
    (\<forall>c r m'. ensure_consumer_group c m = (Ok r, m') \<and> fmlookup (the_groups m) (eg_group_id c) = None \<longrightarrow>
      card (groups_in (the_groups m') (eg_namespace_id c)) \<le> eg_max_namespace_groups c) \<and>
    (\<forall>c r m'. ensure_namespace c m = (Ok r, m') \<and> fmlookup (st_namespaces (sm_state m)) (en_namespace_id c) = None \<longrightarrow>
      fm_len (st_namespaces (sm_state m')) \<le> en_max_namespaces c) \<and>
    (\<forall>c r m' g. join_consumer_group c m = (Ok r, m') \<and> fmlookup (the_groups m) (jg_group_id c) = Some g \<and>
        jg_member_id c \<notin> members g \<longrightarrow> gr_member_count r \<le> jg_max_group_members c)"
proof (intro conjI allI impI; elim conjE)
  note inv = bk.reach_inv [OF assms]
  fix c r m'
  assume p: "publish_task c m = (Ok r, m')" "fmlookup (the_tasks m) (pt_task_id c) = None"
  have inv': "broker_inv m'" using publish_task_inv [OF p(1) inv] by blast
  show "card {tid. ns_of (the_tasks m') tid = Some (pt_namespace_id c)} \<le> pt_max_namespace_tasks c"
    using p(1)
  proof (cases rule: publish_task_cases)
    case (published rv)
    have "fm_get 0 (namespace_task_counts m') (pt_namespace_id c) = fm_get 0 (namespace_task_counts m) (pt_namespace_id c) + 1"
      by (simp add: published(5) push_ready_def)
    with published(3) inv' show ?thesis by (simp add: inv_ex_def task_counts_def)
  qed (use p(2) in simp_all)
next
  note inv = bk.reach_inv [OF assms]
  fix c r m'
  assume p: "ensure_consumer_group c m = (Ok r, m')" "fmlookup (the_groups m) (eg_group_id c) = None"
  have inv': "broker_inv m'" using ensure_consumer_group_inv [OF p(1) inv] by blast
  show "card (groups_in (the_groups m') (eg_namespace_id c)) \<le> eg_max_namespace_groups c"
    using p(1)
  proof (cases rule: ensure_consumer_group_cases)
    case (added rv)
    have "fm_get 0 (namespace_group_counts m') (eg_namespace_id c) = fm_get 0 (namespace_group_counts m) (eg_namespace_id c) + 1"
      by (simp add: added(4))
    with added(3) inv' show ?thesis by (simp add: inv_ex_def group_counts_def)
  qed (use p(2) in simp_all)
next
  fix c r m'
  assume p: "ensure_namespace c m = (Ok r, m')" "fmlookup (st_namespaces (sm_state m)) (en_namespace_id c) = None"
  from p(1) show "fm_len (st_namespaces (sm_state m')) \<le> en_max_namespaces c"
    by (cases rule: ensure_namespace_cases) (use p(2) in \<open>simp_all add: fmdom_notI\<close>)
next
  fix c r m' g
  assume p: "join_consumer_group c m = (Ok r, m')" "fmlookup (the_groups m) (jg_group_id c) = Some g" "jg_member_id c \<notin> members g"
  then have none: "fmlookup (group_consumers g) (jg_member_id c) = None" by (simp add: fmdom_notD)
  from p(1) show "gr_member_count r \<le> jg_max_group_members c"
    by (cases rule: join_consumer_group_cases)
      (use p(2) none in \<open>auto simp: join_Ok consumer_group_result_def consumer_count_def fmdom_notI\<close>)
qed

theorem capacity_limits_hold_witness:
  "\<exists>r m'. publish_task \<lparr>pt_namespace_id = ns1, pt_task_id = TaskId ''c'', pt_objective = ''third'',
        pt_created_at_ms = 7, pt_max_namespace_tasks = 3\<rparr> leased_broker = (Ok r, m') \<and>
     card {tid. ns_of (the_tasks m') tid = Some ns1} \<le> 3"
proof -
  let ?c = "\<lparr>pt_namespace_id = ns1, pt_task_id = TaskId ''c'', pt_objective = ''third'',
        pt_created_at_ms = 7, pt_max_namespace_tasks = 3\<rparr>"
  obtain r m' where "publish_task ?c leased_broker = (Ok r, m')"
    by (simp add: leased_broker_eq eval_broker cong: eval_cong)
  moreover have "fmlookup (the_tasks leased_broker) (pt_task_id ?c) = None" by (simp add: leased_broker_eq)
  ultimately have "card {tid. ns_of (the_tasks m') tid = Some (pt_namespace_id ?c)} \<le> pt_max_namespace_tasks ?c"
    using capacity_limits_hold [OF scenario_reach(6)] by blast
  with \<open>publish_task ?c leased_broker = (Ok r, m')\<close> show ?thesis by auto
qed

section \<open>Where the broker falls short\<close>


text \<open>
  C40: The expiration heap of a namespace outlives the tasks it speaks of.  A task is completed and
  pruned, published again in another namespace and leased there with the same epoch and expiry; once
  that lease has expired, a claim of a group of the first namespace is answered with the task of the
  second.
\<close>

abbreviation "ns2 \<equiv> NamespaceId ''o''"
abbreviation "gid2 \<equiv> ConsumerGroupId ''h''"

definition republish_history :: "BrokerCommand list" where
  "republish_history =
     [PruneCompletedTasks \<lparr>pc_completed_before_ms = 50, pc_max_tasks = 1\<rparr>,
      EnsureNamespace \<lparr>en_namespace_id = ns2, en_max_namespaces = 4\<rparr>,
      EnsureConsumerGroup \<lparr>eg_namespace_id = ns2, eg_group_id = gid2, eg_max_namespace_groups = 4\<rparr>,
      JoinConsumerGroup \<lparr>jg_group_id = gid2, jg_member_id = mid1, jg_capabilities = [], jg_now_ms = 60, jg_max_group_members = 4\<rparr>,
      PublishTask \<lparr>pt_namespace_id = ns2, pt_task_id = tid2, pt_objective = ''other'', pt_created_at_ms = 1, pt_max_namespace_tasks = 4\<rparr>,
      ClaimTask \<lparr>ct_group_id = gid2, ct_member_id = mid1, ct_expected_term = 1, ct_expected_generation = 1,
        ct_lease_id = LeaseId ''k'', ct_now_ms = 100, ct_lease_duration_ms = 10\<rparr>]"


end
