(* ===== verification/Recovery.thy ===== *)
theory Recovery
  imports Scenario Broker_Retry
begin

text \<open>
  Checkpoints of the broker (\<open>agent-broker-domain/src/checkpoint.rs\<close> and the checkpoint half of
  \<open>state_machine.rs\<close>): exporting the authoritative state, restoring it, and rebuilding every
  derived index.  A checkpoint is accepted exactly when it is well formed; a reachable broker is
  restored to the same state with exact indexes.
\<close>

section \<open>Export\<close>

record NamespaceCheckpoint =
  nc_namespace_id :: NamespaceId
  nc_revision :: Revision

record BrokerCheckpoint =
  bc_term :: Term
  bc_revision :: Revision
  bc_namespaces :: "NamespaceCheckpoint list"
  bc_tasks :: "TaskCheckpoint list"
  bc_groups :: "ConsumerGroupCheckpoint list"

definition Namespace_checkpoint :: "Namespace \<Rightarrow> NamespaceCheckpoint" where
  "Namespace_checkpoint n = \<lparr>nc_namespace_id = namespace_id n, nc_revision = namespace_revision n\<rparr>"

definition Namespace_from_checkpoint :: "NamespaceCheckpoint \<Rightarrow> Namespace" where
  "Namespace_from_checkpoint c = \<lparr>namespace_id = nc_namespace_id c, namespace_revision = nc_revision c\<rparr>"

definition BrokerState_checkpoint :: "BrokerState \<Rightarrow> BrokerCheckpoint" where
  "BrokerState_checkpoint s =
     \<lparr>bc_term = st_term s, bc_revision = st_revision s,
      bc_namespaces = map Namespace_checkpoint (fm_values (st_namespaces s)),
      bc_tasks = map Task_checkpoint (fm_values (st_tasks s)),
      bc_groups = map ConsumerGroup_checkpoint (fm_values (st_groups s))\<rparr>"

section \<open>Restoring the state\<close>

definition require_positive_revision :: "string \<Rightarrow> Revision \<Rightarrow> CheckpointError + unit" where
  "require_positive_revision entity r = (if r = 0 then Err (ZeroEntityRevision entity) else Ok ())"

definition restore_namespace :: "NamespaceCheckpoint \<Rightarrow> BrokerState \<Rightarrow> CheckpointError + BrokerState" where
  "restore_namespace c s =
     try_r (require_positive_revision ''namespace'' (nc_revision c)) (\<lambda>_.
     if fmlookup (st_namespaces s) (nc_namespace_id c) \<noteq> None
     then Err (DuplicateNamespace (nc_namespace_id c))
     else Ok (st_namespaces_update (fmupd (nc_namespace_id c) (Namespace_from_checkpoint c)) s))"

definition require_member_revisions :: "MemberCheckpoint list \<Rightarrow> CheckpointError + unit" where
  "require_member_revisions ms = try_fold (\<lambda>m _. require_positive_revision ''member'' (mc_revision m)) ms ()"

definition restore_group :: "ConsumerGroupCheckpoint \<Rightarrow> BrokerState \<Rightarrow> CheckpointError + BrokerState" where
  "restore_group c s =
     try_r (require_positive_revision ''Consumer Group'' (gc_revision c)) (\<lambda>_.
     try_r (require_member_revisions (gc_members c)) (\<lambda>_.
     if fmlookup (st_namespaces s) (gc_namespace_id c) = None
     then Err (UnknownNamespace ''Consumer Group'' (gc_namespace_id c))
     else try_r (ConsumerGroup_from_checkpoint c) (\<lambda>group.
          if fmlookup (st_groups s) (gc_group_id c) \<noteq> None
          then Err (DuplicateConsumerGroup (gc_group_id c))
          else Ok (st_groups_update (fmupd (gc_group_id c) group) s))))"

definition restore_task :: "TaskCheckpoint \<Rightarrow> BrokerState \<Rightarrow> CheckpointError + BrokerState" where
  "restore_task c s =
     try_r (require_positive_revision ''task'' (tc_revision c)) (\<lambda>_.
     if fmlookup (st_namespaces s) (tc_namespace_id c) = None
     then Err (UnknownNamespace ''task'' (tc_namespace_id c))
     else if fmlookup (st_tasks s) (tc_task_id c) \<noteq> None then Err (DuplicateTask (tc_task_id c))
     else Ok (st_tasks_update (fmupd (tc_task_id c) (Task_from_checkpoint c)) s))"

definition restore_state :: "BrokerCheckpoint \<Rightarrow> CheckpointError + BrokerState" where
  "restore_state c =
     try_r (try_fold restore_namespace (bc_namespaces c)
       \<lparr>st_term = bc_term c, st_revision = bc_revision c, st_namespaces = fmempty, st_tasks = fmempty,
        st_groups = fmempty\<rparr>) (\<lambda>s.
     try_r (try_fold restore_group (bc_groups c) s) (\<lambda>s.
     try_fold restore_task (bc_tasks c) s))"

section \<open>Rebuilding the indexes\<close>

record RestoredIndexes =
  ri_ready_tasks :: "(NamespaceId, ready_heap) fmap"
  ri_lease_expirations :: "(NamespaceId, expiration_heap) fmap"
  ri_active_lease_tasks :: "(LeaseId, TaskId) fmap"
  ri_member_lease_tasks :: "(ConsumerGroupId \<times> ConsumerId, TaskId fset) fmap"
  ri_completed_tasks :: "(TimestampMs \<times> TaskId) heap"
  ri_namespace_task_counts :: "(NamespaceId, usize) fmap"
  ri_namespace_group_counts :: "(NamespaceId, usize) fmap"

definition RestoredIndexes_default :: RestoredIndexes where
  "RestoredIndexes_default =
     \<lparr>ri_ready_tasks = fmempty, ri_lease_expirations = fmempty, ri_active_lease_tasks = fmempty,
      ri_member_lease_tasks = fmempty, ri_completed_tasks = [], ri_namespace_task_counts = fmempty,
      ri_namespace_group_counts = fmempty\<rparr>"

text \<open>\<open>*map.entry(k).or_default() += 1\<close> and \<open>map.entry(k).or_default().push(x)\<close>.\<close>

definition bump :: "NamespaceId \<Rightarrow> (NamespaceId, usize) fmap \<Rightarrow> (NamespaceId, usize) fmap" where
  "bump ns counts = fmupd ns (fm_get 0 counts ns + 1) counts"

definition push_at :: "'k \<Rightarrow> 'a::linorder \<Rightarrow> ('k, 'a heap) fmap \<Rightarrow> ('k, 'a heap) fmap" where
  "push_at k x heaps = fmupd k (heap_push x (fm_get [] heaps k)) heaps"

definition rebuild_task_indexes :: "Task \<Rightarrow> RestoredIndexes \<Rightarrow> CheckpointError + RestoredIndexes" where
  "rebuild_task_indexes t ix =
     (case task_state t of
        TaskState.Queued _ \<Rightarrow>
          Ok (ix\<lparr>ri_ready_tasks := push_at (task_namespace_id t) (task_created_at_ms t, task_id t) (ri_ready_tasks ix)\<rparr>)
      | TaskState.Leased lease \<Rightarrow>
          if fmlookup (ri_active_lease_tasks ix) (leased_lease_id lease) \<noteq> None
          then Err (DuplicateActiveLease (leased_lease_id lease))
          else (let key = (leased_group_id lease, leased_owner_member_id lease) in
            Ok (ix\<lparr>ri_active_lease_tasks := fmupd (leased_lease_id lease) (task_id t) (ri_active_lease_tasks ix),
                   ri_member_lease_tasks :=
                     fmupd key (finsert (task_id t) (fm_get {||} (ri_member_lease_tasks ix) key)) (ri_member_lease_tasks ix),
                   ri_lease_expirations :=
                     push_at (task_namespace_id t) (leased_expires_at_ms lease, task_id t, leased_lease_epoch lease)
                       (ri_lease_expirations ix)\<rparr>))
      | TaskState.Completed completed \<Rightarrow>
          Ok (ix\<lparr>ri_completed_tasks := heap_push (completed_completed_at_ms completed, task_id t) (ri_completed_tasks ix)\<rparr>))"

definition rebuild_indexes :: "BrokerState \<Rightarrow> CheckpointError + RestoredIndexes" where
  "rebuild_indexes s =
     try_fold
       (\<lambda>t ix. rebuild_task_indexes t
          (ix\<lparr>ri_namespace_task_counts := bump (task_namespace_id t) (ri_namespace_task_counts ix)\<rparr>))
       (fm_values (st_tasks s))
       (RestoredIndexes_default
          \<lparr>ri_namespace_group_counts := fold (\<lambda>g. bump (group_namespace_id g)) (fm_values (st_groups s)) fmempty\<rparr>)"

definition from_checkpoint :: "BrokerCheckpoint \<Rightarrow> CheckpointError + BrokerStateMachine" where
  "from_checkpoint c =
     try_r (restore_state c) (\<lambda>state.
     try_r (rebuild_indexes state) (\<lambda>indexes.
     Ok \<lparr>sm_state = state, ready_tasks = ri_ready_tasks indexes,
         lease_expirations = ri_lease_expirations indexes,
         active_lease_tasks = ri_active_lease_tasks indexes,
         member_lease_tasks = ri_member_lease_tasks indexes,
         completed_tasks = ri_completed_tasks indexes,
         namespace_task_counts = ri_namespace_task_counts indexes,
         namespace_group_counts = ri_namespace_group_counts indexes,
         changed_namespaces = {||}, changed_tasks = {||}, deleted_tasks = {||}, changed_groups = {||}\<rparr>))"

section \<open>What a checkpoint must satisfy\<close>

definition member_checkpoints_ok :: "MemberCheckpoint list \<Rightarrow> bool" where
  "member_checkpoints_ok ms \<longleftrightarrow> distinct (map mc_member_id ms) \<and> (\<forall>m \<in> set ms. mc_revision m \<noteq> 0)"

definition checkpoint_state_ok :: "BrokerCheckpoint \<Rightarrow> bool" where
  "checkpoint_state_ok c \<longleftrightarrow>
     distinct (map nc_namespace_id (bc_namespaces c)) \<and> (\<forall>n \<in> set (bc_namespaces c). nc_revision n \<noteq> 0) \<and>
     distinct (map gc_group_id (bc_groups c)) \<and>
     (\<forall>g \<in> set (bc_groups c). gc_revision g \<noteq> 0 \<and> member_checkpoints_ok (gc_members g) \<and>
        gc_namespace_id g \<in> nc_namespace_id ` set (bc_namespaces c)) \<and>
     distinct (map tc_task_id (bc_tasks c)) \<and>
     (\<forall>t \<in> set (bc_tasks c). tc_revision t \<noteq> 0 \<and> tc_namespace_id t \<in> nc_namespace_id ` set (bc_namespaces c))"

definition checkpoint_lease :: "TaskCheckpoint \<Rightarrow> LeaseId option" where
  "checkpoint_lease t = (case tc_state t of TaskCheckpointState.Leased lid _ _ _ _ _ \<Rightarrow> Some lid | _ \<Rightarrow> None)"

definition checkpoint_ok :: "BrokerCheckpoint \<Rightarrow> bool" where
  "checkpoint_ok c \<longleftrightarrow> checkpoint_state_ok c \<and>
     (\<forall>t \<in> set (bc_tasks c). \<forall>t' \<in> set (bc_tasks c).
        checkpoint_lease t \<noteq> None \<longrightarrow> checkpoint_lease t = checkpoint_lease t' \<longrightarrow> tc_task_id t = tc_task_id t')"

definition restored_group :: "ConsumerGroupCheckpoint \<Rightarrow> ConsumerGroup" where
  "restored_group c =
     \<lparr>group_id = gc_group_id c, group_namespace_id = gc_namespace_id c, group_generation = gc_generation c,
      group_revision = gc_revision c,
      group_consumers = fm_enter mc_member_id Consumer_from_checkpoint (gc_members c) fmempty\<rparr>"

definition restored_state :: "BrokerCheckpoint \<Rightarrow> BrokerState" where
  "restored_state c =
     \<lparr>st_term = bc_term c, st_revision = bc_revision c,
      st_namespaces = fm_enter nc_namespace_id Namespace_from_checkpoint (bc_namespaces c) fmempty,
      st_tasks = fm_enter tc_task_id Task_from_checkpoint (bc_tasks c) fmempty,
      st_groups = fm_enter gc_group_id restored_group (bc_groups c) fmempty\<rparr>"

lemma require_positive_revision_Ok [simp]: "require_positive_revision e r = Ok u \<longleftrightarrow> r \<noteq> 0"
  by (simp add: require_positive_revision_def)

lemma require_member_revisions_Ok [simp]:
  "require_member_revisions ms = Ok u \<longleftrightarrow> (\<forall>m \<in> set ms. mc_revision m \<noteq> 0)"
  unfolding require_member_revisions_def by (induction ms) (auto simp: try_r_Ok)

lemma restore_members_fold:
  "restore_members ms cs = try_fold (\<lambda>m cs. if fmlookup cs (mc_member_id m) \<noteq> None then Err (DuplicateMember (mc_member_id m))
     else Ok (fmupd (mc_member_id m) (Consumer_from_checkpoint m) cs)) ms cs"
  by (induction ms cs rule: restore_members.induct) simp_all

lemma ConsumerGroup_from_checkpoint_Ok:
  "ConsumerGroup_from_checkpoint c = Ok g \<longleftrightarrow> distinct (map mc_member_id (gc_members c)) \<and> g = restored_group c"
proof -
  have "restore_members ms fmempty = Ok cs \<longleftrightarrow> distinct (map mc_member_id ms) \<and>
      cs = fm_enter mc_member_id Consumer_from_checkpoint ms fmempty" for ms cs
    unfolding restore_members_fold
    by (subst try_fold_enter [where R = "\<lambda>_. True" and good = "\<lambda>_. True" and key = mc_member_id
          and val = Consumer_from_checkpoint and tab = "\<lambda>m. m" and put = "\<lambda>g. g"])
      (auto simp: fmlookup_dom_iff split: if_splits)
  then show ?thesis by (auto simp: ConsumerGroup_from_checkpoint_def try_r_Ok restored_group_def)
qed

lemma restore_state_Ok: "restore_state c = Ok s \<longleftrightarrow> checkpoint_state_ok c \<and> s = restored_state c"
proof -
  have ns: "try_fold restore_namespace ns s = Ok s' \<longleftrightarrow>
      (\<forall>n \<in> set ns. nc_revision n \<noteq> 0 \<and> nc_namespace_id n |\<notin>| fmdom (st_namespaces s)) \<and> distinct (map nc_namespace_id ns) \<and>
      s' = st_namespaces_update (fm_enter nc_namespace_id Namespace_from_checkpoint ns) s" for ns s s'
    by (rule try_fold_enter [where R = "\<lambda>_. True" and tab = st_namespaces])
      (auto simp: restore_namespace_def try_r_Ok fmlookup_dom_iff)
  have gs: "try_fold restore_group gs s = Ok s' \<longleftrightarrow>
      (\<forall>g \<in> set gs. (gc_revision g \<noteq> 0 \<and> member_checkpoints_ok (gc_members g) \<and> gc_namespace_id g |\<in>| fmdom (st_namespaces s)) \<and>
         gc_group_id g |\<notin>| fmdom (st_groups s)) \<and> distinct (map gc_group_id gs) \<and>
      s' = st_groups_update (fm_enter gc_group_id restored_group gs) s" for gs s s'
    by (rule try_fold_enter [where R = "\<lambda>s'. st_namespaces s' = st_namespaces s" and tab = st_groups])
      (auto simp: restore_group_def try_r_Ok fmlookup_dom_iff ConsumerGroup_from_checkpoint_Ok member_checkpoints_ok_def)
  have ts: "try_fold restore_task ts s = Ok s' \<longleftrightarrow>
      (\<forall>t \<in> set ts. (tc_revision t \<noteq> 0 \<and> tc_namespace_id t |\<in>| fmdom (st_namespaces s)) \<and>
         tc_task_id t |\<notin>| fmdom (st_tasks s)) \<and> distinct (map tc_task_id ts) \<and>
      s' = st_tasks_update (fm_enter tc_task_id Task_from_checkpoint ts) s" for ts s s'
    by (rule try_fold_enter [where R = "\<lambda>s'. st_namespaces s' = st_namespaces s" and tab = st_tasks])
      (auto simp: restore_task_def try_r_Ok fmlookup_dom_iff)
  show ?thesis
    by (auto simp: restore_state_def try_r_Ok ns gs ts checkpoint_state_ok_def restored_state_def)
qed

section \<open>Exact indexes\<close>

definition exact_ready :: "(TaskId, Task) fmap \<Rightarrow> (NamespaceId, ready_heap) fmap \<Rightarrow> bool" where
  "exact_ready ts heaps \<longleftrightarrow>
     (\<forall>ns. sorted_wrt (<) (fm_get [] heaps ns) \<and>
        set (fm_get [] heaps ns) = {(c, tid). ns_of ts tid = Some ns \<and> ready_of ts tid = Some c})"

definition exact_expirations :: "(TaskId, Task) fmap \<Rightarrow> (NamespaceId, expiration_heap) fmap \<Rightarrow> bool" where
  "exact_expirations ts heaps \<longleftrightarrow>
     (\<forall>ns. sorted_wrt (<) (fm_get [] heaps ns) \<and>
        set (fm_get [] heaps ns) = {(x, tid, e). ns_of ts tid = Some ns \<and>
          (\<exists>l. lease_of ts tid = Some l \<and> x = leased_expires_at_ms l \<and> e = leased_lease_epoch l)})"

definition exact_indexes :: "(TaskId, Task) fmap \<Rightarrow> RestoredIndexes \<Rightarrow> bool" where
  "exact_indexes ts ix \<longleftrightarrow>
     active_index ts (ri_active_lease_tasks ix) \<and> member_index {} ts (ri_member_lease_tasks ix) \<and>
     exact_ready ts (ri_ready_tasks ix) \<and> exact_expirations ts (ri_lease_expirations ix) \<and>
     completed_index ts (ri_completed_tasks ix) \<and> task_counts ts (ri_namespace_task_counts ix)"

lemma exact_default: "exact_indexes fmempty (RestoredIndexes_default\<lparr>ri_namespace_group_counts := n\<rparr>)"
  by (simp add: exact_indexes_def RestoredIndexes_default_def active_index_def member_index_def exact_ready_def
      exact_expirations_def completed_index_def task_counts_def)

lemma fm_get_push_at [simp]:
  "fm_get [] (push_at k x heaps) k' = (if k' = k then heap_push x (fm_get [] heaps k) else fm_get [] heaps k')"
  by (simp add: push_at_def)

lemma exact_ready_same:
  "fmlookup ts tid = None \<Longrightarrow> exact_ready ts h \<Longrightarrow> task_ready t = None \<Longrightarrow> exact_ready (fmupd tid t ts) h"
  unfolding exact_ready_def by (auto simp: look_None split: if_splits simp del: task_view_simps)

lemma exact_ready_push:
  "fmlookup ts tid = None \<Longrightarrow> exact_ready ts h \<Longrightarrow> task_ready t = Some c \<Longrightarrow>
   exact_ready (fmupd tid t ts) (push_at (task_namespace_id t) (c, tid) h)"
  unfolding exact_ready_def by (auto simp: look_None split: if_splits simp del: task_view_simps)

lemma exact_expirations_same:
  "fmlookup ts tid = None \<Longrightarrow> exact_expirations ts h \<Longrightarrow> task_lease t = None \<Longrightarrow> exact_expirations (fmupd tid t ts) h"
  unfolding exact_expirations_def by (auto simp: look_None split: if_splits simp del: task_view_simps)

lemma exact_expirations_push:
  "fmlookup ts tid = None \<Longrightarrow> exact_expirations ts h \<Longrightarrow> task_lease t = Some l \<Longrightarrow>
   exact_expirations (fmupd tid t ts) (push_at (task_namespace_id t) (leased_expires_at_ms l, tid, leased_lease_epoch l) h)"
  unfolding exact_expirations_def by (auto simp: look_None split: if_splits simp del: task_view_simps)

lemma exact_step:
  assumes "exact_indexes ts ix" "fmlookup ts (task_id t) = None"
    and "rebuild_task_indexes t (ix\<lparr>ri_namespace_task_counts := bump (task_namespace_id t) (ri_namespace_task_counts ix)\<rparr>) = Ok ix'"
  shows "exact_indexes (fmupd (task_id t) t ts) ix'"
proof -
  note ex = assms(1) [unfolded exact_indexes_def]
  have counts: "task_counts (fmupd (task_id t) t ts) (bump (task_namespace_id t) (ri_namespace_task_counts ix))"
    using counts_new [OF _ assms(2) refl] ex by (simp add: bump_def)
  note look_None = look_None [OF assms(2)]
  show ?thesis
  proof (cases "task_state t")
    case (Queued q)
    note v = task_view_state(1) [OF Queued] and k = task_lid_key(2) [OF conjunct1 [OF task_view_state(1) [OF Queued]]]
    from assms(3) Queued have ix': "ix' = ix\<lparr>ri_namespace_task_counts := bump (task_namespace_id t) (ri_namespace_task_counts ix),
        ri_ready_tasks := push_at (task_namespace_id t) (task_created_at_ms t, task_id t) (ri_ready_tasks ix)\<rparr>"
      by (simp add: rebuild_task_indexes_def)
    from ex counts v k show ?thesis
      by (simp add: exact_indexes_def ix' active_same member_same completed_same look_None exact_ready_push [OF assms(2)]
          exact_expirations_same [OF assms(2)] del: task_view_simps)
  next
    case (Leased l)
    note v = task_view_state(2) [OF Leased] and k = task_lid_key(1) [OF Leased]
    let ?key = "(leased_group_id l, leased_owner_member_id l)"
    from assms(3) Leased have free: "fmlookup (ri_active_lease_tasks ix) (leased_lease_id l) = None"
      by (auto simp: rebuild_task_indexes_def split: if_splits)
    with assms(3) Leased have ix': "ix' = ix\<lparr>ri_namespace_task_counts := bump (task_namespace_id t) (ri_namespace_task_counts ix),
        ri_active_lease_tasks := fmupd (leased_lease_id l) (task_id t) (ri_active_lease_tasks ix),
        ri_member_lease_tasks := fmupd ?key (finsert (task_id t) (fm_get {||} (ri_member_lease_tasks ix) ?key)) (ri_member_lease_tasks ix),
        ri_lease_expirations := push_at (task_namespace_id t) (leased_expires_at_ms l, task_id t, leased_lease_epoch l) (ri_lease_expirations ix)\<rparr>"
      by (simp add: rebuild_task_indexes_def Let_def)
    from ex counts v k show ?thesis
      by (simp add: exact_indexes_def ix' active_grant free member_grant completed_same look_None exact_ready_same [OF assms(2)]
          exact_expirations_push [OF assms(2)] del: task_view_simps)
  next
    case (Completed c)
    note v = task_view_state(3) [OF Completed] and k = task_lid_key(2) [OF conjunct1 [OF task_view_state(3) [OF Completed]]]
    from assms(3) Completed have ix': "ix' = ix\<lparr>ri_namespace_task_counts := bump (task_namespace_id t) (ri_namespace_task_counts ix),
        ri_completed_tasks := heap_push (completed_completed_at_ms c, task_id t) (ri_completed_tasks ix)\<rparr>"
      by (simp add: rebuild_task_indexes_def)
    from ex counts v k show ?thesis
      by (simp add: exact_indexes_def ix' active_same member_same completed_push look_None exact_ready_same [OF assms(2)]
          exact_expirations_same [OF assms(2)] del: task_view_simps)
  qed
qed

text \<open>A step fails only on a lease identity that is already active.\<close>

lemma rebuild_step_Ok:
  assumes "active_index ts (ri_active_lease_tasks ix)"
  shows "(\<exists>ix'. rebuild_task_indexes t (ix\<lparr>ri_namespace_task_counts := n\<rparr>) = Ok ix') \<longleftrightarrow>
    (\<forall>tid. task_lid t \<noteq> None \<longrightarrow> lid_of ts tid \<noteq> task_lid t)"
proof (cases "task_state t")
  case (Leased l)
  have "fmlookup (ri_active_lease_tasks ix) lid = None \<longleftrightarrow> (\<forall>tid. lid_of ts tid \<noteq> Some lid)" for lid
    using assms unfolding active_index_def by (metis not_None_eq)
  then show ?thesis using Leased by (auto simp: rebuild_task_indexes_def task_lid_key Let_def)
qed (auto simp: rebuild_task_indexes_def task_lid_def task_view_state)

abbreviation rebuild_step :: "Task \<Rightarrow> RestoredIndexes \<Rightarrow> CheckpointError + RestoredIndexes" where
  "rebuild_step t ix \<equiv>
     rebuild_task_indexes t (ix\<lparr>ri_namespace_task_counts := bump (task_namespace_id t) (ri_namespace_task_counts ix)\<rparr>)"

definition leases_distinct :: "(TaskId, Task) fmap \<Rightarrow> bool" where
  "leases_distinct ts \<longleftrightarrow> (\<forall>tid tid' lid. lid_of ts tid = Some lid \<longrightarrow> lid_of ts tid' = Some lid \<longrightarrow> tid = tid')"

lemma active_leases_distinct: "active_index ts a \<Longrightarrow> leases_distinct ts"
  unfolding active_index_def leases_distinct_def by (metis option.inject)

lemma rebuild_loop_exact:
  assumes "exact_indexes ts ix" "distinct (map task_id xs)" "\<forall>t \<in> set xs. fmlookup ts (task_id t) = None"
    and "try_fold rebuild_step xs ix = Ok ix'"
  shows "exact_indexes (fm_enter task_id id xs ts) ix' \<and> ri_namespace_group_counts ix' = ri_namespace_group_counts ix"
  using assms
proof (induction xs arbitrary: ts ix)
  case (Cons t xs)
  from Cons.prems(4) obtain ix1 where ix1: "rebuild_step t ix = Ok ix1" "try_fold rebuild_step xs ix1 = Ok ix'"
    by (auto simp: try_r_Ok)
  have "ri_namespace_group_counts ix1 = ri_namespace_group_counts ix"
    using ix1(1) by (auto simp: rebuild_task_indexes_def Let_def split: TaskState.splits if_splits)
  moreover have "exact_indexes (fmupd (task_id t) t ts) ix1"
    using exact_step [OF Cons.prems(1) _ ix1(1)] Cons.prems(3) by simp
  ultimately show ?case
    using Cons.IH [OF _ _ _ ix1(2), of "fmupd (task_id t) t ts"] Cons.prems(2,3) by (auto simp: image_iff)
qed simp

lemma look_enter:
  assumes "distinct (map task_id xs)"
  shows "look f (fm_enter task_id id xs ts) tid = Some v \<longleftrightarrow>
    (\<exists>t \<in> set xs. task_id t = tid \<and> f t = Some v) \<or> tid \<notin> task_id ` set xs \<and> look f ts tid = Some v"
  unfolding look_Some lookup_enter [OF assms] by auto

lemma rebuild_loop_Ok:
  assumes "exact_indexes ts ix" "distinct (map task_id xs)" "\<forall>t \<in> set xs. fmlookup ts (task_id t) = None"
  shows "(\<exists>ix'. try_fold rebuild_step xs ix = Ok ix') \<longleftrightarrow> leases_distinct (fm_enter task_id id xs ts)"
  using assms
proof (induction xs arbitrary: ts ix)
  case Nil
  then show ?case using active_leases_distinct by (auto simp: exact_indexes_def)
next
  case (Cons t xs)
  note step = rebuild_step_Ok [of ts ix t "bump (task_namespace_id t) (ri_namespace_task_counts ix)"]
  show ?case
  proof (cases "\<exists>ix1. rebuild_step t ix = Ok ix1")
    case True
    then obtain ix1 where ix1: "rebuild_step t ix = Ok ix1" by blast
    have "exact_indexes (fmupd (task_id t) t ts) ix1"
      using exact_step [OF Cons.prems(1) _ ix1] Cons.prems(3) by simp
    moreover have "distinct (map task_id xs)" "\<forall>x \<in> set xs. fmlookup (fmupd (task_id t) t ts) (task_id x) = None"
      using Cons.prems(2,3) by (auto simp: image_iff)
    ultimately have "(\<exists>ix'. try_fold rebuild_step xs ix1 = Ok ix') \<longleftrightarrow>
        leases_distinct (fm_enter task_id id xs (fmupd (task_id t) t ts))"
      by (rule Cons.IH)
    then show ?thesis by (simp add: ix1 id_def)
  next
    case False
    then obtain tid lid where clash: "lid_of ts tid = Some lid" "task_lid t = Some lid"
      using step Cons.prems(1) by (auto simp: exact_indexes_def)
    then have "fmlookup ts tid \<noteq> None" by (auto simp: look_Some)
    then have old: "tid \<notin> task_id ` set (t # xs)" using Cons.prems(3) by force
    have "lid_of (fm_enter task_id id (t # xs) ts) tid = Some lid"
      using clash old unfolding look_enter [OF Cons.prems(2)] by blast
    moreover have "lid_of (fm_enter task_id id (t # xs) ts) (task_id t) = Some lid"
      unfolding look_enter [OF Cons.prems(2)] using clash by auto
    ultimately have "\<not> leases_distinct (fm_enter task_id id (t # xs) ts)"
      using old unfolding leases_distinct_def by (metis image_eqI list.set_intros(1))
    moreover from False have "\<nexists>ix'. try_fold rebuild_step (t # xs) ix = Ok ix'" by (simp add: try_r_Ok)
    ultimately show ?thesis by blast
  qed
qed

lemma bump_counts:
  "fm_get 0 (fold (\<lambda>g. bump (group_namespace_id g)) gs n) ns =
     fm_get 0 n ns + length (filter (\<lambda>g. group_namespace_id g = ns) gs)"
  by (induction gs arbitrary: n) (simp_all add: bump_def)

lemma rebuilt_group_counts:
  assumes "\<And>gid g. fmlookup groups gid = Some g \<Longrightarrow> group_id g = gid"
  shows "group_counts groups (fold (\<lambda>g. bump (group_namespace_id g)) (fm_values groups) fmempty)"
proof -
  have keys: "distinct (map group_id (fm_values groups))"
    using fm_values_enter(1) [of groups group_id] assms by simp
  have "length (filter (\<lambda>g. group_namespace_id g = ns) (fm_values groups)) = card (groups_in groups ns)" for ns
  proof -
    let ?fs = "filter (\<lambda>g. group_namespace_id g = ns) (fm_values groups)"
    have "distinct (map group_id ?fs)" using keys by (simp add: distinct_map_filter)
    then have "length ?fs = card (set (map group_id ?fs))" by (simp only: distinct_card length_map)
    also have "set (map group_id ?fs) = groups_in groups ns"
      using assms by (auto simp: groups_in_def in_fm_values image_iff)
    finally show ?thesis .
  qed
  then show ?thesis by (simp add: group_counts_def bump_counts)
qed

lemma rebuild_indexes_Ok:
  assumes "\<And>tid t. fmlookup (st_tasks s) tid = Some t \<Longrightarrow> task_id t = tid"
  shows "(\<exists>ix. rebuild_indexes s = Ok ix) \<longleftrightarrow> leases_distinct (st_tasks s)"
    and "rebuild_indexes s = Ok ix \<Longrightarrow> exact_indexes (st_tasks s) ix \<and>
      ri_namespace_group_counts ix = fold (\<lambda>g. bump (group_namespace_id g)) (fm_values (st_groups s)) fmempty"
proof -
  have keys: "distinct (map task_id (fm_values (st_tasks s)))"
    using fm_values_enter(1) [of "st_tasks s" task_id] assms by simp
  have all: "fm_enter task_id id (fm_values (st_tasks s)) fmempty = st_tasks s"
    using fm_values_enter(2) [of "st_tasks s" task_id] assms by simp
  show "(\<exists>ix. rebuild_indexes s = Ok ix) \<longleftrightarrow> leases_distinct (st_tasks s)"
    using rebuild_loop_Ok [OF exact_default keys] unfolding rebuild_indexes_def all by simp
  show "exact_indexes (st_tasks s) ix \<and>
      ri_namespace_group_counts ix = fold (\<lambda>g. bump (group_namespace_id g)) (fm_values (st_groups s)) fmempty"
    if "rebuild_indexes s = Ok ix"
    using rebuild_loop_exact [OF exact_default keys _ that [unfolded rebuild_indexes_def]] unfolding all by simp
qed

section \<open>Acceptance and round trip\<close>

lemma restored_keys:
  assumes "checkpoint_state_ok c"
  shows "fmlookup (st_namespaces (restored_state c)) ns = Some n \<longleftrightarrow>
      (\<exists>x \<in> set (bc_namespaces c). nc_namespace_id x = ns \<and> n = Namespace_from_checkpoint x)"
    and "fmlookup (st_tasks (restored_state c)) tid = Some t \<longleftrightarrow>
      (\<exists>x \<in> set (bc_tasks c). tc_task_id x = tid \<and> t = Task_from_checkpoint x)"
    and "fmlookup (st_groups (restored_state c)) gid = Some g \<longleftrightarrow>
      (\<exists>x \<in> set (bc_groups c). gc_group_id x = gid \<and> g = restored_group x)"
    and "fmlookup (st_tasks (restored_state c)) tid = Some t \<Longrightarrow> task_id t = tid"
    and "fmlookup (st_groups (restored_state c)) gid = Some g \<Longrightarrow> group_id g = gid"
  using assms by (auto simp: restored_state_def checkpoint_state_ok_def lookup_enter Task_from_checkpoint_def restored_group_def)

lemma restored_lid:
  "task_lid (Task_from_checkpoint x) = checkpoint_lease x"
  by (cases "tc_state x") (auto simp: Task_from_checkpoint_def checkpoint_lease_def task_lid_def task_lease_def)

lemma from_checkpoint_Ok_iff: "(\<exists>m. from_checkpoint c = Ok m) \<longleftrightarrow> checkpoint_ok c"
proof (cases "checkpoint_state_ok c")
  case True
  note keys = restored_keys [OF True]
  have "(\<exists>m. from_checkpoint c = Ok m) \<longleftrightarrow> (\<exists>ix. rebuild_indexes (restored_state c) = Ok ix)"
    using True by (auto simp: from_checkpoint_def try_r_Ok restore_state_Ok)
  also have "\<dots> \<longleftrightarrow> leases_distinct (st_tasks (restored_state c))"
    using rebuild_indexes_Ok(1) [of "restored_state c"] keys(4) by blast
  also have "\<dots> \<longleftrightarrow> checkpoint_ok c"
  proof -
    have lid: "lid_of (st_tasks (restored_state c)) tid = Some lid \<longleftrightarrow>
        (\<exists>x \<in> set (bc_tasks c). tc_task_id x = tid \<and> checkpoint_lease x = Some lid)" for tid lid
      by (auto simp: look_Some keys(2) restored_lid)
    have "leases_distinct (st_tasks (restored_state c)) \<longleftrightarrow>
        (\<forall>x \<in> set (bc_tasks c). \<forall>x' \<in> set (bc_tasks c). \<forall>lid.
           checkpoint_lease x = Some lid \<longrightarrow> checkpoint_lease x' = Some lid \<longrightarrow> tc_task_id x = tc_task_id x')"
      unfolding leases_distinct_def lid by blast
    moreover have "(\<forall>lid. a = Some lid \<longrightarrow> b = Some lid \<longrightarrow> P) \<longleftrightarrow> (a \<noteq> None \<longrightarrow> a = b \<longrightarrow> P)" for a b :: "LeaseId option" and P
      by (cases a) auto
    ultimately show ?thesis using True unfolding checkpoint_ok_def by simp
  qed
  finally show ?thesis .
qed (simp add: from_checkpoint_def try_r_Ok restore_state_Ok checkpoint_ok_def)

lemma exact_ready_index: "exact_ready ts h \<Longrightarrow> ready_index ts h"
  unfolding exact_ready_def ready_index_def by auto

lemma from_checkpoint_Ok:
  assumes "from_checkpoint c = Ok m"
  shows "sm_state m = restored_state c" "checkpoint_state_ok c"
    and "active_index (the_tasks m) (active_lease_tasks m)" "member_index {} (the_tasks m) (member_lease_tasks m)"
    and "exact_ready (the_tasks m) (ready_tasks m)" "exact_expirations (the_tasks m) (lease_expirations m)"
    and "completed_index (the_tasks m) (completed_tasks m)" "task_counts (the_tasks m) (namespace_task_counts m)"
    and "group_counts (the_groups m) (namespace_group_counts m)"
proof -
  from assms obtain ix where ok: "checkpoint_state_ok c" and ix: "rebuild_indexes (restored_state c) = Ok ix"
    and m: "m = \<lparr>sm_state = restored_state c, ready_tasks = ri_ready_tasks ix,
         lease_expirations = ri_lease_expirations ix, active_lease_tasks = ri_active_lease_tasks ix,
         member_lease_tasks = ri_member_lease_tasks ix, completed_tasks = ri_completed_tasks ix,
         namespace_task_counts = ri_namespace_task_counts ix, namespace_group_counts = ri_namespace_group_counts ix,
         changed_namespaces = {||}, changed_tasks = {||}, deleted_tasks = {||}, changed_groups = {||}\<rparr>"
    by (auto simp: from_checkpoint_def try_r_Ok restore_state_Ok)
  have exact: "exact_indexes (st_tasks (restored_state c)) ix"
    "ri_namespace_group_counts ix = fold (\<lambda>g. bump (group_namespace_id g)) (fm_values (st_groups (restored_state c))) fmempty"
    using rebuild_indexes_Ok(2) [of "restored_state c" ix] restored_keys(4) [OF ok] ix by blast+
  have "group_counts (st_groups (restored_state c)) (ri_namespace_group_counts ix)"
    unfolding exact(2) by (rule rebuilt_group_counts) (rule restored_keys(5) [OF ok])
  with exact(1) ok show "sm_state m = restored_state c" "checkpoint_state_ok c"
    "active_index (the_tasks m) (active_lease_tasks m)" "member_index {} (the_tasks m) (member_lease_tasks m)"
    "exact_ready (the_tasks m) (ready_tasks m)" "exact_expirations (the_tasks m) (lease_expirations m)"
    "completed_index (the_tasks m) (completed_tasks m)" "task_counts (the_tasks m) (namespace_task_counts m)"
    "group_counts (the_groups m) (namespace_group_counts m)"
    by (simp_all add: m exact_indexes_def)
qed

text \<open>Exporting and restoring: one table, then the whole state.\<close>

lemma checkpoint_fields [simp]:
  "mc_member_id (Consumer_checkpoint c) = consumer_id c" "mc_revision (Consumer_checkpoint c) = consumer_revision c"
  "gc_group_id (ConsumerGroup_checkpoint g) = group_id g" "gc_revision (ConsumerGroup_checkpoint g) = group_revision g"
  "gc_namespace_id (ConsumerGroup_checkpoint g) = group_namespace_id g"
  "gc_members (ConsumerGroup_checkpoint g) = map Consumer_checkpoint (fm_values (group_consumers g))"
  "tc_task_id (Task_checkpoint t) = task_id t" "tc_revision (Task_checkpoint t) = task_revision t"
  "tc_namespace_id (Task_checkpoint t) = task_namespace_id t"
  "nc_namespace_id (Namespace_checkpoint n) = namespace_id n" "nc_revision (Namespace_checkpoint n) = namespace_revision n"
  "Namespace_from_checkpoint (Namespace_checkpoint n) = n"
  by (simp_all add: Consumer_checkpoint_def ConsumerGroup_checkpoint_def Task_checkpoint_def Namespace_checkpoint_def
      Namespace_from_checkpoint_def)

lemma Namespace_round [simp]: "Namespace_checkpoint (Namespace_from_checkpoint c) = c"
  by (simp add: Namespace_checkpoint_def Namespace_from_checkpoint_def)

lemma exported_keys:
  assumes "\<And>k v. fmlookup m k = Some v \<Longrightarrow> key (export v) = k"
  shows "map key (map export (fm_values m)) = sorted_list_of_fset (fmdom m)"
  using fm_values_enter(1) [of m "\<lambda>v. key (export v)"] assms by (simp add: comp_def)

lemma enter_exported:
  assumes "\<And>k v. fmlookup m k = Some v \<Longrightarrow> key (export v) = k \<and> val (export v) = v"
  shows "fm_enter key val (map export (fm_values m)) fmempty = m"
proof -
  have keys: "fm_enter (\<lambda>v. key (export v)) id (fm_values m) fmempty = m"
    using fm_values_enter(2) [of m "\<lambda>v. key (export v)"] assms by blast
  have "fm_enter key val (map export (fm_values m)) fmempty = fm_enter (\<lambda>v. key (export v)) id (fm_values m) fmempty"
    unfolding fm_enter_def fold_map comp_def using assms by (intro fold_cong) (auto simp: in_fm_values)
  with keys show ?thesis by simp
qed

lemma restored_group_checkpoint:
  assumes "group_wf g"
  shows "restored_group (ConsumerGroup_checkpoint g) = g" "member_checkpoints_ok (map Consumer_checkpoint (fm_values (group_consumers g)))"
proof -
  have key: "fmlookup (group_consumers g) k = Some v \<Longrightarrow> consumer_id v = k \<and> consumer_revision v \<noteq> 0" for k v
    using assms by (auto simp: group_wf_def)
  then have enter: "map mc_member_id (map Consumer_checkpoint (fm_values (group_consumers g))) =
      sorted_list_of_fset (fmdom (group_consumers g))"
    "fm_enter mc_member_id Consumer_from_checkpoint (map Consumer_checkpoint (fm_values (group_consumers g))) fmempty =
      group_consumers g"
    by (simp_all add: exported_keys enter_exported del: map_map)
  show "restored_group (ConsumerGroup_checkpoint g) = g"
    by (simp add: restored_group_def enter(2)) (simp add: ConsumerGroup_checkpoint_def)
  show "member_checkpoints_ok (map Consumer_checkpoint (fm_values (group_consumers g)))"
    using key unfolding member_checkpoints_ok_def enter(1) by (auto simp: in_fm_values)
qed

lemma checkpoint_round:
  assumes "entities_wf s"
  shows "checkpoint_state_ok (BrokerState_checkpoint s)" "restored_state (BrokerState_checkpoint s) = s"
proof -
  have ns: "fmlookup (st_namespaces s) k = Some n \<Longrightarrow> namespace_id n = k \<and> namespace_revision n \<noteq> 0" for k n
    using assms by (simp add: entities_wf_def)
  have ts: "fmlookup (st_tasks s) k = Some t \<Longrightarrow>
      task_id t = k \<and> task_revision t \<noteq> 0 \<and> task_namespace_id t |\<in>| fmdom (st_namespaces s)" for k t
    using assms by (simp add: entities_wf_def)
  have gs: "fmlookup (st_groups s) k = Some g \<Longrightarrow>
      group_id g = k \<and> group_wf g \<and> group_namespace_id g |\<in>| fmdom (st_namespaces s)" for k g
    using assms by (simp add: entities_wf_def)
  have n: "map nc_namespace_id (map Namespace_checkpoint (fm_values (st_namespaces s))) = sorted_list_of_fset (fmdom (st_namespaces s))"
    "fm_enter nc_namespace_id Namespace_from_checkpoint (map Namespace_checkpoint (fm_values (st_namespaces s))) fmempty = st_namespaces s"
    using ns by (simp_all add: exported_keys enter_exported del: map_map)
  have t: "map tc_task_id (map Task_checkpoint (fm_values (st_tasks s))) = sorted_list_of_fset (fmdom (st_tasks s))"
    "fm_enter tc_task_id Task_from_checkpoint (map Task_checkpoint (fm_values (st_tasks s))) fmempty = st_tasks s"
    using ts by (simp_all add: exported_keys enter_exported del: map_map)
  have g: "map gc_group_id (map ConsumerGroup_checkpoint (fm_values (st_groups s))) = sorted_list_of_fset (fmdom (st_groups s))"
    "fm_enter gc_group_id restored_group (map ConsumerGroup_checkpoint (fm_values (st_groups s))) fmempty = st_groups s"
    using gs restored_group_checkpoint by (simp_all add: exported_keys enter_exported del: map_map)
  have ids: "nc_namespace_id ` set (map Namespace_checkpoint (fm_values (st_namespaces s))) = fset (fmdom (st_namespaces s))"
    using arg_cong [OF n(1), of set] by (simp add: set_sorted_list_of_fset del: map_map)
  show "restored_state (BrokerState_checkpoint s) = s"
    by (simp add: restored_state_def BrokerState_checkpoint_def n t g)
  show "checkpoint_state_ok (BrokerState_checkpoint s)"
    unfolding checkpoint_state_ok_def BrokerState_checkpoint_def BrokerCheckpoint.select_convs n(1) t(1) g(1) ids
    using ns ts gs restored_group_checkpoint(2) by (auto simp: in_fm_values group_wf_def)
qed

text \<open>A checkpoint in ascending order is exported again as it was.\<close>

definition checkpoint_sorted :: "BrokerCheckpoint \<Rightarrow> bool" where
  "checkpoint_sorted c \<longleftrightarrow>
     sorted_wrt (<) (map nc_namespace_id (bc_namespaces c)) \<and> sorted_wrt (<) (map tc_task_id (bc_tasks c)) \<and>
     sorted_wrt (<) (map gc_group_id (bc_groups c)) \<and>
     (\<forall>g \<in> set (bc_groups c). sorted_wrt (<) (map mc_member_id (gc_members g)))"

lemma values_entered:
  assumes "sorted_wrt (<) (map key xs)"
  shows "fm_values (fm_enter key val xs fmempty) = map val xs"
proof -
  have "sorted_list_of_fmap (fm_enter key val xs fmempty) = map (\<lambda>x. (key x, val x)) xs"
    using assms by (intro entries_eqI) (auto simp: comp_def strict_sorted_iff lookup_enter)
  then show ?thesis by (simp add: fm_values_def comp_def)
qed

lemma checkpoint_restored:
  assumes "checkpoint_sorted c"
  shows "BrokerState_checkpoint (restored_state c) = c"
proof -
  have "map (\<lambda>x. ConsumerGroup_checkpoint (restored_group x)) (bc_groups c) = map id (bc_groups c)"
    using assms
    by (intro map_cong refl)
      (simp add: checkpoint_sorted_def ConsumerGroup_checkpoint_def restored_group_def values_entered comp_def)
  with assms show ?thesis
    by (simp add: checkpoint_sorted_def BrokerState_checkpoint_def restored_state_def values_entered comp_def
        Namespace_round)
qed

lemma exported_sorted: "entities_wf s \<Longrightarrow> checkpoint_sorted (BrokerState_checkpoint s)"
  unfolding checkpoint_sorted_def BrokerState_checkpoint_def BrokerCheckpoint.select_convs
  by (auto simp: entities_wf_def exported_keys in_fm_values group_wf_def simp del: map_map)

section \<open>Properties\<close>

text \<open>The indexes of a machine that satisfies the invariant are determined by its state.\<close>

lemma active_index_unique: "active_index ts a \<Longrightarrow> active_index ts a' \<Longrightarrow> a = a'"
  by (intro fmap_ext) (metis active_index_def not_None_eq)

lemma member_index_unique:
  assumes "member_index U ts a" "member_index U ts a'"
  shows "a = a'"
proof (rule fmap_ext)
  fix k
  have get: "fm_get {||} a k = fm_get {||} a' k"
    using assms unfolding member_index_def by (intro fset_eqI) metis
  have "fmlookup a k \<noteq> Some {||}" "fmlookup a' k \<noteq> Some {||}" using assms unfolding member_index_def by blast+
  with get show "fmlookup a k = fmlookup a' k"
    by (auto simp: fm_get_def split: option.splits)
qed

lemma completed_index_unique:
  "completed_index ts h \<Longrightarrow> completed_index ts h' \<Longrightarrow> h = h'"
  by (rule strict_heap_eqI) (auto simp: completed_index_def)

lemma recovered_machine:
  assumes "broker_inv m"
  obtains m' where "from_checkpoint (BrokerState_checkpoint (sm_state m)) = Ok m'" "sm_state m' = sm_state m"
    "broker_inv m'" "index_complete m'" "exact_ready (the_tasks m) (ready_tasks m')"
    "exact_expirations (the_tasks m) (lease_expirations m')"
proof -
  let ?c = "BrokerState_checkpoint (sm_state m)"
  from assms have wf: "entities_wf (sm_state m)" and active: "active_index (the_tasks m) (active_lease_tasks m)"
    by (simp_all add: inv_ex_def)
  note round = checkpoint_round [OF wf]
  have "leases_distinct (st_tasks (restored_state ?c))"
    using active_leases_distinct [OF active] by (simp add: round)
  then obtain ix where "rebuild_indexes (restored_state ?c) = Ok ix"
    using rebuild_indexes_Ok(1) [of "restored_state ?c"] restored_keys(4) [OF round(1)] by blast
  then obtain m' where m': "from_checkpoint ?c = Ok m'"
    using restore_state_Ok [THEN iffD2, OF conjI, OF round(1) refl] by (simp add: from_checkpoint_def)
  note r = from_checkpoint_Ok [OF m', unfolded round(2)]
  have "broker_inv m'"
    using r assms exact_ready_index [OF r(5)] unfolding inv_ex_def exact_expirations_def
    by (simp add: strict_sorted_iff)
  moreover have "index_complete m'"
    using r(5,6) unfolding index_complete_def in_heaps_def exact_ready_def exact_expirations_def
    by (force simp: look_def split: option.splits)
  ultimately show thesis
    using m' r(1,5,6) by (intro that) simp_all
qed

lemma recovered_orderly:
  assumes "orderly home m"
  obtains m' where "from_checkpoint (BrokerState_checkpoint (sm_state m)) = Ok m'" "sm_state m' = sm_state m" "orderly home m'"
proof -
  from assms have inv: "broker_inv m" and home: "homed home m" by (simp_all add: orderly_def)
  obtain m' where m': "from_checkpoint (BrokerState_checkpoint (sm_state m)) = Ok m'" "sm_state m' = sm_state m"
    "broker_inv m'" "index_complete m'" "exact_ready (the_tasks m) (ready_tasks m')"
    "exact_expirations (the_tasks m) (lease_expirations m')"
    by (rule recovered_machine [OF inv])
  have "homed home m'"
    using home m'(2,5,6) unfolding homed_def exact_ready_def exact_expirations_def by auto
  with m' show thesis by (intro that) (simp_all add: orderly_def)
qed

text \<open>
  C9: Recovery loses nothing.  The checkpoint of a broker that any sequence of commands has produced
  is accepted; the restored broker has the same state, satisfies the invariant, and every index is
  complete: the leases, owners and completed tasks are indexed as before, every queued task is in the
  ready heap of its namespace and every lease in the expiration heap.
\<close>

theorem recovery_restores_the_broker:
  assumes "reach broker_init broker_step m"
  shows "\<exists>m'. from_checkpoint (BrokerState_checkpoint (sm_state m)) = Ok m' \<and> sm_state m' = sm_state m \<and>
    broker_inv m' \<and> index_complete m' \<and> active_lease_tasks m' = active_lease_tasks m \<and>
    member_lease_tasks m' = member_lease_tasks m \<and> completed_tasks m' = completed_tasks m"
proof -
  note inv = bk.reach_inv [OF assms]
  obtain m' where m': "from_checkpoint (BrokerState_checkpoint (sm_state m)) = Ok m'" "sm_state m' = sm_state m"
    "broker_inv m'" "index_complete m'"
    by (rule recovered_machine [OF inv])
  with inv active_index_unique member_index_unique completed_index_unique show ?thesis
    by (metis (no_types, lifting) inv_ex_def)
qed

theorem recovery_restores_the_broker_witness:
  "\<exists>m'. from_checkpoint (BrokerState_checkpoint (sm_state leased_broker)) = Ok m' \<and>
     sm_state m' = sm_state leased_broker \<and> active_lease_tasks m' = fmupd lid1 tid2 fmempty"
  using recovery_restores_the_broker [OF scenario_reach(6)] by (auto simp: leased_broker_eq)

text \<open>
  C31: A checkpoint is accepted exactly when it is well formed: namespaces, groups, members of each
  group and tasks have distinct identifiers and positive revisions, groups and tasks belong to a
  namespace of the checkpoint, and no two leased tasks share a lease identifier.  Everything else is
  refused with an error.
\<close>

theorem checkpoint_accepted_iff_well_formed:
  "(case from_checkpoint c of Ok m \<Rightarrow> checkpoint_ok c | Err e \<Rightarrow> \<not> checkpoint_ok c)"
  using from_checkpoint_Ok_iff [of c] by (auto split: sum.split)

text \<open>
  C32: Checkpoints round trip.  A checkpoint in ascending order that is accepted is exported again
  unchanged, whatever process wrote it.
\<close>

theorem accepted_checkpoint_is_exported_unchanged:
  assumes "from_checkpoint c = Ok m" "checkpoint_sorted c"
  shows "BrokerState_checkpoint (sm_state m) = c"
  using checkpoint_restored [OF assms(2)] from_checkpoint_Ok(1) [OF assms(1)] by simp

abbreviation "example_checkpoint \<equiv>
  \<lparr>bc_term = 3, bc_revision = 9, bc_namespaces = [\<lparr>nc_namespace_id = ns1, nc_revision = 1\<rparr>],
   bc_tasks = [\<lparr>tc_task_id = tid1, tc_namespace_id = ns1, tc_objective = ''first'', tc_created_at_ms = 5, tc_revision = 2,
      tc_state = TaskCheckpointState.Leased lid1 mid1 gid1 1 1 40\<rparr>,
     \<lparr>tc_task_id = tid2, tc_namespace_id = ns1, tc_objective = ''second'', tc_created_at_ms = 3, tc_revision = 1,
      tc_state = TaskCheckpointState.Queued 0\<rparr>],
   bc_groups = [\<lparr>gc_group_id = gid1, gc_namespace_id = ns1, gc_generation = 1, gc_revision = 2,
      gc_members = [\<lparr>mc_member_id = mid1, mc_capabilities = [], mc_joined_at_ms = 6, mc_last_heartbeat_at_ms = 6, mc_revision = 1\<rparr>]\<rparr>]\<rparr>"

theorem accepted_checkpoint_is_exported_unchanged_witness:
  "\<exists>m. from_checkpoint example_checkpoint = Ok m \<and> BrokerState_checkpoint (sm_state m) = example_checkpoint"
proof -
  have "checkpoint_ok example_checkpoint"
    by (simp add: checkpoint_ok_def checkpoint_state_ok_def member_checkpoints_ok_def checkpoint_lease_def)
  then obtain m where "from_checkpoint example_checkpoint = Ok m"
    using from_checkpoint_Ok_iff by blast
  moreover from this have "BrokerState_checkpoint (sm_state m) = example_checkpoint"
    by (rule accepted_checkpoint_is_exported_unchanged) (simp add: checkpoint_sorted_def eval_broker)
  ultimately show ?thesis by blast
qed

end
