(* ===== verification/Snapshot.thy ===== *)
theory Snapshot
  imports Recovery
begin

text \<open>
  \<open>agent-broker-storage/src/snapshot_v1.rs\<close> and \<open>error.rs\<close>: the schema-v1 wire image of a
  checkpoint.  The JSON library is a parameter: \<open>to_vec\<close> renders a wire value and \<open>from_slice\<close>
  reads one, either may fail with a message.
\<close>

section \<open>Errors\<close>

type_synonym bytes = string

datatype StorageError =
    InvalidFormat string
  | UnsupportedSchemaVersion u64
  | RevisionGap Revision Revision
  | BackwardTerm Term Term
  | EntityRevisionRollback string
  | Checkpoint CheckpointError
  | Serialization string

fun StorageError_display :: "StorageError \<Rightarrow> string" where
  "StorageError_display (InvalidFormat message) = message"
| "StorageError_display (Serialization message) = message"
| "StorageError_display (UnsupportedSchemaVersion version) =
     ''unsupported Broker storage schema version '' @ show_u64 version"
| "StorageError_display (RevisionGap expected actual) =
     ''journal revision gap: expected '' @ show_u64 expected @ '', received '' @ show_u64 actual"
| "StorageError_display (BackwardTerm current incoming) =
     ''journal term moved backward: current '' @ show_u64 current @ '', incoming '' @ show_u64 incoming"
| "StorageError_display (EntityRevisionRollback entity) =
     entity @ '' local revision moved backward during replay''"
| "StorageError_display (Checkpoint e) = ''invalid Broker checkpoint: '' @ CheckpointError_display e"

abbreviation invalid_format :: "string \<Rightarrow> StorageError" where
  "invalid_format \<equiv> InvalidFormat"

definition invalid_value :: "string \<Rightarrow> ('e \<Rightarrow> string) \<Rightarrow> 'e \<Rightarrow> StorageError" where
  "invalid_value field display e = invalid_format (field @ '' is invalid: '' @ display e)"

section \<open>Wire records\<close>

definition SCHEMA_VERSION :: u64 where "SCHEMA_VERSION = 1"

record NamespaceWire =
  nw_namespace_id :: string
  nw_revision :: u64

record MemberWire =
  mw_capabilities :: "string list"
  mw_joined_at_ms :: u64
  mw_last_heartbeat_at_ms :: u64
  mw_member_id :: string
  mw_revision :: u64

record GroupWire =
  gw_generation :: u64
  gw_group_id :: string
  gw_members :: "MemberWire list"
  gw_namespace_id :: string
  gw_revision :: u64

record TaskWire =
  tw_completed_at_ms :: "u64 option"
  tw_created_at_ms :: u64
  tw_lease_epoch :: u64
  tw_lease_expires_at_ms :: "u64 option"
  tw_lease_generation :: "u64 option"
  tw_lease_group_id :: "string option"
  tw_lease_id :: "string option"
  tw_lease_owner_member_id :: "string option"
  tw_namespace_id :: string
  tw_objective :: string
  tw_result :: "string option"
  tw_revision :: u64
  tw_status :: string
  tw_task_id :: string

record SnapshotWire =
  sw_groups :: "GroupWire list"
  sw_namespaces :: "NamespaceWire list"
  sw_revision :: u64
  sw_schema_version :: u64
  sw_tasks :: "TaskWire list"
  sw_term :: u64

section \<open>Field checks\<close>

definition positive_revision :: "u64 \<Rightarrow> string \<Rightarrow> StorageError + Revision" where
  "positive_revision v field = (if v = 0 then Err (invalid_format (field @ '' must be positive'')) else Ok v)"

definition required_u64 :: "u64 option \<Rightarrow> string \<Rightarrow> StorageError + u64" where
  "required_u64 v field = (case v of None \<Rightarrow> Err (invalid_format (field @ '' is required'')) | Some x \<Rightarrow> Ok x)"

definition required_string :: "string option \<Rightarrow> string \<Rightarrow> StorageError + string" where
  "required_string v field = (case v of None \<Rightarrow> Err (invalid_format (field @ '' is required'')) | Some x \<Rightarrow> Ok x)"

definition required_id :: "string option \<Rightarrow> string \<Rightarrow> (string \<Rightarrow> IdentifierError + 'a) \<Rightarrow> StorageError + 'a" where
  "required_id v field new =
     try_r (required_string v field) (\<lambda>raw. map_err (invalid_value field IdentifierError_display) (new raw))"

definition require_queued_task_fields :: "TaskWire \<Rightarrow> StorageError + unit" where
  "require_queued_task_fields w =
     (if tw_lease_id w \<noteq> None \<or> tw_lease_owner_member_id w \<noteq> None \<or> tw_lease_group_id w \<noteq> None \<or>
         tw_lease_generation w \<noteq> None \<or> tw_lease_expires_at_ms w \<noteq> None \<or> tw_completed_at_ms w \<noteq> None \<or>
         tw_result w \<noteq> None
      then Err (invalid_format ''queued task contains lease/completion fields'') else Ok ())"

definition require_leased_task_fields :: "TaskWire \<Rightarrow> StorageError + unit" where
  "require_leased_task_fields w =
     (if tw_result w \<noteq> None \<or> tw_completed_at_ms w \<noteq> None
      then Err (invalid_format ''leased task contains completion-only fields'') else Ok ())"

text \<open>
  The \<open>Debug\<close> rendering of a string: quotes, backslashes and the ASCII control characters are
  escaped.  Bytes above 127 belong to multi-byte characters and are passed through.
\<close>

definition hex_digit :: "nat \<Rightarrow> char" where
  "hex_digit n = (if n < 10 then char_of (48 + n) else char_of (87 + n))"

definition debug_char :: "char \<Rightarrow> string" where
  "debug_char c =
     (let n = of_char c :: nat in
      if n = 34 \<or> n = 92 then [CHR 0x5C, c]
      else if n = 9 then [CHR 0x5C, CHR ''t'']
      else if n = 10 then [CHR 0x5C, CHR ''n'']
      else if n = 13 then [CHR 0x5C, CHR ''r'']
      else if n = 0 then [CHR 0x5C, CHR ''0'']
      else if n < 16 then [CHR 0x5C] @ ''u{'' @ [hex_digit n] @ ''}''
      else if n < 32 \<or> n = 127 then [CHR 0x5C] @ ''u{'' @ [hex_digit (n div 16), hex_digit (n mod 16)] @ ''}''
      else [c])"

definition debug_str :: "string \<Rightarrow> string" where
  "debug_str s = [CHR 0x22] @ concat (map debug_char s) @ [CHR 0x22]"

section \<open>Entities\<close>

definition namespace_to_wire :: "NamespaceCheckpoint \<Rightarrow> NamespaceWire" where
  "namespace_to_wire n = \<lparr>nw_namespace_id = ns_str (nc_namespace_id n), nw_revision = nc_revision n\<rparr>"

definition namespace_from_wire :: "NamespaceWire \<Rightarrow> StorageError + NamespaceCheckpoint" where
  "namespace_from_wire w =
     try_r (map_err (invalid_value ''namespace_id'' IdentifierError_display) (NamespaceId_new (nw_namespace_id w))) (\<lambda>ns.
     try_r (positive_revision (nw_revision w) ''namespace.revision'') (\<lambda>r.
     Ok \<lparr>nc_namespace_id = ns, nc_revision = r\<rparr>))"

definition member_to_wire :: "MemberCheckpoint \<Rightarrow> MemberWire" where
  "member_to_wire m =
     \<lparr>mw_capabilities = map cap_str (mc_capabilities m), mw_joined_at_ms = mc_joined_at_ms m,
      mw_last_heartbeat_at_ms = mc_last_heartbeat_at_ms m, mw_member_id = consumer_str (mc_member_id m),
      mw_revision = mc_revision m\<rparr>"

definition member_from_wire :: "MemberWire \<Rightarrow> StorageError + MemberCheckpoint" where
  "member_from_wire w =
     try_r (map_err (invalid_value ''member_id'' IdentifierError_display) (ConsumerId_new (mw_member_id w))) (\<lambda>mid.
     try_r (map_err (invalid_value ''member.capabilities'' CapabilitiesError_display) (Capabilities_new (mw_capabilities w))) (\<lambda>caps.
     try_r (positive_revision (mw_revision w) ''member.revision'') (\<lambda>r.
     Ok \<lparr>mc_member_id = mid, mc_capabilities = caps, mc_joined_at_ms = mw_joined_at_ms w,
         mc_last_heartbeat_at_ms = mw_last_heartbeat_at_ms w, mc_revision = r\<rparr>)))"

definition group_to_wire :: "ConsumerGroupCheckpoint \<Rightarrow> GroupWire" where
  "group_to_wire g =
     \<lparr>gw_generation = gc_generation g, gw_group_id = group_str (gc_group_id g),
      gw_members = sort_key mw_member_id (map member_to_wire (gc_members g)),
      gw_namespace_id = ns_str (gc_namespace_id g), gw_revision = gc_revision g\<rparr>"

definition group_from_wire :: "GroupWire \<Rightarrow> StorageError + ConsumerGroupCheckpoint" where
  "group_from_wire w =
     try_r (map_err (invalid_value ''group_id'' IdentifierError_display) (ConsumerGroupId_new (gw_group_id w))) (\<lambda>gid.
     try_r (map_err (invalid_value ''group.namespace_id'' IdentifierError_display) (NamespaceId_new (gw_namespace_id w))) (\<lambda>ns.
     try_r (positive_revision (gw_revision w) ''group.revision'') (\<lambda>r.
     try_r (collect_results member_from_wire (gw_members w)) (\<lambda>ms.
     Ok \<lparr>gc_group_id = gid, gc_namespace_id = ns, gc_generation = gw_generation w, gc_revision = r, gc_members = ms\<rparr>))))"

definition task_to_wire :: "TaskCheckpoint \<Rightarrow> TaskWire" where
  "task_to_wire t =
     (let w = \<lparr>tw_completed_at_ms = None, tw_created_at_ms = tc_created_at_ms t, tw_lease_epoch = 0,
        tw_lease_expires_at_ms = None, tw_lease_generation = None, tw_lease_group_id = None, tw_lease_id = None,
        tw_lease_owner_member_id = None, tw_namespace_id = ns_str (tc_namespace_id t), tw_objective = tc_objective t,
        tw_result = None, tw_revision = tc_revision t, tw_status = [], tw_task_id = task_str (tc_task_id t)\<rparr>
      in case tc_state t of
        TaskCheckpointState.Queued epoch \<Rightarrow> w\<lparr>tw_lease_epoch := epoch, tw_status := ''queued''\<rparr>
      | TaskCheckpointState.Leased lid mid gid gen epoch expires \<Rightarrow>
          w\<lparr>tw_lease_epoch := epoch, tw_lease_expires_at_ms := Some expires, tw_lease_generation := Some gen,
            tw_lease_group_id := Some (group_str gid), tw_lease_id := Some (lease_str lid),
            tw_lease_owner_member_id := Some (consumer_str mid), tw_status := ''leased''\<rparr>
      | TaskCheckpointState.Completed lid mid gid gen epoch result at \<Rightarrow>
          w\<lparr>tw_completed_at_ms := Some at, tw_lease_epoch := epoch, tw_lease_generation := Some gen,
            tw_lease_group_id := Some (group_str gid), tw_lease_id := Some (lease_str lid),
            tw_lease_owner_member_id := Some (consumer_str mid), tw_result := Some result, tw_status := ''completed''\<rparr>)"

definition task_state_from_wire :: "TaskWire \<Rightarrow> StorageError + TaskCheckpointState" where
  "task_state_from_wire w =
     (if tw_status w = ''queued'' then
        try_r (require_queued_task_fields w) (\<lambda>_. Ok (TaskCheckpointState.Queued (tw_lease_epoch w)))
      else if tw_status w = ''leased'' then
        try_r (require_leased_task_fields w) (\<lambda>_.
        try_r (required_id (tw_lease_id w) ''task.lease_id'' LeaseId_new) (\<lambda>lid.
        try_r (required_id (tw_lease_owner_member_id w) ''task.lease_owner_member_id'' ConsumerId_new) (\<lambda>mid.
        try_r (required_id (tw_lease_group_id w) ''task.lease_group_id'' ConsumerGroupId_new) (\<lambda>gid.
        try_r (required_u64 (tw_lease_generation w) ''task.lease_generation'') (\<lambda>gen.
        try_r (required_u64 (tw_lease_expires_at_ms w) ''task.lease_expires_at_ms'') (\<lambda>expires.
        Ok (TaskCheckpointState.Leased lid mid gid gen (tw_lease_epoch w) expires)))))))
      else if tw_status w = ''completed'' then
        if tw_lease_expires_at_ms w \<noteq> None
        then Err (invalid_format ''completed task must not retain lease_expires_at_ms'')
        else
          try_r (required_id (tw_lease_id w) ''task.lease_id'' LeaseId_new) (\<lambda>lid.
          try_r (required_id (tw_lease_owner_member_id w) ''task.lease_owner_member_id'' ConsumerId_new) (\<lambda>mid.
          try_r (required_id (tw_lease_group_id w) ''task.lease_group_id'' ConsumerGroupId_new) (\<lambda>gid.
          try_r (required_u64 (tw_lease_generation w) ''task.lease_generation'') (\<lambda>gen.
          try_r (required_string (tw_result w) ''task.result'') (\<lambda>raw.
          try_r (map_err (invalid_value ''task.result'' TaskTextError_display) (TaskResult_new raw)) (\<lambda>result.
          try_r (required_u64 (tw_completed_at_ms w) ''task.completed_at_ms'') (\<lambda>at.
          Ok (TaskCheckpointState.Completed lid mid gid gen (tw_lease_epoch w) result at))))))))
      else Err (invalid_format (''unknown task status '' @ debug_str (tw_status w))))"

definition task_from_wire :: "TaskWire \<Rightarrow> StorageError + TaskCheckpoint" where
  "task_from_wire w =
     try_r (task_state_from_wire w) (\<lambda>state.
     try_r (map_err (invalid_value ''task_id'' IdentifierError_display) (TaskId_new (tw_task_id w))) (\<lambda>tid.
     try_r (map_err (invalid_value ''task.namespace_id'' IdentifierError_display) (NamespaceId_new (tw_namespace_id w))) (\<lambda>ns.
     try_r (map_err (invalid_value ''task.objective'' TaskTextError_display) (TaskObjective_new (tw_objective w))) (\<lambda>objective.
     try_r (positive_revision (tw_revision w) ''task.revision'') (\<lambda>r.
     Ok \<lparr>tc_task_id = tid, tc_namespace_id = ns, tc_objective = objective, tc_created_at_ms = tw_created_at_ms w,
         tc_revision = r, tc_state = state\<rparr>)))))"

section \<open>Snapshots\<close>

definition checkpoint_to_wire :: "BrokerCheckpoint \<Rightarrow> SnapshotWire" where
  "checkpoint_to_wire c =
     \<lparr>sw_groups = sort_key gw_group_id (map group_to_wire (bc_groups c)),
      sw_namespaces = sort_key nw_namespace_id (map namespace_to_wire (bc_namespaces c)),
      sw_revision = bc_revision c, sw_schema_version = SCHEMA_VERSION,
      sw_tasks = sort_key tw_task_id (map task_to_wire (bc_tasks c)), sw_term = bc_term c\<rparr>"

definition snapshot_from_wire :: "SnapshotWire \<Rightarrow> StorageError + BrokerCheckpoint" where
  "snapshot_from_wire w =
     (if sw_schema_version w \<noteq> SCHEMA_VERSION then Err (UnsupportedSchemaVersion (sw_schema_version w))
      else
        try_r (map_err (invalid_value ''term'' FencingValueError_display) (Term_new (sw_term w))) (\<lambda>trm.
        try_r (collect_results namespace_from_wire (sw_namespaces w)) (\<lambda>namespaces.
        try_r (collect_results task_from_wire (sw_tasks w)) (\<lambda>tasks.
        try_r (collect_results group_from_wire (sw_groups w)) (\<lambda>groups.
        let checkpoint = \<lparr>bc_term = trm, bc_revision = sw_revision w, bc_namespaces = namespaces,
              bc_tasks = tasks, bc_groups = groups\<rparr>
        in try_r (map_err Checkpoint (from_checkpoint checkpoint)) (\<lambda>_. Ok checkpoint))))))"

definition encode_snapshot :: "(SnapshotWire \<Rightarrow> string + bytes) \<Rightarrow> BrokerCheckpoint \<Rightarrow> StorageError + bytes" where
  "encode_snapshot to_vec c = map_err Serialization (to_vec (checkpoint_to_wire c))"

definition decode_snapshot :: "(bytes \<Rightarrow> string + SnapshotWire) \<Rightarrow> bytes \<Rightarrow> StorageError + BrokerCheckpoint" where
  "decode_snapshot from_slice bs =
     try_r (map_err (\<lambda>e. InvalidFormat (''invalid Broker snapshot JSON: '' @ e)) (from_slice bs)) snapshot_from_wire"

section \<open>Values with a wire image\<close>

text \<open>
  What the constructors of the domain types guarantee of every value: identifiers and texts are
  valid, capability sets are normalized, revisions and terms are positive.
\<close>

abbreviation ident :: "string \<Rightarrow> bool" where
  "ident \<equiv> valid_identifier 128"

definition namespace_values_ok :: "NamespaceCheckpoint \<Rightarrow> bool" where
  "namespace_values_ok n \<longleftrightarrow> ident (ns_str (nc_namespace_id n)) \<and> nc_revision n \<noteq> 0"

definition member_values_ok :: "MemberCheckpoint \<Rightarrow> bool" where
  "member_values_ok m \<longleftrightarrow> ident (consumer_str (mc_member_id m)) \<and> normalized (mc_capabilities m) \<and> mc_revision m \<noteq> 0"

definition group_values_ok :: "ConsumerGroupCheckpoint \<Rightarrow> bool" where
  "group_values_ok g \<longleftrightarrow> ident (group_str (gc_group_id g)) \<and> ident (ns_str (gc_namespace_id g)) \<and> gc_revision g \<noteq> 0 \<and>
     list_all member_values_ok (gc_members g)"

fun task_state_values_ok :: "TaskCheckpointState \<Rightarrow> bool" where
  "task_state_values_ok (TaskCheckpointState.Queued e) \<longleftrightarrow> True"
| "task_state_values_ok (TaskCheckpointState.Leased lid mid gid gen e x) \<longleftrightarrow>
     ident (lease_str lid) \<and> ident (consumer_str mid) \<and> ident (group_str gid)"
| "task_state_values_ok (TaskCheckpointState.Completed lid mid gid gen e result at) \<longleftrightarrow>
     ident (lease_str lid) \<and> ident (consumer_str mid) \<and> ident (group_str gid) \<and> valid_text MAX_RESULT_BYTES result"

definition task_values_ok :: "TaskCheckpoint \<Rightarrow> bool" where
  "task_values_ok t \<longleftrightarrow> ident (task_str (tc_task_id t)) \<and> ident (ns_str (tc_namespace_id t)) \<and>
     valid_text MAX_OBJECTIVE_BYTES (tc_objective t) \<and> tc_revision t \<noteq> 0 \<and> task_state_values_ok (tc_state t)"

definition checkpoint_values_ok :: "BrokerCheckpoint \<Rightarrow> bool" where
  "checkpoint_values_ok c \<longleftrightarrow> bc_term c \<noteq> 0 \<and> list_all namespace_values_ok (bc_namespaces c) \<and>
     list_all task_values_ok (bc_tasks c) \<and> list_all group_values_ok (bc_groups c)"

lemma text_new_Ok [simp]:
  "TaskObjective_new s = Ok t \<longleftrightarrow> valid_text MAX_OBJECTIVE_BYTES s \<and> t = s"
  "TaskResult_new s = Ok t \<longleftrightarrow> valid_text MAX_RESULT_BYTES s \<and> t = s"
  by (auto simp: TaskObjective_new_def TaskResult_new_def validate_text_def valid_text_def)

lemma text_new_valid:
  "valid_text MAX_OBJECTIVE_BYTES s \<Longrightarrow> TaskObjective_new s = Ok s"
  "valid_text MAX_RESULT_BYTES s \<Longrightarrow> TaskResult_new s = Ok s"
  by simp_all

lemma capabilities_reparse:
  assumes "normalized cs"
  shows "Capabilities_new (map cap_str cs) = Ok cs"
proof -
  have "Capability ` set (map cap_str cs) = set cs" by (auto simp: image_iff)
  with assms show ?thesis
    by (auto simp: Capabilities_new_Ok normalized_def MAX_CAPABILITIES_def MAX_CAPABILITY_BYTES_def
        sorted_list_of_set.idem_if_sorted_distinct strict_sorted_iff)
qed

lemmas reparse_ids = nsid.reparse tid.reparse gid.reparse cid.reparse lid.reparse

lemma collect_results_round:
  "(\<And>x. x \<in> set xs \<Longrightarrow> f (g x) = Ok x) \<Longrightarrow> collect_results f (map g xs) = Ok xs"
  using collect_results_map [of xs f g id] by simp

lemma namespace_wire_round: "namespace_values_ok n \<Longrightarrow> namespace_from_wire (namespace_to_wire n) = Ok n"
  by (simp add: namespace_values_ok_def namespace_from_wire_def namespace_to_wire_def reparse_ids positive_revision_def)

lemma member_wire_round: "member_values_ok m \<Longrightarrow> member_from_wire (member_to_wire m) = Ok m"
  by (simp add: member_values_ok_def member_from_wire_def member_to_wire_def reparse_ids positive_revision_def
      capabilities_reparse)

lemma sorted_ids:
  "sorted_wrt (<) (map nc_namespace_id ns) \<Longrightarrow> sorted (map (\<lambda>n. ns_str (nc_namespace_id n)) ns)"
  "sorted_wrt (<) (map tc_task_id ts) \<Longrightarrow> sorted (map (\<lambda>t. task_str (tc_task_id t)) ts)"
  "sorted_wrt (<) (map gc_group_id gs) \<Longrightarrow> sorted (map (\<lambda>g. group_str (gc_group_id g)) gs)"
  "sorted_wrt (<) (map mc_member_id ms) \<Longrightarrow> sorted (map (\<lambda>m. consumer_str (mc_member_id m)) ms)"
  unfolding sorted_wrt_map
  by (erule sorted_wrt_mono_rel [rotated],
      simp add: less_NamespaceId_def less_TaskId_def less_ConsumerGroupId_def less_ConsumerId_def)+

lemma wire_keys [simp]:
  "nw_namespace_id (namespace_to_wire n) = ns_str (nc_namespace_id n)"
  "mw_member_id (member_to_wire m) = consumer_str (mc_member_id m)"
  "gw_group_id (group_to_wire g) = group_str (gc_group_id g)"
  "tw_task_id (task_to_wire t) = task_str (tc_task_id t)"
  by (simp_all add: namespace_to_wire_def member_to_wire_def group_to_wire_def task_to_wire_def Let_def
      split: TaskCheckpointState.split)

lemma group_wire_round:
  assumes "group_values_ok g" "sorted_wrt (<) (map mc_member_id (gc_members g))"
  shows "group_from_wire (group_to_wire g) = Ok g"
proof -
  have "collect_results member_from_wire (map member_to_wire (gc_members g)) = Ok (gc_members g)"
    using assms(1) by (intro collect_results_round) (auto simp: group_values_ok_def list_all_iff member_wire_round)
  moreover have "sort_key mw_member_id (map member_to_wire (gc_members g)) = map member_to_wire (gc_members g)"
    using sorted_ids(4) [OF assms(2)] by (intro sort_key_id_if_sorted) (simp add: comp_def)
  ultimately show ?thesis
    using assms(1) by (simp add: group_values_ok_def group_from_wire_def group_to_wire_def reparse_ids positive_revision_def)
qed

lemma task_wire_round: "task_values_ok t \<Longrightarrow> task_from_wire (task_to_wire t) = Ok t"
  by (cases "tc_state t")
    (simp_all add: task_values_ok_def task_from_wire_def task_to_wire_def task_state_from_wire_def Let_def reparse_ids
      positive_revision_def require_queued_task_fields_def require_leased_task_fields_def required_id_def
      required_string_def required_u64_def text_new_valid)

lemma checkpoint_eta [simp]:
  "\<lparr>bc_term = bc_term c, bc_revision = bc_revision c, bc_namespaces = bc_namespaces c, bc_tasks = bc_tasks c,
    bc_groups = bc_groups c\<rparr> = c"
  by simp

lemma snapshot_wire_round:
  assumes "checkpoint_values_ok c" "checkpoint_sorted c" "checkpoint_ok c"
  shows "snapshot_from_wire (checkpoint_to_wire c) = Ok c"
proof -
  have "collect_results namespace_from_wire (map namespace_to_wire (bc_namespaces c)) = Ok (bc_namespaces c)"
    "collect_results task_from_wire (map task_to_wire (bc_tasks c)) = Ok (bc_tasks c)"
    "collect_results group_from_wire (map group_to_wire (bc_groups c)) = Ok (bc_groups c)"
    using assms(1,2)
    by (auto simp: checkpoint_values_ok_def checkpoint_sorted_def list_all_iff namespace_wire_round task_wire_round
        group_wire_round intro!: collect_results_round)
  moreover have "sort_key nw_namespace_id (map namespace_to_wire (bc_namespaces c)) = map namespace_to_wire (bc_namespaces c)"
    "sort_key tw_task_id (map task_to_wire (bc_tasks c)) = map task_to_wire (bc_tasks c)"
    "sort_key gw_group_id (map group_to_wire (bc_groups c)) = map group_to_wire (bc_groups c)"
    using assms(2) by (auto simp: checkpoint_sorted_def comp_def sorted_ids intro!: sort_key_id_if_sorted)
  moreover obtain m where "from_checkpoint c = Ok m" using assms(3) from_checkpoint_Ok_iff by blast
  ultimately show ?thesis
    using assms(1) by (simp add: snapshot_from_wire_def checkpoint_to_wire_def checkpoint_values_ok_def Term_new_def Let_def)
qed

lemma snapshot_round:
  assumes "checkpoint_values_ok c" "checkpoint_sorted c" "checkpoint_ok c"
    and "to_vec (checkpoint_to_wire c) = Ok bs" "from_slice bs = Ok (checkpoint_to_wire c)"
  shows "encode_snapshot to_vec c = Ok bs \<and> decode_snapshot from_slice bs = Ok c"
  using assms by (simp add: encode_snapshot_def decode_snapshot_def snapshot_wire_round)

end
