(* ===== verification/Journal.thy ===== *)
theory Journal
  imports Snapshot
begin

text \<open>
  \<open>agent-broker-storage/src/journal_v1.rs\<close>: one journal record per committed change set, and its
  replay on a checkpoint.  Replaying the record of a command on the checkpoint of the state before
  it gives the checkpoint of the state after it.
\<close>

section \<open>Records\<close>

record JournalMutation =
  jm_term :: Term
  jm_revision :: Revision
  jm_namespaces :: "NamespaceCheckpoint list"
  jm_tasks :: "TaskCheckpoint list"
  jm_deleted_tasks :: "TaskId list"
  jm_groups :: "ConsumerGroupCheckpoint list"

record JournalMutationWire =
  jw_deleted_tasks :: "string list"
  jw_groups :: "GroupWire list"
  jw_namespaces :: "NamespaceWire list"
  jw_revision :: u64
  jw_schema_version :: u64
  jw_tasks :: "TaskWire list"
  jw_term :: u64

definition missing_changed_entity :: "string \<Rightarrow> StorageError" where
  "missing_changed_entity entity = InvalidFormat (''changed '' @ entity @ '' is absent from authoritative state'')"

text \<open>\<open>changes.iter().map(|id| table.get(id).map(to_wire).ok_or_else(missing)).collect()\<close>.\<close>

definition changed_entities :: "string \<Rightarrow> ('k, 'v) fmap \<Rightarrow> ('v \<Rightarrow> 'w) \<Rightarrow> 'k list \<Rightarrow> StorageError + 'w list" where
  "changed_entities entity table to_wire =
     collect_results (\<lambda>k. case fmlookup table k of None \<Rightarrow> Err (missing_changed_entity entity) | Some v \<Rightarrow> Ok (to_wire v))"

definition journal_to_wire :: "BrokerState \<Rightarrow> StateChangeSet \<Rightarrow> StorageError + JournalMutationWire" where
  "journal_to_wire s ch =
     (if list_ex (\<lambda>tid. tid \<in> set (cs_tasks ch)) (cs_deleted_tasks ch)
      then Err (InvalidFormat ''journal mutation cannot update and delete the same task'')
      else
        try_r (changed_entities ''namespace'' (st_namespaces s) (namespace_to_wire \<circ> Namespace_checkpoint) (cs_namespaces ch)) (\<lambda>namespaces.
        try_r (changed_entities ''task'' (st_tasks s) (task_to_wire \<circ> Task_checkpoint) (cs_tasks ch)) (\<lambda>tasks.
        try_r (changed_entities ''Consumer Group'' (st_groups s) (group_to_wire \<circ> ConsumerGroup_checkpoint) (cs_groups ch)) (\<lambda>groups.
        Ok \<lparr>jw_deleted_tasks = sort (map task_str (cs_deleted_tasks ch)), jw_groups = sort_key gw_group_id groups,
            jw_namespaces = sort_key nw_namespace_id namespaces, jw_revision = st_revision s,
            jw_schema_version = SCHEMA_VERSION, jw_tasks = sort_key tw_task_id tasks, jw_term = st_term s\<rparr>))))"

abbreviation newline :: char where
  "newline \<equiv> CHR 0x0A"

definition encode_journal_mutation ::
  "(JournalMutationWire \<Rightarrow> string + bytes) \<Rightarrow> BrokerState \<Rightarrow> StateChangeSet \<Rightarrow> StorageError + bytes" where
  "encode_journal_mutation to_vec s ch =
     try_r (journal_to_wire s ch) (\<lambda>w.
     try_r (map_err Serialization (to_vec w)) (\<lambda>encoded. Ok (encoded @ [newline])))"

definition journal_from_wire :: "JournalMutationWire \<Rightarrow> StorageError + JournalMutation" where
  "journal_from_wire w =
     (if jw_schema_version w \<noteq> SCHEMA_VERSION then Err (UnsupportedSchemaVersion (jw_schema_version w))
      else if jw_revision w = 0 then Err (InvalidFormat ''journal revision must be positive'')
      else
        try_r (collect_results
          (\<lambda>tid. map_err (\<lambda>e. InvalidFormat (''deleted task ID is invalid: '' @ IdentifierError_display e)) (TaskId_new tid))
          (jw_deleted_tasks w)) (\<lambda>deleted.
        try_r (collect_results task_from_wire (jw_tasks w)) (\<lambda>tasks.
        if list_ex (\<lambda>tid. tid \<in> set (map tc_task_id tasks)) deleted
        then Err (InvalidFormat ''journal record updates and deletes the same task'')
        else
          try_r (map_err (\<lambda>e. InvalidFormat (''term is invalid: '' @ FencingValueError_display e)) (Term_new (jw_term w))) (\<lambda>trm.
          try_r (collect_results namespace_from_wire (jw_namespaces w)) (\<lambda>namespaces.
          try_r (collect_results group_from_wire (jw_groups w)) (\<lambda>groups.
          Ok \<lparr>jm_term = trm, jm_revision = jw_revision w, jm_namespaces = namespaces, jm_tasks = tasks,
              jm_deleted_tasks = deleted, jm_groups = groups\<rparr>))))))"

definition decode_journal_mutation ::
  "(bytes \<Rightarrow> string + JournalMutationWire) \<Rightarrow> bytes \<Rightarrow> StorageError + JournalMutation" where
  "decode_journal_mutation from_slice bs =
     try_r (map_err (\<lambda>e. InvalidFormat (''invalid journal record JSON: '' @ e)) (from_slice bs)) journal_from_wire"

section \<open>Replay\<close>

definition ensure_local_revision :: "string \<Rightarrow> Revision \<Rightarrow> Revision \<Rightarrow> StorageError + unit" where
  "ensure_local_revision entity current incoming =
     (if incoming < current then Err (EntityRevisionRollback entity) else Ok ())"

fun upsert :: "string \<Rightarrow> ('a \<Rightarrow> 'k) \<Rightarrow> ('a \<Rightarrow> Revision) \<Rightarrow> 'a \<Rightarrow> 'a list \<Rightarrow> StorageError + 'a list" where
  "upsert entity key rv incoming [] = Ok [incoming]"
| "upsert entity key rv incoming (x # xs) =
     (if key x = key incoming
      then try_r (ensure_local_revision entity (rv x) (rv incoming)) (\<lambda>_. Ok (incoming # xs))
      else try_r (upsert entity key rv incoming xs) (\<lambda>ys. Ok (x # ys)))"

definition upsert_namespace :: "NamespaceCheckpoint \<Rightarrow> NamespaceCheckpoint list \<Rightarrow> StorageError + NamespaceCheckpoint list" where
  "upsert_namespace = upsert ''namespace'' nc_namespace_id nc_revision"

definition upsert_group :: "ConsumerGroupCheckpoint \<Rightarrow> ConsumerGroupCheckpoint list \<Rightarrow> StorageError + ConsumerGroupCheckpoint list" where
  "upsert_group = upsert ''Consumer Group'' gc_group_id gc_revision"

definition upsert_task :: "TaskCheckpoint \<Rightarrow> TaskCheckpoint list \<Rightarrow> StorageError + TaskCheckpoint list" where
  "upsert_task = upsert ''task'' tc_task_id tc_revision"

definition sort_checkpoint :: "BrokerCheckpoint \<Rightarrow> BrokerCheckpoint" where
  "sort_checkpoint c =
     c\<lparr>bc_namespaces := sort_key nc_namespace_id (bc_namespaces c),
       bc_tasks := sort_key tc_task_id (bc_tasks c),
       bc_groups := map (\<lambda>g. g\<lparr>gc_members := sort_key mc_member_id (gc_members g)\<rparr>) (sort_key gc_group_id (bc_groups c))\<rparr>"

text \<open>The result says whether the record was new, with the checkpoint it leaves.\<close>

definition apply_journal_mutation :: "BrokerCheckpoint \<Rightarrow> JournalMutation \<Rightarrow> StorageError + bool \<times> BrokerCheckpoint" where
  "apply_journal_mutation c jm =
     (if jm_revision jm \<le> bc_revision c then Ok (False, c)
      else
        try_r (map_err (\<lambda>e. InvalidFormat (FencingValueError_display e)) (Revision_next (bc_revision c))) (\<lambda>expected.
        if jm_revision jm \<noteq> expected then Err (RevisionGap expected (jm_revision jm))
        else if jm_term jm < bc_term c then Err (BackwardTerm (bc_term c) (jm_term jm))
        else
          try_r (try_fold upsert_namespace (jm_namespaces jm) (bc_namespaces c)) (\<lambda>namespaces.
          try_r (try_fold upsert_group (jm_groups jm) (bc_groups c)) (\<lambda>groups.
          try_r (try_fold upsert_task (jm_tasks jm) (bc_tasks c)) (\<lambda>tasks.
          let candidate = sort_checkpoint
                \<lparr>bc_term = jm_term jm, bc_revision = jm_revision jm, bc_namespaces = namespaces,
                 bc_tasks = filter (\<lambda>t. tc_task_id t \<notin> set (jm_deleted_tasks jm)) tasks, bc_groups = groups\<rparr>
          in try_r (map_err Checkpoint (from_checkpoint candidate)) (\<lambda>_. Ok (True, candidate)))))))"

section \<open>Tables of records\<close>

text \<open>An upsert enters one record into a list with distinct keys.\<close>

lemma upsert_Ok:
  assumes "distinct (map key xs)" "\<And>x. x \<in> set xs \<Longrightarrow> key x = key y \<Longrightarrow> rv x \<le> rv y"
  obtains ys where "upsert entity key rv y xs = Ok ys" "distinct (map key ys)"
    "set ys = insert y {x \<in> set xs. key x \<noteq> key y}"
  using assms
proof (induction xs arbitrary: thesis)
  case (Cons x xs)
  show ?case
  proof (cases "key x = key y")
    case True
    then have "\<not> rv y < rv x" using Cons.prems(3) [of x] by simp
    with True Cons.prems(2) show ?thesis
      by (intro Cons.prems(1) [of "y # xs"]) (auto simp: ensure_local_revision_def image_iff)
  next
    case False
    obtain ys where "upsert entity key rv y xs = Ok ys" "distinct (map key ys)"
      "set ys = insert y {x \<in> set xs. key x \<noteq> key y}"
      using Cons.IH Cons.prems(2,3) by auto
    with False Cons.prems(2) show ?thesis
      by (intro Cons.prems(1) [of "x # ys"]) (auto simp: image_iff)
  qed
qed simp

lemma upserts_Ok:
  assumes "distinct (map key xs)" "distinct (map key incoming)"
    and "\<And>x y. x \<in> set xs \<Longrightarrow> y \<in> set incoming \<Longrightarrow> key x = key y \<Longrightarrow> rv x \<le> rv y"
  obtains ys where "try_fold (upsert entity key rv) incoming xs = Ok ys" "distinct (map key ys)"
    "set ys = set incoming \<union> {x \<in> set xs. key x \<notin> key ` set incoming}"
  using assms
proof (induction incoming arbitrary: xs thesis)
  case (Cons y incoming)
  obtain xs' where xs': "upsert entity key rv y xs = Ok xs'" "distinct (map key xs')"
    "set xs' = insert y {x \<in> set xs. key x \<noteq> key y}"
    using upsert_Ok [of key xs y rv entity] Cons.prems(2,4) by (metis list.set_intros(1))
  have "x \<in> set xs' \<Longrightarrow> z \<in> set incoming \<Longrightarrow> key x = key z \<Longrightarrow> rv x \<le> rv z" for x z
    using Cons.prems(3,4) xs'(3) by (auto simp: image_iff)
  then obtain ys where "try_fold (upsert entity key rv) incoming xs' = Ok ys" "distinct (map key ys)"
    "set ys = set incoming \<union> {x \<in> set xs'. key x \<notin> key ` set incoming}"
    using Cons.IH [of xs'] xs'(2) Cons.prems(3) by auto
  then show ?case using xs' Cons.prems(3) by (intro Cons.prems(1) [of ys]) (auto simp: image_iff)
qed auto

text \<open>Records with distinct keys are the export of a table when they are the same set; sorting gives the same list.\<close>

lemma sorted_export:
  assumes "\<And>k v. fmlookup f k = Some v \<Longrightarrow> key (export v) = k"
    and "distinct (map key ys)" "set ys = export ` set (fm_values f)"
  shows "sort_key key ys = map export (fm_values f)"
proof (rule map_sorted_distinct_set_unique [of key])
  have keys: "map key (map export (fm_values f)) = sorted_list_of_fset (fmdom f)"
    using assms(1) by (rule exported_keys)
  show "inj_on key (set (sort_key key ys) \<union> set (map export (fm_values f)))"
    using assms(2,3) by (simp add: distinct_map)
  show "sorted (map key (map export (fm_values f)))" "distinct (map key (map export (fm_values f)))"
    unfolding keys by (simp_all add: strict_sorted_imp_sorted)
qed (use assms(2,3) in \<open>simp_all add: distinct_map\<close>)

lemma fm_valuesI: "fmlookup m k = Some v \<Longrightarrow> v \<in> set (fm_values m)"
  by (auto simp: in_fm_values)

lemma replay_table:
  assumes "\<And>k v. fmlookup f k = Some v \<Longrightarrow> key (export v) = k" "\<And>k v. fmlookup f' k = Some v \<Longrightarrow> key (export v) = k"
    and "same_outside (fset_of_list changed |\<union>| fset_of_list deleted) f f'" "distinct changed"
    and "set changed \<subseteq> fset (fmdom f')" "set deleted \<inter> fset (fmdom f') = {}"
    and "\<And>k v v'. fmlookup f k = Some v \<Longrightarrow> fmlookup f' k = Some v' \<Longrightarrow> rv (export v) \<le> rv (export v')"
  obtains ys where
    "try_fold (upsert entity key rv) (map (\<lambda>k. export (the (fmlookup f' k))) changed) (map export (fm_values f)) = Ok ys"
    "sort_key key (filter (\<lambda>x. key x \<notin> set deleted) ys) = map export (fm_values f')"
proof -
  let ?inc = "map (\<lambda>k. export (the (fmlookup f' k))) changed"
  have new: "\<exists>v. fmlookup f' k = Some v" if "k \<in> set changed" for k
    using that assms(5) by (auto simp: fmlookup_dom_iff)
  have keys: "map key ?inc = changed"
  proof -
    have "key (export (the (fmlookup f' k))) = k" if "k \<in> set changed" for k
      using new [OF that] assms(2) by auto
    then show ?thesis by (simp add: comp_def map_idI)
  qed
  have "distinct (map key (map export (fm_values f)))"
    by (simp only: exported_keys [of f key export, OF assms(1)] distinct_sorted_list_of_fset)
  moreover have "rv x \<le> rv y" if "x \<in> set (map export (fm_values f))" "y \<in> set ?inc" "key x = key y" for x y
    using that assms(1,2,7) new by (fastforce simp: in_fm_values)
  ultimately obtain ys where ys: "try_fold (upsert entity key rv) ?inc (map export (fm_values f)) = Ok ys"
    "distinct (map key ys)" "set ys = set ?inc \<union> {x \<in> set (map export (fm_values f)). key x \<notin> key ` set ?inc}"
    using upserts_Ok [of key "map export (fm_values f)" ?inc rv entity] assms(4) unfolding keys by blast
  have inc: "key ` set ?inc = set changed" using arg_cong [OF keys, of set] by (simp add: image_image)
  have old: "fmlookup f' k = fmlookup f k" if "k \<notin> set changed" "k \<notin> set deleted" for k
    using assms(3) that by (auto simp: same_outside_def fset_of_list_elem)
  have gone: "fmlookup f' k = None" if "k \<in> set deleted" for k
    by (rule fmdom_notD) (use assms(6) that in auto)
  have "set (filter (\<lambda>x. key x \<notin> set deleted) ys) = export ` set (fm_values f')"
  proof (intro set_eqI iffI)
    fix x
    assume "x \<in> set (filter (\<lambda>x. key x \<notin> set deleted) ys)"
    then have x: "x \<in> set ys" "key x \<notin> set deleted" by simp_all
    from x(1) consider k where "k \<in> set changed" "x = export (the (fmlookup f' k))"
      | k v where "fmlookup f k = Some v" "x = export v" "key x \<notin> set changed"
      unfolding ys(3) inc by (auto simp: in_fm_values)
    then show "x \<in> export ` set (fm_values f')"
    proof cases
      case 1
      with new [OF 1(1)] obtain v where v: "fmlookup f' k = Some v" "x = export v" by auto
      from fm_valuesI [OF v(1)] v(2) show ?thesis by simp
    next
      case 2
      with assms(1) [OF 2(1)] x(2) old have "fmlookup f' k = Some v" by simp
      then have "v \<in> set (fm_values f')" by (rule fm_valuesI)
      with 2(2) show ?thesis by simp
    qed
  next
    fix x
    assume "x \<in> export ` set (fm_values f')"
    then obtain k v where k: "fmlookup f' k = Some v" "x = export v" by (auto simp: in_fm_values)
    then have "key x = k" "k \<notin> set deleted" using assms(2) gone by force+
    moreover have "x \<in> set ys"
    proof (cases "k \<in> set changed")
      case True
      with k show ?thesis unfolding ys(3) by force
    next
      case False
      with k old \<open>k \<notin> set deleted\<close> have "fmlookup f k = Some v" by simp
      with False k fm_valuesI [OF this] assms(1) show ?thesis unfolding ys(3) inc by auto
    qed
    ultimately show "x \<in> set (filter (\<lambda>x. key x \<notin> set deleted) ys)" by simp
  qed
  with ys(2) have "sort_key key (filter (\<lambda>x. key x \<notin> set deleted) ys) = map export (fm_values f')"
    by (intro sorted_export assms(2)) (simp_all add: distinct_map_filter)
  with ys(1) show ?thesis by (rule that)
qed

section \<open>The record of a command\<close>

definition journal_of :: "BrokerState \<Rightarrow> StateChangeSet \<Rightarrow> JournalMutation" where
  "journal_of s ch =
     \<lparr>jm_term = st_term s, jm_revision = st_revision s,
      jm_namespaces = map (\<lambda>k. Namespace_checkpoint (the (fmlookup (st_namespaces s) k))) (cs_namespaces ch),
      jm_tasks = map (\<lambda>k. Task_checkpoint (the (fmlookup (st_tasks s) k))) (cs_tasks ch),
      jm_deleted_tasks = cs_deleted_tasks ch,
      jm_groups = map (\<lambda>k. ConsumerGroup_checkpoint (the (fmlookup (st_groups s) k))) (cs_groups ch)\<rparr>"

text \<open>What the change set of a successful command satisfies.\<close>

definition changes_from :: "BrokerState \<Rightarrow> BrokerState \<Rightarrow> StateChangeSet \<Rightarrow> bool" where
  "changes_from s s' ch \<longleftrightarrow>
     same_outside (fset_of_list (cs_namespaces ch)) (st_namespaces s) (st_namespaces s') \<and>
     same_outside (fset_of_list (cs_tasks ch) |\<union>| fset_of_list (cs_deleted_tasks ch)) (st_tasks s) (st_tasks s') \<and>
     same_outside (fset_of_list (cs_groups ch)) (st_groups s) (st_groups s') \<and>
     set (cs_namespaces ch) \<subseteq> fset (fmdom (st_namespaces s')) \<and> set (cs_tasks ch) \<subseteq> fset (fmdom (st_tasks s')) \<and>
     set (cs_groups ch) \<subseteq> fset (fmdom (st_groups s')) \<and> set (cs_deleted_tasks ch) \<inter> fset (fmdom (st_tasks s')) = {} \<and>
     sorted_wrt (<) (cs_namespaces ch) \<and> sorted_wrt (<) (cs_tasks ch) \<and> sorted_wrt (<) (cs_groups ch) \<and>
     sorted_wrt (<) (cs_deleted_tasks ch)"

definition revisions_le :: "BrokerState \<Rightarrow> BrokerState \<Rightarrow> bool" where
  "revisions_le s s' \<longleftrightarrow> st_term s \<le> st_term s' \<and>
     (\<forall>k v v'. fmlookup (st_namespaces s) k = Some v \<longrightarrow> fmlookup (st_namespaces s') k = Some v' \<longrightarrow>
        namespace_revision v \<le> namespace_revision v') \<and>
     (\<forall>k v v'. fmlookup (st_tasks s) k = Some v \<longrightarrow> fmlookup (st_tasks s') k = Some v' \<longrightarrow> task_revision v \<le> task_revision v') \<and>
     (\<forall>k v v'. fmlookup (st_groups s) k = Some v \<longrightarrow> fmlookup (st_groups s') k = Some v' \<longrightarrow> group_revision v \<le> group_revision v')"

lemma replay_of:
  assumes "entities_wf s" "entities_wf s'" "changes_from s s' ch" "revisions_le s s'"
    and "Revision_next (st_revision s) = Ok (st_revision s')" "checkpoint_ok (BrokerState_checkpoint s')"
  shows "apply_journal_mutation (BrokerState_checkpoint s) (journal_of s' ch) = Ok (True, BrokerState_checkpoint s')"
proof -
  have keys: "\<And>k v. fmlookup (st_namespaces t) k = Some v \<Longrightarrow> nc_namespace_id (Namespace_checkpoint v) = k"
    "\<And>k v. fmlookup (st_tasks t) k = Some v \<Longrightarrow> tc_task_id (Task_checkpoint v) = k"
    "\<And>k v. fmlookup (st_groups t) k = Some v \<Longrightarrow> gc_group_id (ConsumerGroup_checkpoint v) = k" if "entities_wf t" for t
    using that by (auto simp: entities_wf_def)
  note k = keys [OF assms(1)] and k' = keys [OF assms(2)]
  note ch = assms(3) [unfolded changes_from_def] and rv = assms(4) [unfolded revisions_le_def]
  obtain ns where ns: "try_fold upsert_namespace (jm_namespaces (journal_of s' ch)) (map Namespace_checkpoint (fm_values (st_namespaces s))) = Ok ns"
    "sort_key nc_namespace_id ns = map Namespace_checkpoint (fm_values (st_namespaces s'))"
    using replay_table [of "st_namespaces s" nc_namespace_id Namespace_checkpoint "st_namespaces s'" "cs_namespaces ch" "[]" nc_revision "''namespace''"] k(1) k'(1) ch rv
    by (auto simp: journal_of_def upsert_namespace_def strict_sorted_iff)
  obtain gs where gs: "try_fold upsert_group (jm_groups (journal_of s' ch)) (map ConsumerGroup_checkpoint (fm_values (st_groups s))) = Ok gs"
    "sort_key gc_group_id gs = map ConsumerGroup_checkpoint (fm_values (st_groups s'))"
    using replay_table [of "st_groups s" gc_group_id ConsumerGroup_checkpoint "st_groups s'" "cs_groups ch" "[]" gc_revision "''Consumer Group''"] k(3) k'(3) ch rv
    by (auto simp: journal_of_def upsert_group_def strict_sorted_iff)
  obtain ts where ts: "try_fold upsert_task (jm_tasks (journal_of s' ch)) (map Task_checkpoint (fm_values (st_tasks s))) = Ok ts"
    "sort_key tc_task_id (filter (\<lambda>t. tc_task_id t \<notin> set (cs_deleted_tasks ch)) ts) = map Task_checkpoint (fm_values (st_tasks s'))"
    using replay_table [of "st_tasks s" tc_task_id Task_checkpoint "st_tasks s'" "cs_tasks ch" "cs_deleted_tasks ch" tc_revision "''task''"] k(2) k'(2) ch rv
    by (auto simp: journal_of_def upsert_task_def strict_sorted_iff)
  have "map (\<lambda>g. g\<lparr>gc_members := sort_key mc_member_id (gc_members g)\<rparr>) (bc_groups (BrokerState_checkpoint s')) =
      bc_groups (BrokerState_checkpoint s')"
    using exported_sorted [OF assms(2)]
    by (intro map_idI) (auto simp: checkpoint_sorted_def sort_key_id_if_sorted strict_sorted_imp_sorted)
  then have sorted: "sort_checkpoint \<lparr>bc_term = st_term s', bc_revision = st_revision s', bc_namespaces = ns,
      bc_tasks = filter (\<lambda>t. tc_task_id t \<notin> set (cs_deleted_tasks ch)) ts, bc_groups = gs\<rparr> = BrokerState_checkpoint s'"
    by (simp add: sort_checkpoint_def ns(2) gs(2) ts(2) BrokerState_checkpoint_def)
  obtain m where m: "from_checkpoint (BrokerState_checkpoint s') = Ok m" using assms(6) from_checkpoint_Ok_iff by blast
  have rev: "\<not> st_revision s' \<le> st_revision s" using revision.next_less [OF assms(5)] by simp
  have fields: "bc_revision (BrokerState_checkpoint s) = st_revision s" "bc_term (BrokerState_checkpoint s) = st_term s"
    "bc_namespaces (BrokerState_checkpoint s) = map Namespace_checkpoint (fm_values (st_namespaces s))"
    "bc_tasks (BrokerState_checkpoint s) = map Task_checkpoint (fm_values (st_tasks s))"
    "bc_groups (BrokerState_checkpoint s) = map ConsumerGroup_checkpoint (fm_values (st_groups s))"
    "jm_revision (journal_of s' ch) = st_revision s'" "jm_term (journal_of s' ch) = st_term s'"
    "jm_deleted_tasks (journal_of s' ch) = cs_deleted_tasks ch"
    by (simp_all add: BrokerState_checkpoint_def journal_of_def)
  have "\<not> st_term s' < st_term s" using rv by (simp add: not_less)
  with rev show ?thesis
    by (simp add: apply_journal_mutation_def fields assms(5) ns(1) gs(1) ts(1) sorted m Let_def)
qed

lemma task_run_revision: "task_step\<^sup>*\<^sup>* t t' \<Longrightarrow> task_revision t \<le> task_revision t'"
  by (induction rule: rtranclp_induct) (auto dest!: task_step_revision revision.next_le)

lemma exported_checkpoint_ok:
  assumes "broker_inv m"
  shows "checkpoint_ok (BrokerState_checkpoint (sm_state m))"
proof -
  from assms have wf: "entities_wf (sm_state m)" and active: "active_index (the_tasks m) (active_lease_tasks m)"
    by (simp_all add: inv_ex_def)
  note round = checkpoint_round [OF wf]
  have "\<exists>ix. rebuild_indexes (restored_state (BrokerState_checkpoint (sm_state m))) = Ok ix"
    using rebuild_indexes_Ok(1) [of "sm_state m"] active_leases_distinct [OF active] wf
    by (auto simp: round entities_wf_def)
  then have "\<exists>m'. from_checkpoint (BrokerState_checkpoint (sm_state m)) = Ok m'"
    using restore_state_Ok [THEN iffD2, OF conjI, OF round(1) refl] by (auto simp: from_checkpoint_def)
  then show ?thesis by (simp add: from_checkpoint_Ok_iff)
qed

lemma fset_of_sorted [simp]: "fset_of_list (sorted_list_of_fset S) = S"
  by (auto simp: fset_of_list_elem set_sorted_list_of_fset)

lemma command_changes:
  assumes "broker_inv m" "broker_apply c m = (Ok am, m')"
  shows "changes_from (sm_state m) (sm_state m') (am_changes am)" "revisions_le (sm_state m) (sm_state m')"
    and "sm_state m' = sm_state m \<or> Revision_next (st_revision (sm_state m)) = Ok (st_revision (sm_state m'))"
    and "set (cs_deleted_tasks (am_changes am)) \<subseteq> fset (fmdom (the_tasks m))"
proof -
  note eff = broker_apply_effect(1) [OF assms(2,1)]
  note am = broker_apply_changes [OF assms(2)]
  from eff have rec: "recorded (clear_changes m) m'" by (simp add: effect_def)
  then show "changes_from (sm_state m) (sm_state m') (am_changes am)"
    by (auto simp: recorded_def changes_from_def am take_changes_def set_sorted_list_of_fset)
  from rec show "set (cs_deleted_tasks (am_changes am)) \<subseteq> fset (fmdom (the_tasks m))"
    by (auto simp: recorded_def am take_changes_def set_sorted_list_of_fset)
  from eff show "sm_state m' = sm_state m \<or> Revision_next (st_revision (sm_state m)) = Ok (st_revision (sm_state m'))"
    by (simp add: effect_def)
  have "task_revision t \<le> task_revision t'"
    if "fmlookup (the_tasks m) tid = Some t" "fmlookup (the_tasks m') tid = Some t'" for tid t t'
  proof -
    have "task_moves (deleted_tasks m') (the_tasks m) (the_tasks m')" using eff by (simp add: effect_def)
    with that have "task_step\<^sup>*\<^sup>* t t'" by (auto simp: task_moves_def dest!: spec [of _ tid])
    then show ?thesis by (rule task_run_revision)
  qed
  moreover have "group_revision g \<le> group_revision g'"
    if "fmlookup (the_groups m) gid = Some g" "fmlookup (the_groups m') gid = Some g'" for gid g g'
    using eff that by (auto simp: effect_def groups_grow_def group_grows_def dest!: spec [of _ gid])
  ultimately show "revisions_le (sm_state m) (sm_state m')"
    using eff by (auto simp: effect_def revisions_le_def extends_def)
qed

text \<open>The wire image of a record is read back as the record.\<close>

lemma changed_entities_Ok:
  assumes "set ks \<subseteq> fset (fmdom table)"
  shows "changed_entities entity table f ks = Ok (map (\<lambda>k. f (the (fmlookup table k))) ks)"
  using assms by (induction ks) (auto simp: changed_entities_def fmlookup_dom_iff)

lemma changed_value:
  assumes "set ks \<subseteq> fset (fmdom f)" "k \<in> set ks"
  shows "the (fmlookup f k) \<in> set (fm_values f)"
proof -
  from assms obtain v where "fmlookup f k = Some v" by (auto simp: fmlookup_dom_iff)
  then show ?thesis using fm_valuesI [of f k v] by simp
qed

lemma journal_wire_round:
  assumes "entities_wf s'" "changes_from s s' ch" "checkpoint_values_ok (BrokerState_checkpoint s')" "st_revision s' \<noteq> 0"
    and "list_all (\<lambda>tid. ident (task_str tid)) (cs_deleted_tasks ch)"
  obtains w where "journal_to_wire s' ch = Ok w" "journal_from_wire w = Ok (journal_of s' ch)"
proof -
  note ch = assms(2) [unfolded changes_from_def]
  let ?ns = "map (\<lambda>k. Namespace_checkpoint (the (fmlookup (st_namespaces s') k))) (cs_namespaces ch)"
  let ?ts = "map (\<lambda>k. Task_checkpoint (the (fmlookup (st_tasks s') k))) (cs_tasks ch)"
  let ?gs = "map (\<lambda>k. ConsumerGroup_checkpoint (the (fmlookup (st_groups s') k))) (cs_groups ch)"
  have keys: "map nc_namespace_id ?ns = cs_namespaces ch" "map tc_task_id ?ts = cs_tasks ch" "map gc_group_id ?gs = cs_groups ch"
    using assms(1) ch by (auto simp: entities_wf_def fmlookup_dom_iff intro!: map_idI)
  have sorted: "sort_key nw_namespace_id (map namespace_to_wire ?ns) = map namespace_to_wire ?ns"
    "sort_key tw_task_id (map task_to_wire ?ts) = map task_to_wire ?ts"
    "sort_key gw_group_id (map group_to_wire ?gs) = map group_to_wire ?gs"
    using sorted_ids(1) [of ?ns] sorted_ids(2) [of ?ts] sorted_ids(3) [of ?gs] ch unfolding keys
    by (auto simp: comp_def intro!: sort_key_id_if_sorted)
  have deleted: "sort (map task_str (cs_deleted_tasks ch)) = map task_str (cs_deleted_tasks ch)"
    using ch by (intro sort_key_id_if_sorted) (auto simp: sorted_wrt_map less_TaskId_def elim!: sorted_wrt_mono_rel [rotated])
  have vals: "\<forall>n \<in> set ?ns. namespace_values_ok n" "\<forall>t \<in> set ?ts. task_values_ok t"
    "\<forall>g \<in> set ?gs. group_values_ok g \<and> sorted_wrt (<) (map mc_member_id (gc_members g))"
    using assms(3) exported_sorted [OF assms(1)] changed_value [of "cs_namespaces ch" "st_namespaces s'"]
      changed_value [of "cs_tasks ch" "st_tasks s'"] changed_value [of "cs_groups ch" "st_groups s'"] ch
    by (simp_all add: checkpoint_values_ok_def checkpoint_sorted_def BrokerState_checkpoint_def list_all_iff)
  have "collect_results namespace_from_wire (map namespace_to_wire ?ns) = Ok ?ns"
    "collect_results task_from_wire (map task_to_wire ?ts) = Ok ?ts"
    "collect_results group_from_wire (map group_to_wire ?gs) = Ok ?gs"
    using vals namespace_wire_round task_wire_round group_wire_round by (blast intro: collect_results_round)+
  moreover have "collect_results (\<lambda>tid. map_err (\<lambda>e. InvalidFormat (''deleted task ID is invalid: '' @ IdentifierError_display e))
      (TaskId_new tid)) (map task_str (cs_deleted_tasks ch)) = Ok (cs_deleted_tasks ch)"
    using assms(5) by (intro collect_results_round) (simp add: list_all_iff reparse_ids)
  moreover have "\<not> list_ex (\<lambda>tid. tid \<in> set (cs_tasks ch)) (cs_deleted_tasks ch)"
    using ch by (auto simp: list_ex_iff)
  moreover have "bc_term (BrokerState_checkpoint s') \<noteq> 0" using assms(3) by (simp add: checkpoint_values_ok_def)
  moreover have "journal_to_wire s' ch = Ok \<lparr>jw_deleted_tasks = map task_str (cs_deleted_tasks ch),
      jw_groups = map group_to_wire ?gs, jw_namespaces = map namespace_to_wire ?ns, jw_revision = st_revision s',
      jw_schema_version = SCHEMA_VERSION, jw_tasks = map task_to_wire ?ts, jw_term = st_term s'\<rparr>"
    using sorted deleted ch calculation(5) by (simp add: journal_to_wire_def changed_entities_Ok comp_def)
  moreover have "\<not> list_ex (\<lambda>tid. tid \<in> set (map tc_task_id ?ts)) (cs_deleted_tasks ch)"
    using calculation(5) unfolding keys(2) .
  ultimately show ?thesis
    using assms(4)
    by (intro that) (assumption, simp add: journal_from_wire_def journal_of_def Term_new_def BrokerState_checkpoint_def
      del: map_map set_map list.set_map)
qed

end
