(* ===== verification/Repository.thy ===== *)
theory Repository
  imports Journal
begin

text \<open>
  \<open>agent-broker-storage/src/repository.rs\<close> and \<open>filesystem_durability.rs\<close>: the durable journal
  with snapshot compaction.  The JSON library and the file system are parameters: \<open>Json\<close> renders
  and reads wire values, \<open>Io\<close> says for one call which file operation fails, and what a failed
  operation has left on the disk.
\<close>

section \<open>The environment\<close>

record Json =
  snapshot_to_vec :: "SnapshotWire \<Rightarrow> string + bytes"
  snapshot_from_slice :: "bytes \<Rightarrow> string + SnapshotWire"
  journal_to_vec :: "JournalMutationWire \<Rightarrow> string + bytes"
  journal_from_slice :: "bytes \<Rightarrow> string + JournalMutationWire"
  is_json :: "bytes \<Rightarrow> bool"

text \<open>
  \<open>io_fail op\<close> is the error of the operation with the label \<open>op\<close>, if it fails.  After a failed append
  the first \<open>io_written\<close> bytes of the payload are on the disk; after a failed snapshot replacement or
  truncation \<open>io_replaced\<close> and \<open>io_truncated\<close> say whether it took place nevertheless.
\<close>

record Io =
  io_fail :: "string \<Rightarrow> string option"
  io_written :: nat
  io_replaced :: bool
  io_truncated :: bool

text \<open>One commit appends, and may compact: each of its three file operations has its own outcome.\<close>

record CommitIo =
  io_append :: Io
  io_snapshot :: Io
  io_truncate :: Io

record Disk =
  disk_snapshot :: "bytes option"
  disk_journal :: "bytes option"

datatype RepositoryError =
    InvalidConfiguration string
  | Storage StorageError
  | Io string string

fun RepositoryError_display :: "RepositoryError \<Rightarrow> string" where
  "RepositoryError_display (InvalidConfiguration message) = message"
| "RepositoryError_display (Storage e) = StorageError_display e"
| "RepositoryError_display (Io operation source) = operation @ '': '' @ source"

definition io_try :: "Io \<Rightarrow> string \<Rightarrow> RepositoryError + unit" where
  "io_try io op = (case io_fail io op of None \<Rightarrow> Ok () | Some e \<Rightarrow> Err (Io op e))"

definition io_all :: "Io \<Rightarrow> string list \<Rightarrow> RepositoryError + unit" where
  "io_all io ops = try_fold (\<lambda>op _. io_try io op) ops ()"

section \<open>Durable file operations\<close>

definition sync_directory :: "Io \<Rightarrow> RepositoryError + unit" where
  "sync_directory io = io_all io [''directory open for fsync failed'', ''directory fsync failed'']"

definition append_synced :: "Io \<Rightarrow> bytes \<Rightarrow> Disk \<Rightarrow> (RepositoryError + unit) \<times> Disk" where
  "append_synced io payload d =
     (case io_all io [''storage directory creation failed'', ''journal existence check failed'', ''journal open for append failed''] of
        Err e \<Rightarrow> (Err e, d)
      | Ok _ \<Rightarrow>
          let created = disk_journal d = None;
              old = (case disk_journal d of None \<Rightarrow> [] | Some b \<Rightarrow> b)
          in case io_all io [''journal append failed'', ''journal flush failed'', ''journal fsync failed''] of
               Err e \<Rightarrow> (Err e, d\<lparr>disk_journal := Some (old @ take (io_written io) payload)\<rparr>)
             | Ok _ \<Rightarrow>
                 (if created then sync_directory io else Ok (), d\<lparr>disk_journal := Some (old @ payload)\<rparr>))"

definition write_snapshot_atomic :: "Io \<Rightarrow> bytes \<Rightarrow> Disk \<Rightarrow> (RepositoryError + unit) \<times> Disk" where
  "write_snapshot_atomic io payload d =
     (case io_all io [''storage directory creation failed'', ''snapshot tempfile creation failed'',
          ''snapshot tempfile write failed'', ''snapshot tempfile flush failed'', ''snapshot tempfile fsync failed'',
          ''atomic snapshot replace failed''] of
        Err e \<Rightarrow> (Err e, d)
      | Ok _ \<Rightarrow>
          case sync_directory io of
            Err e \<Rightarrow> (Err e, if io_replaced io then d\<lparr>disk_snapshot := Some payload\<rparr> else d)
          | Ok _ \<Rightarrow> (Ok (), d\<lparr>disk_snapshot := Some payload\<rparr>))"

definition truncate_synced :: "Io \<Rightarrow> Disk \<Rightarrow> (RepositoryError + unit) \<times> Disk" where
  "truncate_synced io d =
     (case io_all io [''storage directory creation failed'', ''journal open for truncation failed''] of
        Err e \<Rightarrow> (Err e, d)
      | Ok _ \<Rightarrow>
          case try_r (io_all io [''journal truncation flush failed'', ''journal truncation fsync failed'']) (\<lambda>_. sync_directory io) of
            Err e \<Rightarrow> (Err e, if io_truncated io then d\<lparr>disk_journal := Some []\<rparr> else d)
          | Ok _ \<Rightarrow> (Ok (), d\<lparr>disk_journal := Some []\<rparr>))"

section \<open>The repository\<close>

definition MIN_MAX_JOURNAL_BYTES :: u64 where "MIN_MAX_JOURNAL_BYTES = 4096"
definition DEFAULT_COMPACT_EVERY :: u64 where "DEFAULT_COMPACT_EVERY = 4096"
definition DEFAULT_MAX_JOURNAL_BYTES :: u64 where "DEFAULT_MAX_JOURNAL_BYTES = 8 * 1024 * 1024"
definition MAX_JOURNAL_RECORD_BYTES :: usize where "MAX_JOURNAL_RECORD_BYTES = 128 * 1024 * 1024"

record JournalCompactionPolicy =
  compact_every :: u64
  max_journal_bytes :: u64

definition JournalCompactionPolicy_new :: "u64 \<Rightarrow> u64 \<Rightarrow> RepositoryError + JournalCompactionPolicy" where
  "JournalCompactionPolicy_new every bytes =
     (if every = 0 then Err (InvalidConfiguration ''compact_every must be positive'')
      else if bytes < MIN_MAX_JOURNAL_BYTES then Err (InvalidConfiguration ''max_journal_bytes must be at least 4096'')
      else Ok \<lparr>compact_every = every, max_journal_bytes = bytes\<rparr>)"

definition JournalCompactionPolicy_default :: JournalCompactionPolicy where
  "JournalCompactionPolicy_default =
     \<lparr>compact_every = DEFAULT_COMPACT_EVERY, max_journal_bytes = DEFAULT_MAX_JOURNAL_BYTES\<rparr>"

record JournaledBrokerStateRepository =
  repo_policy :: JournalCompactionPolicy
  commits_since_compaction :: u64
  journal_bytes :: u64
  compaction_deferred :: bool
  repo_disk :: Disk

text \<open>The two paths are fixed; what is on the disk under them is part of the state.\<close>

definition Repository_new :: "JournalCompactionPolicy \<Rightarrow> Disk \<Rightarrow> JournaledBrokerStateRepository" where
  "Repository_new policy d =
     \<lparr>repo_policy = policy, commits_since_compaction = 0, journal_bytes = 0, compaction_deferred = False, repo_disk = d\<rparr>"

definition should_compact :: "JournaledBrokerStateRepository \<Rightarrow> bool" where
  "should_compact r \<longleftrightarrow>
     compact_every (repo_policy r) \<le> commits_since_compaction r \<or> max_journal_bytes (repo_policy r) \<le> journal_bytes r"

definition compact_repo ::
  "Json \<Rightarrow> CommitIo \<Rightarrow> BrokerState \<Rightarrow> JournaledBrokerStateRepository \<Rightarrow> (RepositoryError + unit) \<times> JournaledBrokerStateRepository" where
  "compact_repo json io s r =
     (case map_err Storage (encode_snapshot (snapshot_to_vec json) (BrokerState_checkpoint s)) of
        Err e \<Rightarrow> (Err e, r)
      | Ok payload \<Rightarrow>
          case write_snapshot_atomic (io_snapshot io) payload (repo_disk r) of
            (Err e, d) \<Rightarrow> (Err e, r\<lparr>repo_disk := d\<rparr>)
          | (Ok _, d) \<Rightarrow>
              case truncate_synced (io_truncate io) d of
                (Err e, d) \<Rightarrow> (Err e, r\<lparr>repo_disk := d\<rparr>)
              | (Ok _, d) \<Rightarrow> (Ok (), r\<lparr>repo_disk := d, commits_since_compaction := 0, journal_bytes := 0\<rparr>))"

definition empty_checkpoint :: BrokerCheckpoint where
  "empty_checkpoint =
     \<lparr>bc_term = Term_INITIAL, bc_revision = 0, bc_namespaces = [], bc_tasks = [], bc_groups = []\<rparr>"

definition load_snapshot :: "Json \<Rightarrow> Io \<Rightarrow> Disk \<Rightarrow> RepositoryError + BrokerCheckpoint" where
  "load_snapshot json io d =
     try_r (io_try io ''snapshot existence check failed'') (\<lambda>_.
     case disk_snapshot d of
       None \<Rightarrow> Ok empty_checkpoint
     | Some payload \<Rightarrow>
         try_r (io_try io ''snapshot read failed'') (\<lambda>_.
         map_err Storage (decode_snapshot (snapshot_from_slice json) payload)))"

text \<open>One line of the journal, with its newline if there is one, and what follows it.\<close>

definition split_line :: "bytes \<Rightarrow> bytes \<times> bytes" where
  "split_line bs =
     (let line = takeWhile (\<lambda>c. c \<noteq> newline) bs; rest = dropWhile (\<lambda>c. c \<noteq> newline) bs
      in case rest of [] \<Rightarrow> (line, []) | c # cs \<Rightarrow> (line @ [c], cs))"

definition read_bounded_record :: "Io \<Rightarrow> bytes \<Rightarrow> RepositoryError + bytes \<times> bytes" where
  "read_bounded_record io bs =
     try_r (io_try io ''journal replay read failed'') (\<lambda>_.
     let (line, rest) = split_line bs in
     if length line > MAX_JOURNAL_RECORD_BYTES
     then Err (Storage (InvalidFormat (''journal record exceeds '' @ show_nat MAX_JOURNAL_RECORD_BYTES @ '' bytes'')))
     else Ok (line, rest))"

definition truncate_torn_tail :: "Io \<Rightarrow> nat \<Rightarrow> Disk \<Rightarrow> (RepositoryError + unit) \<times> Disk" where
  "truncate_torn_tail io offset d =
     (case io_try io ''torn journal tail truncation failed'' of
        Err e \<Rightarrow> (Err e, d)
      | Ok _ \<Rightarrow>
          (io_try io ''torn journal tail fsync failed'', d\<lparr>disk_journal := map_option (take offset) (disk_journal d)\<rparr>))"

lemma split_line_append: "split_line bs = (line, rest) \<Longrightarrow> bs = line @ rest"
  using takeWhile_dropWhile_id [of "\<lambda>c. c \<noteq> newline" bs]
  by (cases "dropWhile (\<lambda>c. c \<noteq> newline) bs") (auto simp: split_line_def)

lemma split_line_nonempty: "split_line bs = (line, rest) \<Longrightarrow> bs \<noteq> [] \<Longrightarrow> line \<noteq> []"
  by (cases bs) (auto simp: split_line_def Let_def split: list.splits if_splits)

text \<open>The replay loop, on the bytes from \<open>offset\<close> on; it ends because every record read is non-empty.\<close>

function replay_loop ::
  "Json \<Rightarrow> Io \<Rightarrow> nat \<Rightarrow> bytes \<Rightarrow> BrokerCheckpoint \<Rightarrow> Disk \<Rightarrow> (RepositoryError + BrokerCheckpoint) \<times> Disk" where
  "replay_loop json io offset bs c d =
     (if bs = [] then (Ok c, d)
      else case read_bounded_record io bs of
        Err e \<Rightarrow> (Err e, d)
      | Ok (line, rest) \<Rightarrow>
          if last line \<noteq> newline then
            if rest = [] then
              (case truncate_torn_tail io offset d of (Err e, d) \<Rightarrow> (Err e, d) | (Ok _, d) \<Rightarrow> (Ok c, d))
            else (Err (Storage (InvalidFormat ''journal contains a torn record before its tail'')), d)
          else if \<not> is_json json line then
            if rest = [] then
              (case truncate_torn_tail io offset d of (Err e, d) \<Rightarrow> (Err e, d) | (Ok _, d) \<Rightarrow> (Ok c, d))
            else (Err (Storage (InvalidFormat ''journal contains invalid JSON before its tail'')), d)
          else
            case map_err Storage (try_r (decode_journal_mutation (journal_from_slice json) line) (apply_journal_mutation c)) of
              Err e \<Rightarrow> (Err e, d)
            | Ok (_, c') \<Rightarrow> replay_loop json io (offset + length line) rest c' d)"
  by pat_completeness auto
termination
proof (relation "measure (\<lambda>(json, io, offset, bs, c, d). length bs)", goal_cases)
  case (2 json io offset bs c d p line rest res x c')
  then have split: "split_line bs = (line, rest)"
    by (auto simp: read_bounded_record_def try_r_def split: sum.splits if_splits prod.splits)
  from split_line_append [OF split] split_line_nonempty [OF split] 2(1) show ?case by simp
qed simp

declare replay_loop.simps [simp del]

definition replay_journal :: "Json \<Rightarrow> Io \<Rightarrow> BrokerCheckpoint \<Rightarrow> Disk \<Rightarrow> (RepositoryError + BrokerCheckpoint) \<times> Disk" where
  "replay_journal json io c d =
     (case io_all io [''journal open for replay failed'', ''journal metadata read failed'', ''journal replay handle clone failed''] of
        Err e \<Rightarrow> (Err e, d)
      | Ok _ \<Rightarrow> replay_loop json io 0 (case disk_journal d of None \<Rightarrow> [] | Some b \<Rightarrow> b) c d)"

text \<open>\<open>u64::saturating_sub\<close>.\<close>

definition saturating_sub :: "u64 \<Rightarrow> u64 \<Rightarrow> u64" where
  "saturating_sub a b = (if a \<le> b then 0 else a - b)"

definition repo_load ::
  "Json \<Rightarrow> Io \<Rightarrow> JournaledBrokerStateRepository \<Rightarrow> (RepositoryError + BrokerCheckpoint) \<times> JournaledBrokerStateRepository" where
  "repo_load json io r =
     (case load_snapshot json io (repo_disk r) of
        Err e \<Rightarrow> (Err e, r)
      | Ok c \<Rightarrow>
          let loaded = (\<lambda>c' r. (Ok c', r\<lparr>commits_since_compaction := saturating_sub (bc_revision c') (bc_revision c),
                compaction_deferred := False\<rparr>))
          in case io_try io ''journal existence check failed'' of
               Err e \<Rightarrow> (Err e, r)
             | Ok _ \<Rightarrow>
                 if disk_journal (repo_disk r) = None then loaded c r
                 else case replay_journal json io c (repo_disk r) of
                     (Err e, d) \<Rightarrow> (Err e, r\<lparr>repo_disk := d\<rparr>)
                   | (Ok c', d) \<Rightarrow>
                       case io_try io ''journal size read failed'' of
                         Err e \<Rightarrow> (Err e, r\<lparr>repo_disk := d\<rparr>)
                       | Ok _ \<Rightarrow>
                           loaded c' (r\<lparr>repo_disk := d, journal_bytes := of_nat (length (the (disk_journal d)))\<rparr>))"

definition repo_commit ::
  "Json \<Rightarrow> CommitIo \<Rightarrow> BrokerState \<Rightarrow> StateChangeSet \<Rightarrow> JournaledBrokerStateRepository \<Rightarrow>
   (RepositoryError + unit) \<times> JournaledBrokerStateRepository" where
  "repo_commit json io s ch r =
     (if compaction_deferred r then
        (case compact_repo json io s r of
           (Err e, r) \<Rightarrow> (Err e, r)
         | (Ok _, r) \<Rightarrow> (Ok (), r\<lparr>compaction_deferred := False\<rparr>))
      else case map_err Storage (encode_journal_mutation (journal_to_vec json) s ch) of
        Err e \<Rightarrow> (Err e, r)
      | Ok payload \<Rightarrow>
          case append_synced (io_append io) payload (repo_disk r) of
            (Err e, d) \<Rightarrow> (Err e, r\<lparr>repo_disk := d\<rparr>)
          | (Ok _, d) \<Rightarrow>
              if \<not> length payload < 2 ^ 64
              then (Err (Storage (InvalidFormat ''journal payload length does not fit u64'')), r\<lparr>repo_disk := d\<rparr>)
              else case checked_add (journal_bytes r) (of_nat (length payload)) of
                None \<Rightarrow> (Err (Storage (InvalidFormat ''journal byte accounting overflowed'')), r\<lparr>repo_disk := d\<rparr>)
              | Some jb \<Rightarrow>
                  case checked_add (commits_since_compaction r) 1 of
                    None \<Rightarrow> (Err (Storage (InvalidFormat ''journal commit accounting overflowed'')),
                      r\<lparr>repo_disk := d, journal_bytes := jb\<rparr>)
                  | Some n \<Rightarrow>
                      let r1 = r\<lparr>repo_disk := d, journal_bytes := jb, commits_since_compaction := n\<rparr> in
                      if should_compact r1 then
                        (case compact_repo json io s r1 of
                           (Err _, r2) \<Rightarrow> (Ok (), r2\<lparr>compaction_deferred := True\<rparr>)
                         | (Ok _, r2) \<Rightarrow> (Ok (), r2))
                      else (Ok (), r1))"

section \<open>What is on the disk\<close>

text \<open>A complete journal record that is read back as a mutation.\<close>

definition record_line :: "Json \<Rightarrow> bytes \<Rightarrow> JournalMutation \<Rightarrow> bool" where
  "record_line json line jm \<longleftrightarrow>
     (\<exists>b. line = b @ [newline] \<and> newline \<notin> set b) \<and> length line \<le> MAX_JOURNAL_RECORD_BYTES \<and>
     is_json json line \<and> decode_journal_mutation (journal_from_slice json) line = Ok jm"

definition replayed :: "JournalMutation list \<Rightarrow> BrokerCheckpoint \<Rightarrow> StorageError + BrokerCheckpoint" where
  "replayed = try_fold (\<lambda>jm c. try_r (apply_journal_mutation c jm) (\<lambda>(_, c'). Ok c'))"

definition disk_base :: "Json \<Rightarrow> Disk \<Rightarrow> BrokerCheckpoint \<Rightarrow> bool" where
  "disk_base json d c \<longleftrightarrow>
     (case disk_snapshot d of None \<Rightarrow> c = empty_checkpoint | Some b \<Rightarrow> decode_snapshot (snapshot_from_slice json) b = Ok c)"

definition journal_of_disk :: "Disk \<Rightarrow> bytes" where
  "journal_of_disk d = (case disk_journal d of None \<Rightarrow> [] | Some b \<Rightarrow> b)"

text \<open>
  The disk holds the checkpoint \<open>c\<close>: a snapshot and complete records that lead to it, followed by a
  torn \<open>tail\<close>.
\<close>

definition durable :: "Json \<Rightarrow> bytes \<Rightarrow> Disk \<Rightarrow> BrokerCheckpoint \<Rightarrow> bool" where
  "durable json tail d c \<longleftrightarrow> newline \<notin> set tail \<and> length tail \<le> MAX_JOURNAL_RECORD_BYTES \<and>
     (\<exists>c0 lines jms. disk_base json d c0 \<and> journal_of_disk d = concat lines @ tail \<and>
        list_all2 (record_line json) lines jms \<and> replayed jms c0 = Ok c \<and> (\<forall>jm \<in> set jms. jm_revision jm \<le> bc_revision c))"

lemma durableI:
  assumes "disk_base json d c0" "journal_of_disk d = concat lines @ tail" "newline \<notin> set tail"
    "length tail \<le> MAX_JOURNAL_RECORD_BYTES" "list_all2 (record_line json) lines jms" "replayed jms c0 = Ok c"
    "\<forall>jm \<in> set jms. jm_revision jm \<le> bc_revision c"
  shows "durable json tail d c"
  unfolding durable_def using assms by blast

lemma durableE:
  assumes "durable json tail d c"
  obtains c0 lines jms where "disk_base json d c0" "journal_of_disk d = concat lines @ tail" "newline \<notin> set tail"
    "length tail \<le> MAX_JOURNAL_RECORD_BYTES" "list_all2 (record_line json) lines jms" "replayed jms c0 = Ok c"
    "\<forall>jm \<in> set jms. jm_revision jm \<le> bc_revision c"
  using assms unfolding durable_def by blast

lemma io_try_Ok [simp]: "io_fail io = (\<lambda>_. None) \<Longrightarrow> io_try io op = Ok ()"
  by (simp add: io_try_def)

lemma io_all_Ok [simp]: "io_fail io = (\<lambda>_. None) \<Longrightarrow> io_all io ops = Ok ()"
  unfolding io_all_def by (induction ops) simp_all

lemma split_line_record:
  "newline \<notin> set b \<Longrightarrow> split_line (b @ [newline] @ rest) = (b @ [newline], rest)"
  by (auto simp: split_line_def Let_def takeWhile_append dropWhile_append)

lemma split_line_tail: "newline \<notin> set b \<Longrightarrow> split_line b = (b, [])"
proof -
  assume "newline \<notin> set b"
  then have "takeWhile (\<lambda>c. c \<noteq> newline) b = b" "dropWhile (\<lambda>c. c \<noteq> newline) b = []"
    by (auto simp: takeWhile_eq_all_conv dropWhile_eq_Nil_conv)
  then show ?thesis by (simp only: split_line_def Let_def list.case)
qed

lemma replayed_simps [simp]:
  "replayed [] c = Ok c"
  "replayed (jm # jms) c = try_r (apply_journal_mutation c jm) (\<lambda>(_, c'). replayed jms c')"
  by (auto simp: replayed_def try_r_def split: sum.split prod.split)

lemma replayed_append: "replayed (jms @ jms') c = try_r (replayed jms c) (replayed jms')"
  unfolding replayed_def by (rule try_fold_append)

lemma replayed_stale: "\<forall>jm \<in> set jms. jm_revision jm \<le> bc_revision c \<Longrightarrow> replayed jms c = Ok c"
  by (induction jms) (simp_all add: apply_journal_mutation_def)

lemma replay_loop_record:
  assumes "io_fail io = (\<lambda>_. None)" "record_line json line jm"
  shows "replay_loop json io offset (line @ rest) c d =
    (case apply_journal_mutation c jm of
       Err e \<Rightarrow> (Err (Storage e), d) | Ok (_, c') \<Rightarrow> replay_loop json io (offset + length line) rest c' d)"
proof -
  from assms(2) obtain b where b: "line = b @ [newline]" "newline \<notin> set b" and line: "length line \<le> MAX_JOURNAL_RECORD_BYTES"
    "is_json json line" "decode_journal_mutation (journal_from_slice json) line = Ok jm"
    by (auto simp: record_line_def)
  have "read_bounded_record io (line @ rest) = Ok (line, rest)"
    using assms(1) line(1) split_line_record [OF b(2), of rest] by (simp add: read_bounded_record_def b(1))
  with b line show ?thesis
    by (subst replay_loop.simps) (auto split: sum.splits)
qed

lemma replay_loop_tail:
  assumes "io_fail io = (\<lambda>_. None)" "newline \<notin> set tail" "length tail \<le> MAX_JOURNAL_RECORD_BYTES"
  shows "replay_loop json io offset tail c d =
    (Ok c, if tail = [] then d else d\<lparr>disk_journal := map_option (take offset) (disk_journal d)\<rparr>)"
proof (cases "tail = []")
  case False
  then have "last tail \<noteq> newline" using assms(2) last_in_set by metis
  moreover have "read_bounded_record io tail = Ok (tail, [])"
    using assms by (simp add: read_bounded_record_def split_line_tail)
  ultimately show ?thesis
    using False assms(1) by (subst replay_loop.simps) (simp add: truncate_torn_tail_def)
qed (simp add: replay_loop.simps)

lemma replay_loop_spec:
  assumes "io_fail io = (\<lambda>_. None)" "newline \<notin> set tail" "length tail \<le> MAX_JOURNAL_RECORD_BYTES"
  shows "list_all2 (record_line json) lines jms \<Longrightarrow> replayed jms c = Ok c' \<Longrightarrow>
    replay_loop json io offset (concat lines @ tail) c d =
      (Ok c', if tail = [] then d else d\<lparr>disk_journal := map_option (take (offset + length (concat lines))) (disk_journal d)\<rparr>)"
proof (induction jms arbitrary: lines offset c)
  case Nil
  then show ?case using replay_loop_tail [OF assms] by simp
next
  case (Cons jm jms)
  from Cons.prems(1) obtain line lines' where l: "lines = line # lines'" "record_line json line jm"
    "list_all2 (record_line json) lines' jms" by (auto simp: list_all2_Cons2)
  from Cons.prems(2) obtain b c1 where c1: "apply_journal_mutation c jm = Ok (b, c1)" "replayed jms c1 = Ok c'"
    by (auto simp: try_r_Ok)
  show ?case
    using Cons.IH [OF l(3) c1(2), of "offset + length line"]
    by (simp add: l(1) replay_loop_record [OF assms(1) l(2)] c1(1) add.assoc)
qed

section \<open>Loading\<close>

lemma load_durable:
  assumes "io_fail io = (\<lambda>_. None)" "durable json tail (repo_disk r) c"
  obtains r' where "repo_load json io r = (Ok c, r')" "durable json [] (repo_disk r') c" "\<not> compaction_deferred r'"
    "repo_policy r' = repo_policy r"
proof -
  let ?d = "repo_disk r"
  from assms(2) obtain c0 lines jms where base: "disk_base json ?d c0" and journal: "journal_of_disk ?d = concat lines @ tail"
    and recs: "list_all2 (record_line json) lines jms" and rep: "replayed jms c0 = Ok c"
    and rev: "\<forall>jm \<in> set jms. jm_revision jm \<le> bc_revision c"
    and tail: "newline \<notin> set tail" "length tail \<le> MAX_JOURNAL_RECORD_BYTES"
    by (rule durableE)
  have snap: "load_snapshot json io ?d = Ok c0"
    using base assms(1) by (auto simp: load_snapshot_def disk_base_def split: option.splits)
  let ?d' = "if tail = [] then ?d else ?d\<lparr>disk_journal := map_option (take (length (concat lines))) (disk_journal ?d)\<rparr>"
  have "journal_of_disk ?d' = concat lines"
    using journal by (auto simp: journal_of_disk_def split: option.splits)
  moreover have "disk_base json ?d' c0" using base by (simp add: disk_base_def)
  ultimately have d': "durable json [] ?d' c"
    using recs rep rev by (intro durableI) auto
  show thesis
  proof (cases "disk_journal ?d")
    case None
    with journal have "tail = []" "concat lines = []" by (auto simp: journal_of_disk_def)
    moreover from this recs have "jms = []"
      by (cases jms) (auto simp: list_all2_Cons2 record_line_def)
    ultimately have "c = c0" using rep by simp
    with None snap assms(1) have "repo_load json io r =
        (Ok c, r\<lparr>commits_since_compaction := saturating_sub (bc_revision c) (bc_revision c), compaction_deferred := False\<rparr>)"
      by (simp add: repo_load_def)
    from that [OF this] d' \<open>tail = []\<close> show thesis by simp
  next
    case (Some b)
    then have "replay_journal json io c0 ?d = (Ok c, ?d')"
      using replay_loop_spec [OF assms(1) tail recs rep, of 0 ?d] journal assms(1)
      by (simp add: replay_journal_def journal_of_disk_def)
    with Some snap assms(1) have "repo_load json io r =
        (Ok c, r\<lparr>repo_disk := ?d', journal_bytes := of_nat (length (the (disk_journal ?d'))),
           commits_since_compaction := saturating_sub (bc_revision c) (bc_revision c0), compaction_deferred := False\<rparr>)"
      by (simp add: repo_load_def)
    from that [OF this] d' show thesis by simp
  qed
qed

section \<open>Committing\<close>

text \<open>A failed or successful append leaves the old records, followed by nothing, a torn prefix or the whole record.\<close>

lemma append_synced_cases:
  assumes "append_synced io payload d = (res, d')"
  obtains (untouched) "isl res" "d' = d"
  | (torn) n where "isl res" "disk_snapshot d' = disk_snapshot d" "journal_of_disk d' = journal_of_disk d @ take n payload"
  | (appended) "disk_snapshot d' = disk_snapshot d" "journal_of_disk d' = journal_of_disk d @ payload"
  using assms
  by (auto simp: append_synced_def Let_def journal_of_disk_def split: sum.splits option.splits if_splits) (metis sum.disc(1))+

lemma write_snapshot_cases:
  assumes "write_snapshot_atomic io payload d = (res, d')"
  obtains (untouched) "isl res" "d' = d"
  | (replaced) "d' = d\<lparr>disk_snapshot := Some payload\<rparr>"
  using assms by (auto simp: write_snapshot_atomic_def split: sum.splits if_splits) (metis sum.disc(1))+

lemma truncate_cases:
  assumes "truncate_synced io d = (res, d')"
  obtains (untouched) "isl res" "d' = d"
  | (truncated) "d' = d\<lparr>disk_journal := Some []\<rparr>"
  using assms by (auto simp: truncate_synced_def split: sum.splits if_splits) (metis sum.disc(1))+

lemma durable_append:
  assumes "durable json [] d c" "record_line json payload jm" "apply_journal_mutation c jm = Ok (True, c')"
    and "bc_revision c \<le> bc_revision c'" "jm_revision jm \<le> bc_revision c'"
    and "disk_snapshot d' = disk_snapshot d" "journal_of_disk d' = journal_of_disk d @ payload"
  shows "durable json [] d' c'"
proof -
  from assms(1) obtain c0 lines jms where d: "disk_base json d c0" "journal_of_disk d = concat lines @ []"
    "list_all2 (record_line json) lines jms" "replayed jms c0 = Ok c" "\<forall>jm \<in> set jms. jm_revision jm \<le> bc_revision c"
    by (rule durableE)
  show ?thesis
  proof (rule durableI)
    show "disk_base json d' c0" using d(1) assms(6) by (simp add: disk_base_def)
    show "list_all2 (record_line json) (lines @ [payload]) (jms @ [jm])"
      using d(3) assms(2) by (simp add: list_all2_appendI)
    show "replayed (jms @ [jm]) c0 = Ok c'" by (simp add: replayed_append d(4) assms(3))
    show "\<forall>x \<in> set (jms @ [jm]). jm_revision x \<le> bc_revision c'" using d(5) assms(4,5) by auto
  qed (use d(2) assms(7) in simp_all)
qed

lemma durable_torn:
  assumes "durable json [] d c" "record_line json payload jm" "n < length payload"
    and "disk_snapshot d' = disk_snapshot d" "journal_of_disk d' = journal_of_disk d @ take n payload"
  shows "durable json (take n payload) d' c"
proof -
  from assms(1) obtain c0 lines jms where d: "disk_base json d c0" "journal_of_disk d = concat lines @ []"
    "list_all2 (record_line json) lines jms" "replayed jms c0 = Ok c" "\<forall>jm \<in> set jms. jm_revision jm \<le> bc_revision c"
    by (rule durableE)
  from assms(2) obtain b where "payload = b @ [newline]" "newline \<notin> set b" "length payload \<le> MAX_JOURNAL_RECORD_BYTES"
    by (auto simp: record_line_def)
  with assms(3) have "newline \<notin> set (take n payload)" "length (take n payload) \<le> MAX_JOURNAL_RECORD_BYTES"
    by (auto dest: in_set_takeD)
  then show ?thesis
    using d assms(4,5) by (intro durableI [of json d' c0 lines]) (simp_all add: disk_base_def)
qed

lemma durable_replaced:
  assumes "durable json [] d c" "decode_snapshot (snapshot_from_slice json) sb = Ok c'" "bc_revision c \<le> bc_revision c'"
  shows "durable json [] (d\<lparr>disk_snapshot := Some sb\<rparr>) c'"
proof -
  from assms(1) obtain c0 lines jms where d: "journal_of_disk d = concat lines @ []"
    "list_all2 (record_line json) lines jms" "\<forall>jm \<in> set jms. jm_revision jm \<le> bc_revision c"
    by (rule durableE)
  then have "\<forall>jm \<in> set jms. jm_revision jm \<le> bc_revision c'" using assms(3) by auto
  with d assms(2) show ?thesis
    by (intro durableI [of json _ c' lines]) (simp_all add: disk_base_def journal_of_disk_def replayed_stale)
qed

lemma durable_compacted:
  assumes "decode_snapshot (snapshot_from_slice json) sb = Ok c'"
  shows "durable json [] (d\<lparr>disk_snapshot := Some sb, disk_journal := Some []\<rparr>) c'"
  using assms by (intro durableI [of json _ c' "[]" "[]" "[]"]) (simp_all add: disk_base_def journal_of_disk_def)

text \<open>
  Compaction, whether it fails or not, leaves a disk that holds the old checkpoint or the new one;
  when it succeeds, the new one.
\<close>

definition snapshot_line :: "Json \<Rightarrow> BrokerCheckpoint \<Rightarrow> bool" where
  "snapshot_line json c \<longleftrightarrow>
     (\<forall>b. encode_snapshot (snapshot_to_vec json) c = Ok b \<longrightarrow> decode_snapshot (snapshot_from_slice json) b = Ok c)"

lemma compact_durable:
  assumes "compact_repo json io s r = (res, r')" "durable json [] (repo_disk r) c"
    and "snapshot_line json (BrokerState_checkpoint s)" "bc_revision c \<le> st_revision s"
  shows "durable json [] (repo_disk r') (BrokerState_checkpoint s) \<or> isl res \<and> durable json [] (repo_disk r') c"
proof (cases "encode_snapshot (snapshot_to_vec json) (BrokerState_checkpoint s)")
  case (Inl e)
  with assms(1,2) show ?thesis by (auto simp: compact_repo_def)
next
  case (Inr sb)
  with assms(3) have dec: "decode_snapshot (snapshot_from_slice json) sb = Ok (BrokerState_checkpoint s)"
    by (simp add: snapshot_line_def)
  obtain w d where w: "write_snapshot_atomic (io_snapshot io) sb (repo_disk r) = (w, d)" by fastforce
  note replaced = durable_replaced [OF assms(2) dec]
  from w show ?thesis
  proof (cases rule: write_snapshot_cases)
    case untouched
    with assms(1,2) Inr w show ?thesis by (cases w) (auto simp: compact_repo_def)
  next
    case d: replaced
    show ?thesis
    proof (cases w)
      case (Inl e)
      with assms(1,4) Inr w d replaced show ?thesis by (auto simp: compact_repo_def BrokerState_checkpoint_def)
    next
      case ok: (Inr u)
      obtain t d' where t: "truncate_synced (io_truncate io) d = (t, d')" by fastforce
      then have "d' = d \<or> d' = d\<lparr>disk_journal := Some []\<rparr>" by (cases rule: truncate_cases) simp_all
      with assms(1,4) Inr w ok d t replaced durable_compacted [OF dec] show ?thesis
        by (cases t) (auto simp: compact_repo_def BrokerState_checkpoint_def)
    qed
  qed
qed

text \<open>
  One commit of the record \<open>jm\<close> that leads from the checkpoint on the disk to that of the new state: when
  it is acknowledged the disk holds the new checkpoint; when it fails, the old or the new one.
\<close>

lemma commit_durable:
  assumes "repo_commit json io s ch r = (res, r')" "durable json [] (repo_disk r) c"
    and "apply_journal_mutation c jm = Ok (True, BrokerState_checkpoint s)" "jm_revision jm = st_revision s"
    and "bc_revision c \<le> st_revision s" "snapshot_line json (BrokerState_checkpoint s)"
    and "\<And>payload. encode_journal_mutation (journal_to_vec json) s ch = Ok payload \<Longrightarrow> record_line json payload jm"
  shows "res = Ok () \<and> durable json [] (repo_disk r') (BrokerState_checkpoint s) \<or>
    isl res \<and> (\<exists>tail. durable json tail (repo_disk r') c \<or> durable json tail (repo_disk r') (BrokerState_checkpoint s))"
proof (cases "compaction_deferred r")
  case True
  obtain cr r1 where cr: "compact_repo json io s r = (cr, r1)" by fastforce
  from compact_durable [OF this assms(2,6,5)] True assms(1) cr show ?thesis
    by (cases cr) (auto simp: repo_commit_def)
next
  case False
  show ?thesis
  proof (cases "encode_journal_mutation (journal_to_vec json) s ch")
    case (Inl e)
    with False assms(1,2) show ?thesis by (auto simp: repo_commit_def)
  next
    case (Inr payload)
    note rec = assms(7) [OF Inr]
    have rev: "bc_revision c \<le> bc_revision (BrokerState_checkpoint s)" "jm_revision jm \<le> bc_revision (BrokerState_checkpoint s)"
      using assms(4,5) by (simp_all add: BrokerState_checkpoint_def)
    note app = durable_append [OF assms(2) rec assms(3) rev]
    obtain a d where a: "append_synced (io_append io) payload (repo_disk r) = (a, d)" by fastforce
    then show ?thesis
    proof (cases rule: append_synced_cases)
      case untouched
      with False Inr a assms(1,2) show ?thesis by (cases a) (auto simp: repo_commit_def)
    next
      case (torn n)
      have "durable json [] d (BrokerState_checkpoint s)" if "length payload \<le> n"
        using app torn(2,3) that by simp
      moreover have "durable json (take n payload) d c" if "n < length payload"
        using durable_torn [OF assms(2) rec that] torn(2,3) by simp
      ultimately have "\<exists>tail. durable json tail d c \<or> durable json tail d (BrokerState_checkpoint s)"
        by (metis not_less)
      with False Inr a torn(1) assms(1) show ?thesis by (cases a) (auto simp: repo_commit_def)
    next
      case appended
      note new = app [OF appended]
      have compacted: "durable json [] (repo_disk r2) (BrokerState_checkpoint s)"
        if "compact_repo json io s r1 = (cr, r2)" "repo_disk r1 = d" for r1 cr r2
        using compact_durable [OF that(1), of "BrokerState_checkpoint s"] that(2) new assms(6)
        by (auto simp: BrokerState_checkpoint_def)
      have "\<exists>tail. durable json tail d (BrokerState_checkpoint s)" using new by blast
      with False Inr a assms(1) new compacted show ?thesis
        by (auto simp: repo_commit_def Let_def split: sum.splits if_splits option.splits prod.splits)
    qed
  qed
qed

end
