(* ===== verification/Broker_Values.thy ===== *)
theory Broker_Values
  imports Journal
begin

text \<open>
  Every value the broker stores comes from a validated constructor: identifiers and texts are valid and
  capability sets are normalized.  Commands made of such values keep it so, and the checkpoint of such
  a broker can be written and read back.
\<close>

section \<open>Valid values\<close>

fun task_state_values :: "TaskState \<Rightarrow> bool" where
  "task_state_values (TaskState.Queued q) \<longleftrightarrow> True"
| "task_state_values (TaskState.Leased l) \<longleftrightarrow>
     ident (lease_str (leased_lease_id l)) \<and> ident (consumer_str (leased_owner_member_id l)) \<and> ident (group_str (leased_group_id l))"
| "task_state_values (TaskState.Completed d) \<longleftrightarrow>
     ident (lease_str (completed_lease_id d)) \<and> ident (consumer_str (completed_owner_member_id d)) \<and>
     ident (group_str (completed_group_id d)) \<and> valid_text MAX_RESULT_BYTES (completed_result d)"

definition tasks_valid :: "(TaskId, Task) fmap \<Rightarrow> bool" where
  "tasks_valid ts \<longleftrightarrow> (\<forall>tid t. fmlookup ts tid = Some t \<longrightarrow>
     ident (task_str tid) \<and> valid_text MAX_OBJECTIVE_BYTES (task_objective t) \<and> task_state_values (task_state t))"

definition group_valid :: "ConsumerGroup \<Rightarrow> bool" where
  "group_valid g \<longleftrightarrow> (\<forall>mid c. fmlookup (group_consumers g) mid = Some c \<longrightarrow>
     ident (consumer_str mid) \<and> normalized (consumer_capabilities c))"

definition groups_valid :: "group_registry \<Rightarrow> bool" where
  "groups_valid gs \<longleftrightarrow> (\<forall>gid g. fmlookup gs gid = Some g \<longrightarrow> ident (group_str gid) \<and> group_valid g)"

definition state_values :: "BrokerState \<Rightarrow> bool" where
  "state_values s \<longleftrightarrow> (\<forall>ns. ns |\<in>| fmdom (st_namespaces s) \<longrightarrow> ident (ns_str ns)) \<and>
     tasks_valid (st_tasks s) \<and> groups_valid (st_groups s)"

fun command_values :: "BrokerCommand \<Rightarrow> bool" where
  "command_values (EnsureNamespace c) \<longleftrightarrow> ident (ns_str (en_namespace_id c))"
| "command_values (PublishTask c) \<longleftrightarrow> ident (task_str (pt_task_id c)) \<and> valid_text MAX_OBJECTIVE_BYTES (pt_objective c)"
| "command_values (EnsureConsumerGroup c) \<longleftrightarrow> ident (group_str (eg_group_id c))"
| "command_values (JoinConsumerGroup c) \<longleftrightarrow> ident (consumer_str (jg_member_id c)) \<and> normalized (jg_capabilities c)"
| "command_values (ClaimTask c) \<longleftrightarrow> ident (lease_str (ct_lease_id c))"
| "command_values (CompleteTask c) \<longleftrightarrow> valid_text MAX_RESULT_BYTES (cm_result c)"
| "command_values _ \<longleftrightarrow> True"

section \<open>Preservation\<close>

lemma tasks_valid_upd [simp]:
  "tasks_valid ts \<Longrightarrow> ident (task_str tid) \<Longrightarrow> valid_text MAX_OBJECTIVE_BYTES (task_objective t) \<Longrightarrow>
   task_state_values (task_state t) \<Longrightarrow> tasks_valid (fmupd tid t ts)"
  by (simp add: tasks_valid_def)

lemma requeued_values [simp]:
  "task_objective (requeued t) = task_objective t"
  "task_state_values (task_state t) \<Longrightarrow> task_state_values (task_state (requeued t))"
  by (cases "task_state t"; simp add: requeued_def)+

lemma tasks_valid_requeue [simp]: "tasks_valid ts \<Longrightarrow> tasks_valid (requeue_set T ts)"
  unfolding tasks_valid_def by auto

lemma tasks_valid_filter [simp]: "tasks_valid ts \<Longrightarrow> tasks_valid (fmfilter P ts)"
  by (auto simp: tasks_valid_def split: if_splits)

lemma groups_valid_upd [simp]: "groups_valid gs \<Longrightarrow> ident (group_str gid) \<Longrightarrow> group_valid g \<Longrightarrow> groups_valid (fmupd gid g gs)"
  by (simp add: groups_valid_def)

lemma group_op_valid:
  assumes "groups_valid gs" "fmlookup gs gid = Some g" "group_valid g \<Longrightarrow> group_valid g'"
  shows "groups_valid (fmupd gid g' gs)"
  using assms by (simp add: groups_valid_def)

lemma join_valid:
  "ConsumerGroup_join g mid caps now n = Ok (oc, g') \<Longrightarrow> ident (consumer_str mid) \<Longrightarrow> normalized caps \<Longrightarrow>
   group_valid g \<Longrightarrow> group_valid g'"
  by (auto simp: ConsumerGroup_join_def group_valid_def try_r_Ok Let_def Consumer_new_def split: option.splits if_splits)

lemma heartbeat_valid:
  "ConsumerGroup_heartbeat g mid gen now = Ok (oc, g') \<Longrightarrow> group_valid g \<Longrightarrow> group_valid g'"
  by (auto simp: ConsumerGroup_heartbeat_def group_valid_def try_r_Ok Let_def split: option.splits if_splits)

lemma leave_valid:
  "ConsumerGroup_leave g mid gen = Ok (mem, g') \<Longrightarrow> group_valid g \<Longrightarrow> group_valid g'"
  by (auto simp: ConsumerGroup_leave_def group_valid_def try_r_Ok Let_def split: option.splits if_splits)

lemma reaped_valid: "groups_valid gs \<Longrightarrow> groups_valid (reaped_groups cs gs)"
  by (auto simp: groups_valid_def group_valid_def reaped_groups_def shrink_def split: if_splits)

lemma member_valid:
  assumes "state_values s" "fmlookup (st_groups s) gid = Some g" "mid \<in> members g"
  shows "ident (group_str gid)" "ident (consumer_str mid)"
  using assms by (auto simp: state_values_def groups_valid_def group_valid_def fmlookup_dom_iff)

lemma stored_task:
  assumes "state_values s" "fmlookup (st_tasks s) tid = Some t"
  shows "ident (task_str tid)" "valid_text MAX_OBJECTIVE_BYTES (task_objective t)" "task_state_values (task_state t)"
  using assms by (auto simp: state_values_def tasks_valid_def)

lemma state_values_tasks:
  "state_values s \<Longrightarrow> tasks_valid ts \<Longrightarrow> state_values (s\<lparr>st_tasks := ts, st_revision := r\<rparr>)"
  "state_values s \<Longrightarrow> tasks_valid ts \<Longrightarrow> state_values (s\<lparr>st_tasks := ts\<rparr>)"
  by (simp_all add: state_values_def)

lemma claim_values:
  assumes "claim_task c m = (r, m')" "broker_inv m" "state_values (sm_state m)" "ident (lease_str (ct_lease_id c))"
  shows "state_values (sm_state m')"
  using assms(1,2)
proof (cases rule: claim_task_cases)
  case (new g)
  then have g: "fmlookup (the_groups m) (ct_group_id c) = Some g" "group_generation g = ct_expected_generation c"
    "ct_member_id c \<in> members g" by (simp_all add: authorised_def)
  have ts: "tasks_valid (the_tasks m)" using assms(3) by (simp add: state_values_def)
  from new(3) assms(2) new(2) g refl show ?thesis
  proof (cases rule: claim_new_cases)
    case (granted T m1 created tid h t q expires rv e trev t')
    have "tasks_valid (requeue_set T (the_tasks m))" using ts by simp
    then have "tasks_valid (fmupd tid t' (requeue_set T (the_tasks m)))"
      using granted(7,8,11) assms(4) member_valid [OF assms(3) g(1,3)]
      by (intro tasks_valid_upd) (auto simp: tasks_valid_def claimed_def)
    with granted(12) assms(3) show ?thesis by (simp add: state_values_tasks)
  qed (use assms(3) ts in \<open>simp_all add: state_values_tasks\<close>)
qed (use assms(3) in simp_all)

lemma active_lease_state: "require_active_lease t f = Ok l \<Longrightarrow> task_state t = TaskState.Leased l"
  by (auto simp: require_active_lease_def try_r_Ok split: TaskState.splits if_splits)

lemma renew_values:
  assumes "renew_task_lease c m = (r, m')" "broker_inv m" "state_values (sm_state m)"
  shows "state_values (sm_state m')"
  using assms(1,2)
proof (cases rule: renew_task_lease_cases)
  case (renewed g t l expires rv trev t')
  note t = stored_task [OF assms(3) renewed(4)] and l = active_lease_state [OF renewed(5)]
  have "tasks_valid (fmupd (rl_task_id c) t' (the_tasks m))"
    using t l renewed(7) assms(3) by (intro tasks_valid_upd) (simp_all add: state_values_def)
  with renewed(8) assms(3) show ?thesis by (simp add: state_values_tasks)
qed (use assms(3) in simp)

lemma complete_values:
  assumes "complete_task c m = (r, m')" "broker_inv m" "state_values (sm_state m)" "valid_text MAX_RESULT_BYTES (cm_result c)"
  shows "state_values (sm_state m')"
  using assms(1,2)
proof (cases rule: complete_task_cases)
  case (completed g t l rv trev t')
  note t = stored_task [OF assms(3) completed(3)] and l = active_lease_state [OF completed(4)]
  have "tasks_valid (fmupd (cm_task_id c) t' (the_tasks m))"
    using t l completed(6) assms(3,4) by (intro tasks_valid_upd) (simp_all add: state_values_def completed_by_def)
  with completed(7) assms(3) show ?thesis by (simp add: state_values_tasks)
qed (use assms(3) in simp_all)

lemma group_command_values:
  assumes "broker_inv m" "state_values (sm_state m)"
  shows "ident (consumer_str (jg_member_id j)) \<Longrightarrow> normalized (jg_capabilities j) \<Longrightarrow>
      state_values (sm_state (snd (join_consumer_group j m)))"
    and "state_values (sm_state (snd (heartbeat h m)))"
    and "state_values (sm_state (snd (leave_consumer_group l m)))"
    and "state_values (sm_state (snd (reap_stale_members r m)))"
proof -
  have gs: "groups_valid (the_groups m)" "tasks_valid (the_tasks m)" using assms(2) by (simp_all add: state_values_def)
  note [simp] = Let_def
  show "state_values (sm_state (snd (join_consumer_group j m)))"
    if "ident (consumer_str (jg_member_id j))" "normalized (jg_capabilities j)"
    by (rule join_consumer_group_cases [OF surjective_pairing [of "join_consumer_group j m"]])
      (use assms(2) that gs in \<open>auto simp: state_values_def intro: group_op_valid join_valid\<close>)
  show "state_values (sm_state (snd (heartbeat h m)))"
    by (rule heartbeat_cases [OF surjective_pairing [of "heartbeat h m"]])
      (use assms(2) gs in \<open>auto simp: state_values_def intro: group_op_valid heartbeat_valid\<close>)
  show "state_values (sm_state (snd (leave_consumer_group l m)))"
    by (rule leave_consumer_group_cases [OF surjective_pairing [of "leave_consumer_group l m"] assms(1)])
      (use assms(2) gs in \<open>auto simp: state_values_def intro: group_op_valid leave_valid\<close>)
  show "state_values (sm_state (snd (reap_stale_members r m)))"
    by (rule reap_stale_members_cases [OF surjective_pairing [of "reap_stale_members r m"] assms(1)])
      (use assms(2) gs reaped_valid in \<open>auto simp: state_values_def\<close>)
qed

lemma entity_command_values:
  assumes "broker_inv m" "state_values (sm_state m)"
  shows "ident (ns_str (en_namespace_id n)) \<Longrightarrow> state_values (sm_state (snd (ensure_namespace n m)))"
    and "ident (task_str (pt_task_id p)) \<Longrightarrow> valid_text MAX_OBJECTIVE_BYTES (pt_objective p) \<Longrightarrow>
      state_values (sm_state (snd (publish_task p m)))"
    and "ident (group_str (eg_group_id g)) \<Longrightarrow> state_values (sm_state (snd (ensure_consumer_group g m)))"
    and "state_values (sm_state (snd (prune_completed_tasks q m)))"
    and "state_values (sm_state (snd (advance_term a m)))"
proof -
  show "state_values (sm_state (snd (ensure_namespace n m)))" if "ident (ns_str (en_namespace_id n))"
    by (rule ensure_namespace_cases [OF surjective_pairing [of "ensure_namespace n m"]]) (use assms(2) that in \<open>auto simp: state_values_def\<close>)
  show "state_values (sm_state (snd (publish_task p m)))"
    if "ident (task_str (pt_task_id p))" "valid_text MAX_OBJECTIVE_BYTES (pt_objective p)"
    by (rule publish_task_cases [OF surjective_pairing [of "publish_task p m"]])
      (use assms(2) that in \<open>auto simp: state_values_def Task_new_def push_ready_def\<close>)
  show "state_values (sm_state (snd (ensure_consumer_group g m)))" if "ident (group_str (eg_group_id g))"
    by (rule ensure_consumer_group_cases [OF surjective_pairing [of "ensure_consumer_group g m"]])
      (use assms(2) that in \<open>auto simp: state_values_def ConsumerGroup_new_def group_valid_def\<close>)
  show "state_values (sm_state (snd (prune_completed_tasks q m)))"
    by (rule prune_completed_tasks_cases [OF surjective_pairing [of "prune_completed_tasks q m"] assms(1)]) (use assms(2) in \<open>auto simp: state_values_def\<close>)
  show "state_values (sm_state (snd (advance_term a m)))"
    by (rule advance_term_cases [OF surjective_pairing [of "advance_term a m"] assms(1)]) (use assms(2) in \<open>auto simp: state_values_def\<close>)
qed

lemma broker_apply_values:
  assumes "broker_inv m" "state_values (sm_state m)" "command_values c"
  shows "state_values (sm_state (snd (broker_apply c m)))"
proof -
  have m: "broker_inv (clear_changes m)" "state_values (sm_state (clear_changes m))"
    using assms by simp_all
  show ?thesis
    using assms(3) group_command_values [OF m] entity_command_values [OF m] claim_values [OF surjective_pairing m]
      renew_values [OF surjective_pairing m] complete_values [OF surjective_pairing m]
    by (cases c) (simp_all add: broker_apply_def)
qed

section \<open>Checkpoints of valid states\<close>

lemma task_checkpoint_values: "task_state_values (task_state t) \<Longrightarrow> task_state_values_ok (tc_state (Task_checkpoint t))"
  by (cases "task_state t") (simp_all add: Task_checkpoint_def)

lemma exported_values_ok:
  assumes "entities_wf s" "state_values s"
  shows "checkpoint_values_ok (BrokerState_checkpoint s)"
proof -
  have ns: "ident (ns_str (task_namespace_id t))" if "fmlookup (st_tasks s) tid = Some t" for tid t
    using that assms by (auto simp: entities_wf_def state_values_def)
  have nsg: "ident (ns_str (group_namespace_id g))" if "fmlookup (st_groups s) gid = Some g" for gid g
    using that assms by (auto simp: entities_wf_def state_values_def)
  have "task_values_ok (Task_checkpoint t)" if "t \<in> set (fm_values (st_tasks s))" for t
  proof -
    from that obtain tid where t: "fmlookup (st_tasks s) tid = Some t" by (auto simp: in_fm_values)
    with assms(1) have "task_id t = tid" "task_revision t \<noteq> 0" by (auto simp: entities_wf_def)
    with stored_task [OF assms(2) t] ns [OF t] task_checkpoint_values show ?thesis
      by (simp add: task_values_ok_def Task_checkpoint_def)
  qed
  moreover have "group_values_ok (ConsumerGroup_checkpoint g)" if "g \<in> set (fm_values (st_groups s))" for g
  proof -
    from that obtain gid where g: "fmlookup (st_groups s) gid = Some g" by (auto simp: in_fm_values)
    with assms(1) have "group_id g = gid" "group_wf g" by (auto simp: entities_wf_def)
    moreover have "ident (group_str gid)" "group_valid g" using assms(2) g by (auto simp: state_values_def groups_valid_def)
    ultimately show ?thesis
      using nsg [OF g]
      by (auto simp: group_values_ok_def ConsumerGroup_checkpoint_def group_wf_def group_valid_def list_all_iff in_fm_values
        member_values_ok_def Consumer_checkpoint_def)
  qed
  moreover have "namespace_values_ok (Namespace_checkpoint n)" if "n \<in> set (fm_values (st_namespaces s))" for n
    using that assms by (auto simp: in_fm_values entities_wf_def state_values_def namespace_values_ok_def Namespace_checkpoint_def
      fmlookup_dom_iff)
  ultimately show ?thesis
    using assms(1) by (simp add: checkpoint_values_ok_def BrokerState_checkpoint_def list_all_iff entities_wf_def)
qed

section \<open>Properties\<close>

definition valid_step :: "BrokerCommand \<Rightarrow> BrokerStateMachine \<Rightarrow> BrokerStateMachine \<Rightarrow> bool" where
  "valid_step c m m' \<longleftrightarrow> broker_step c m m' \<and> command_values c"

interpretation bv: invariant_of broker_init valid_step "\<lambda>m. broker_inv m \<and> state_values (sm_state m)"
proof unfold_locales
  show "broker_inv m \<and> state_values (sm_state m)" if "broker_init m" for m
    using that by (simp add: broker_init_def default_inv)
      (simp add: state_values_def tasks_valid_def groups_valid_def BrokerStateMachine_default_def BrokerState_default_def)
  show "broker_inv m' \<and> state_values (sm_state m')" if "valid_step c m m'" "broker_inv m \<and> state_values (sm_state m)" for c m m'
    using that broker_apply_values [of m c] bk.step_inv [of c m m'] by (auto simp: valid_step_def broker_step_def)
qed

text \<open>
  C33: Every value is valid.  Commands built from validated identifiers, texts and capability sets leave
  a broker in which every identifier and text is again valid and every capability set normalized, so
  that its checkpoint contains only values that the constructors of the domain accept.
\<close>

theorem stored_values_are_valid:
  assumes "reach broker_init valid_step m"
  shows "checkpoint_values_ok (BrokerState_checkpoint (sm_state m))"
  using bv.reach_inv [OF assms] exported_values_ok by (simp add: inv_ex_def)

lemma valid_reach_run:
  "reach broker_init valid_step m \<Longrightarrow> list_all command_values cs \<Longrightarrow> reach broker_init valid_step (run_commands cs m)"
proof (induction cs arbitrary: m)
  case (Cons c cs)
  have "reach broker_init valid_step (snd (broker_apply c m))"
    by (rule reach.step [OF Cons.prems(1), of c]) (use Cons.prems(2) in \<open>simp add: valid_step_def broker_step_def\<close>)
  from Cons.IH [OF this] Cons.prems(2) show ?case by (simp add: run_commands_def)
qed (simp add: run_commands_def)

lemma valid_reach_scenario: "reach broker_init valid_step leased_broker"
proof -
  have "reach broker_init valid_step (run_commands ([ensure_ns1, publish1, publish2, ensure_gid1, join1] @ [ClaimTask claim1_command])
      BrokerStateMachine_default)"
    by (rule valid_reach_run)
      (simp_all add: reach.start broker_init_def eval_scenario is_ascii_alphanumeric_def valid_text_def MAX_OBJECTIVE_BYTES_def
        is_blank_def white_space_1_def white_space_2_def white_space_3_def normalized_def)
  then show ?thesis by (simp add: leased_broker_def ready_broker_def run_commands_def)
qed

theorem stored_values_are_valid_witness:
  "checkpoint_values_ok (BrokerState_checkpoint (sm_state leased_broker))"
  by (rule stored_values_are_valid) (rule valid_reach_scenario)

text \<open>
  C34: Snapshots round trip.  Provided the JSON library reads back what it writes, the snapshot of a broker
  that valid commands have produced is decoded to exactly the checkpoint that was encoded.
\<close>

theorem snapshot_round_trips:
  assumes "reach broker_init valid_step m" "\<And>w b. to_vec w = Ok b \<Longrightarrow> from_slice b = Ok w"
    and "encode_snapshot to_vec (BrokerState_checkpoint (sm_state m)) = Ok bs"
  shows "decode_snapshot from_slice bs = Ok (BrokerState_checkpoint (sm_state m))"
proof -
  let ?c = "BrokerState_checkpoint (sm_state m)"
  from bv.reach_inv [OF assms(1)] have inv: "broker_inv m" "state_values (sm_state m)" by simp_all
  then have wf: "entities_wf (sm_state m)" by (simp add: inv_ex_def)
  from assms(3) have "to_vec (checkpoint_to_wire ?c) = Ok bs" by (auto simp: encode_snapshot_def)
  with snapshot_round [of ?c to_vec bs from_slice] exported_values_ok [OF wf inv(2)] exported_sorted [OF wf]
    exported_checkpoint_ok [OF inv(1)] assms(2) show ?thesis by blast
qed

theorem snapshot_round_trips_witness:
  "\<exists>bs. encode_snapshot (\<lambda>w. if w = checkpoint_to_wire (BrokerState_checkpoint (sm_state leased_broker)) then Ok ''{}'' else Err ''x'')
      (BrokerState_checkpoint (sm_state leased_broker)) = Ok bs \<and>
    decode_snapshot (\<lambda>b. Ok (checkpoint_to_wire (BrokerState_checkpoint (sm_state leased_broker)))) bs =
      Ok (BrokerState_checkpoint (sm_state leased_broker))"
proof -
  let ?c = "BrokerState_checkpoint (sm_state leased_broker)"
  let ?to = "\<lambda>w. if w = checkpoint_to_wire ?c then Ok ''{}'' else Err ''x''"
  have enc: "encode_snapshot ?to ?c = Ok ''{}''" by (simp add: encode_snapshot_def)
  have "decode_snapshot (\<lambda>b. Ok (checkpoint_to_wire ?c)) ''{}'' = Ok ?c"
    by (rule snapshot_round_trips [OF valid_reach_scenario _ enc]) (simp split: if_splits)
  with enc show ?thesis by blast
qed

end
