(* ===== verification/Broker_Determinism.thy ===== *)
theory Broker_Determinism
  imports Recovery
begin

text \<open>
  The answers of a broker depend on its authoritative state alone.  Two machines with the same state,
  whose heaps may hold different leftovers, give the same answer to every command and move to the
  same state; so a broker restored from a checkpoint continues as the broker that wrote it.
\<close>

section \<open>Agreement\<close>

text \<open>Machines that agree on everything but the two heaps and the representation of the counters.\<close>

definition agrees :: "BrokerStateMachine \<Rightarrow> BrokerStateMachine \<Rightarrow> bool" where
  "agrees m n \<longleftrightarrow> sm_state m = sm_state n \<and> active_lease_tasks m = active_lease_tasks n \<and>
     member_lease_tasks m = member_lease_tasks n \<and> completed_tasks m = completed_tasks n \<and> changes m = changes n \<and>
     fm_get 0 (namespace_task_counts m) = fm_get 0 (namespace_task_counts n) \<and>
     fm_get 0 (namespace_group_counts m) = fm_get 0 (namespace_group_counts n)"

definition same_h :: "'a handled \<Rightarrow> 'a handled \<Rightarrow> bool" where
  "same_h h k \<longleftrightarrow> fst h = fst k \<and> agrees (snd h) (snd k)"

lemma fm_get_fun_upd [simp]: "fm_get d (fmupd k v f) = (fm_get d f)(k := v)"
  by (rule ext) simp

lemma agrees_fields:
  assumes "agrees m n"
  shows "sm_state n = sm_state m" "active_lease_tasks n = active_lease_tasks m" "member_lease_tasks n = member_lease_tasks m"
    "completed_tasks n = completed_tasks m" "changed_namespaces n = changed_namespaces m" "changed_tasks n = changed_tasks m"
    "deleted_tasks n = deleted_tasks m" "changed_groups n = changed_groups m"
    "fm_get 0 (namespace_task_counts n) = fm_get 0 (namespace_task_counts m)"
    "fm_get 0 (namespace_group_counts n) = fm_get 0 (namespace_group_counts m)"
  using assms by (simp_all add: agrees_def changes_def)

lemma agrees_views:
  assumes "agrees m n"
  shows "metadata n = metadata m" "require_term n = require_term m" "require_group_member n = require_group_member m"
    "require_namespace n = require_namespace m" "empty_claim_result n = empty_claim_result m"
    "task_claim_result n = task_claim_result m" "lease_identity n = lease_identity m"
    "member_lease_identity n = member_lease_identity m" "take_changes n = take_changes m"
  using agrees_fields [OF assms]
  by (auto simp: fun_eq_iff metadata_def require_term_def require_group_member_def require_namespace_def empty_claim_result_def
      task_claim_result_def lease_identity_def member_lease_identity_def take_changes_def split: option.split TaskState.split)

lemma same_h_Ok [simp]: "same_h (r, m) (r', n) \<longleftrightarrow> r = r' \<and> agrees m n"
  by (simp add: same_h_def)

lemma same_check:
  assumes "r = r'" "agrees m n" "\<And>x. r = Ok x \<Longrightarrow> same_h (f x) (g x)"
  shows "same_h (check_r r m f) (check_r r' n g)"
  using assms by (cases r) auto

lemma same_seq:
  assumes "same_h h k" "\<And>x m n. h = (Ok x, m) \<Longrightarrow> k = (Ok x, n) \<Longrightarrow> agrees m n \<Longrightarrow> same_h (f x m) (g x n)"
  shows "same_h (seq_r h f) (seq_r k g)"
  using assms by (cases h; cases k; cases "fst h") auto

lemma agrees_updates:
  assumes "agrees m n"
  shows "agrees (sm_state_update f m) (sm_state_update f n)"
    "agrees (m\<lparr>active_lease_tasks := a\<rparr>) (n\<lparr>active_lease_tasks := a\<rparr>)"
    "agrees (m\<lparr>member_lease_tasks := b\<rparr>) (n\<lparr>member_lease_tasks := b\<rparr>)"
    "agrees (m\<lparr>completed_tasks := h\<rparr>) (n\<lparr>completed_tasks := h\<rparr>)"
    "agrees (changed_namespaces_update gn m) (changed_namespaces_update gn n)"
    "agrees (changed_tasks_update gt m) (changed_tasks_update gt n)"
    "agrees (deleted_tasks_update gt m) (deleted_tasks_update gt n)"
    "agrees (changed_groups_update gg m) (changed_groups_update gg n)"
    "agrees (push_ready ns c tid m) (push_ready ns' c' tid' n)"
    "agrees (push_expiration ns x tid e m) (push_expiration ns' x' tid' e' n)"
    "agrees (remove_member_lease_task gid mid tid m) (remove_member_lease_task gid mid tid n)"
    "agrees (insert_member_lease gid mid tid m) (insert_member_lease gid mid tid n)"
    "agrees (clear_changes m) (clear_changes n)"
    "agrees (m\<lparr>lease_expirations := l\<rparr>) (n\<lparr>lease_expirations := l'\<rparr>)"
    "agrees (m\<lparr>ready_tasks := q\<rparr>) (n\<lparr>ready_tasks := q'\<rparr>)"
  using assms agrees_fields [OF assms]
  by (auto simp: agrees_def changes_def push_ready_def push_expiration_def remove_member_lease_task_def insert_member_lease_def
      clear_changes_def Let_def split: option.split)

lemma agrees_refl [simp]: "agrees m m"
  by (simp add: agrees_def)

section \<open>Handlers\<close>

lemma same_ensure_namespace:
  assumes "agrees m n"
  shows "same_h (ensure_namespace c m) (ensure_namespace c n)"
  unfolding ensure_namespace_def agrees_fields [OF assms] agrees_views [OF assms]
  by (auto simp: Let_def agrees_def changes_def metadata_def agrees_fields [OF assms] assms intro!: same_check split: option.split)

lemma same_publish_task:
  assumes "agrees m n"
  shows "same_h (publish_task c m) (publish_task c n)"
  unfolding publish_task_def agrees_fields [OF assms] agrees_views [OF assms]
  by (auto simp: Let_def agrees_def changes_def metadata_def push_ready_def agrees_fields [OF assms] assms
      intro!: same_check split: option.split)

lemma same_ensure_consumer_group:
  assumes "agrees m n"
  shows "same_h (ensure_consumer_group c m) (ensure_consumer_group c n)"
  unfolding ensure_consumer_group_def agrees_fields [OF assms] agrees_views [OF assms]
  by (auto simp: Let_def agrees_def changes_def metadata_def agrees_fields [OF assms] assms intro!: same_check split: option.split)

lemma same_join_consumer_group:
  assumes "agrees m n"
  shows "same_h (join_consumer_group c m) (join_consumer_group c n)"
  unfolding join_consumer_group_def agrees_fields [OF assms] agrees_views [OF assms]
  by (auto simp: Let_def agrees_def changes_def metadata_def agrees_fields [OF assms] assms intro!: same_check)

lemma same_heartbeat:
  assumes "agrees m n"
  shows "same_h (heartbeat c m) (heartbeat c n)"
  unfolding heartbeat_def agrees_fields [OF assms] agrees_views [OF assms]
  by (auto simp: Let_def agrees_def changes_def metadata_def agrees_fields [OF assms] assms intro!: same_check)

lemma same_advance_term:
  assumes "agrees m n"
  shows "same_h (advance_term c m) (advance_term c n)"
  unfolding advance_term_def agrees_fields [OF assms] agrees_views [OF assms]
  by (auto simp: Let_def agrees_def changes_def metadata_def agrees_fields [OF assms] assms intro!: same_check)

lemma same_renew_task_lease:
  assumes "agrees m n"
  shows "same_h (renew_task_lease c m) (renew_task_lease c n)"
  unfolding renew_task_lease_def agrees_fields [OF assms] agrees_views [OF assms]
  by (auto simp: Let_def agrees_def changes_def metadata_def push_expiration_def agrees_fields [OF assms] assms
      intro!: same_check split: TaskState.split)

lemma same_complete_task:
  assumes "agrees m n"
  shows "same_h (complete_task c m) (complete_task c n)"
  unfolding complete_task_def agrees_fields [OF assms] agrees_views [OF assms]
  by (auto simp: Let_def agrees_def changes_def metadata_def remove_member_lease_task_def agrees_fields [OF assms] assms
      intro!: same_check split: option.split)

lemma same_preflight:
  assumes "agrees m n"
  shows "preflight_member_lease_requeue n = preflight_member_lease_requeue m"
proof -
  have "preflight_tasks n gid mid tids = preflight_tasks m gid mid tids" for gid mid tids
    by (induction tids) (auto simp: agrees_fields [OF assms] split: option.split TaskState.split)
  then show ?thesis
    by (simp add: fun_eq_iff preflight_member_lease_requeue_def agrees_fields [OF assms] split: option.split)
qed

lemma same_requeue_loop: "agrees m n \<Longrightarrow> same_h (requeue_loop gid mid tids k m) (requeue_loop gid mid tids k n)"
proof (induction tids arbitrary: k m n)
  case (Cons tid tids)
  note f = agrees_fields [OF Cons.prems] and v = agrees_views [OF Cons.prems]
  show ?case
    unfolding requeue_loop.simps f v
    by (auto simp: Cons.IH Cons.prems Let_def f agrees_updates intro!: same_check Cons.IH split: option.split)
qed simp

lemma same_requeue_member_leases:
  assumes "agrees m n"
  shows "same_h (requeue_member_leases gid mid m) (requeue_member_leases gid mid n)"
  unfolding requeue_member_leases_def agrees_fields [OF assms]
  by (intro same_requeue_loop agrees_updates assms)

lemma same_leave_consumer_group:
  assumes "agrees m n"
  shows "same_h (leave_consumer_group c m) (leave_consumer_group c n)"
  unfolding leave_consumer_group_def agrees_fields [OF assms] agrees_views [OF assms] same_preflight [OF assms]
  by (auto simp: Let_def agrees_updates assms agrees_views agrees_fields(1) metadata_def
      intro!: same_check same_seq same_requeue_member_leases)

lemma same_requeue_removed: "agrees m n \<Longrightarrow> same_h (requeue_removed gid cs m) (requeue_removed gid cs n)"
  by (induction cs arbitrary: m n) (auto intro!: same_seq same_requeue_member_leases)

lemma same_reap_loop:
  "agrees m n \<Longrightarrow> same_h (reap_loop before sel reaped affected m) (reap_loop before sel reaped affected n)"
proof (induction sel arbitrary: reaped affected m n)
  case (Cons p sel)
  obtain gid mids where p: "p = (gid, mids)" by (cases p)
  note f = agrees_fields [OF Cons.prems]
  show ?case
    unfolding p reap_loop.simps f
    by (auto simp: Cons.prems Let_def agrees_updates intro!: same_check same_seq same_requeue_removed Cons.IH)
qed simp

lemma same_preflight_groups:
  assumes "agrees m n"
  shows "preflight_groups n = preflight_groups m"
proof -
  have "preflight_members n gid mids = preflight_members m gid mids" for gid mids
    by (induction mids) (simp_all add: same_preflight [OF assms])
  then have "preflight_groups n gs = preflight_groups m gs" for gs
  proof (induction gs)
    case (Cons p gs)
    then show ?case by (cases p) (simp add: agrees_fields [OF assms])
  qed simp
  then show ?thesis by (rule ext)
qed

lemma same_reap_stale_members:
  assumes "agrees m n"
  shows "same_h (reap_stale_members c m) (reap_stale_members c n)"
  unfolding reap_stale_members_def agrees_fields [OF assms] agrees_views [OF assms] same_preflight_groups [OF assms]
  by (auto simp: Let_def agrees_updates assms metadata_def agrees_fields(1)
      intro!: same_check same_seq same_reap_loop)

text \<open>A task that is counted has a counter, so the loop that prunes does not meet an absent one.\<close>

lemma counted:
  assumes "task_counts ts counts" "ns_of ts tid = Some ns"
  obtains k where "fmlookup counts ns = Some (Suc k)" "fm_get 0 counts ns = Suc k"
    "task_counts (fmdrop tid ts) (fmupd ns k counts)"
proof -
  have "fm_get 0 counts ns = Suc (card {x. ns_of (fmdrop tid ts) x = Some ns})"
    using assms card_in_ns_drop [of ts tid ns] by (simp add: task_counts_def)
  moreover from this have "fmlookup counts ns = Some (Suc (card {x. ns_of (fmdrop tid ts) x = Some ns}))"
    by (auto simp: fm_get_def split: option.splits)
  moreover have "{x. ns_of (fmdrop tid ts) x = Some k} = {x. ns_of ts x = Some k}" if "k \<noteq> ns" for k
    using assms(2) that by auto
  then have "task_counts (fmdrop tid ts) (fmupd ns (card {x. ns_of (fmdrop tid ts) x = Some ns}) counts)"
    using assms(1) by (auto simp: task_counts_def)
  ultimately show thesis by (intro that)
qed

lemma completed_namespace_ns: "completed_namespace ts at tid = Some ns \<Longrightarrow> ns_of ts tid = Some ns"
  by (auto simp: completed_namespace_def look_def split: option.splits TaskState.splits if_splits)

lemma prune_step:
  assumes "completed_tasks m = (at, tid) # h" "k < target"
  shows "before < at \<Longrightarrow> prune_loop before target k m = (Ok k, m\<lparr>completed_tasks := heap_push (at, tid) h\<rparr>)"
    and "\<not> before < at \<Longrightarrow> completed_namespace (the_tasks m) at tid = None \<Longrightarrow>
      prune_loop before target k m = prune_loop before target k (m\<lparr>completed_tasks := h\<rparr>)"
    and "\<not> before < at \<Longrightarrow> completed_namespace (the_tasks m) at tid = Some ns \<Longrightarrow>
      fmlookup (namespace_task_counts m) ns = Some (Suc j) \<Longrightarrow>
      prune_loop before target k m = prune_loop before target (k + 1)
        ((sm_state_update (st_tasks_update (fmdrop tid)) (m\<lparr>completed_tasks := h\<rparr>))
          \<lparr>namespace_task_counts := fmupd ns j (namespace_task_counts m), deleted_tasks := finsert tid (deleted_tasks m)\<rparr>)"
  using assms by (subst prune_loop.simps, simp)+

lemma prune_stop: "\<not> k < target \<or> completed_tasks m = [] \<Longrightarrow> prune_loop before target k m = (Ok k, m)"
  by (subst prune_loop.simps) auto

lemma same_prune_loop:
  assumes "agrees m n" "task_counts (the_tasks m) (namespace_task_counts m)"
  shows "same_h (prune_loop before target k m) (prune_loop before target k n)"
  using assms
proof (induction "completed_tasks m" arbitrary: k m n)
  case Nil
  with agrees_fields(4) [OF Nil(2)] show ?case by (simp add: prune_stop)
next
  case (Cons p h)
  obtain at tid where p: "p = (at, tid)" by (cases p)
  note f = agrees_fields [OF Cons.prems(1)]
  have tn: "task_counts (the_tasks m) (namespace_task_counts n)" using Cons.prems(2) f(9) by (simp add: task_counts_def)
  have h: "completed_tasks m = (at, tid) # h" "completed_tasks n = (at, tid) # h" using Cons.hyps(2) p f(4) by simp_all
  consider "\<not> k < target" | "k < target" "before < at"
    | "k < target" "\<not> before < at" "completed_namespace (the_tasks m) at tid = None"
    | ns where "k < target" "\<not> before < at" "completed_namespace (the_tasks m) at tid = Some ns" by fastforce
  then show ?case
  proof cases
    case 1
    with Cons.prems(1) show ?thesis by (simp add: prune_stop)
  next
    case 2
    with Cons.prems(1) show ?thesis by (simp add: prune_step(1) [OF h(1) 2] prune_step(1) [OF h(2) 2] agrees_updates)
  next
    case 3
    then have "completed_namespace (the_tasks n) at tid = None" by (simp add: f)
    with 3 Cons.hyps(1) [of "m\<lparr>completed_tasks := h\<rparr>" "n\<lparr>completed_tasks := h\<rparr>" k] Cons.prems show ?thesis
      by (simp add: prune_step(2) [OF h(1) 3] prune_step(2) [OF h(2)] agrees_updates)
  next
    case (4 ns)
    note ns = completed_namespace_ns [OF 4(3)]
    obtain j where j: "fmlookup (namespace_task_counts m) ns = Some (Suc j)"
      "task_counts (fmdrop tid (the_tasks m)) (fmupd ns j (namespace_task_counts m))"
      by (rule counted [OF Cons.prems(2) ns]) blast
    obtain j' where j': "fmlookup (namespace_task_counts n) ns = Some (Suc j')"
      by (rule counted [OF tn ns]) blast
    have "j' = j" using fun_cong [OF f(9), of ns] j(1) j' by (simp add: fm_get_def)
    let ?upd = "\<lambda>m. (sm_state_update (st_tasks_update (fmdrop tid)) (m\<lparr>completed_tasks := h\<rparr>))
      \<lparr>namespace_task_counts := fmupd ns j (namespace_task_counts m), deleted_tasks := finsert tid (deleted_tasks m)\<rparr>"
    have "agrees (?upd m) (?upd n)" using f by (simp add: agrees_def changes_def)
    then have "same_h (prune_loop before target (k + 1) (?upd m)) (prune_loop before target (k + 1) (?upd n))"
      using j(2) by (intro Cons.hyps(1)) simp_all
    moreover have "completed_namespace (the_tasks n) at tid = Some ns" using 4(3) by (simp add: f)
    ultimately show ?thesis
      using prune_step(3) [OF h(1) 4 j(1)] prune_step(3) [OF h(2) 4(1,2) _ j'] \<open>j' = j\<close> by simp
  qed
qed

lemma same_prune_completed_tasks:
  assumes "agrees m n" "task_counts (the_tasks m) (namespace_task_counts m)"
  shows "same_h (prune_completed_tasks c m) (prune_completed_tasks c n)"
proof -
  have "check_counts (namespace_task_counts n) rest = check_counts (namespace_task_counts m) rest" for rest
  proof (induction rest)
    case (Cons p rest)
    then show ?case by (cases p) (simp add: agrees_fields [OF assms(1)])
  qed simp
  then show ?thesis
    unfolding prune_completed_tasks_def agrees_fields [OF assms(1)] agrees_views [OF assms(1)]
    by (auto simp: Let_def agrees_updates assms metadata_def agrees_fields(1) intro!: same_check same_seq same_prune_loop)
qed

section \<open>Claims\<close>

lemma recover_candidates:
  assumes "broker_inv m"
  obtains T E where "fset T = expired_in m ns now"
    "recover_expired_leases ns now m = recover_loop ns now (sorted_list_of_fset T) 0 (m\<lparr>lease_expirations := E\<rparr>)"
proof (cases "fmlookup (lease_expirations m) ns")
  case None
  then have "recover_expired_leases ns now m = recover_loop ns now (sorted_list_of_fset {||}) 0 (m\<lparr>lease_expirations := lease_expirations m\<rparr>)"
    by (simp add: recover_expired_leases_def)
  moreover have "expired_in m ns now = {}" using None by (simp add: expired_in_def fm_get_def)
  ultimately show thesis by (intro that [of "{||}" "lease_expirations m"]) simp_all
next
  case (Some heap)
  then have "sorted heap" using assms by (auto simp: inv_ex_def fm_get_def dest!: spec [of _ ns])
  obtain T heap' where c: "expired_candidates (the_tasks m) now heap {||} = (T, heap')" by fastforce
  from expired_candidates_spec [OF \<open>sorted heap\<close> c] Some have "fset T = expired_in m ns now"
    by (simp add: expired_in_def fm_get_def)
  with Some c show thesis
    by (intro that [of T "fmupd ns heap' (lease_expirations m)"]) (simp_all add: recover_expired_leases_def)
qed

lemma same_recover_loop: "agrees m n \<Longrightarrow> same_h (recover_loop ns now tids k m) (recover_loop ns now tids k n)"
proof (induction tids arbitrary: k m n)
  case (Cons tid tids)
  note f = agrees_fields [OF Cons.prems] and v = agrees_views [OF Cons.prems]
  show ?case
    unfolding recover_loop.simps f v
    by (auto simp: Cons.prems Let_def f agrees_updates intro!: same_check Cons.IH split: option.split)
qed simp

lemma same_recover:
  assumes "agrees m n" "orderly home m" "orderly home n"
  shows "same_h (recover_expired_leases ns now m) (recover_expired_leases ns now n)"
proof -
  have inv: "broker_inv m" "broker_inv n" using assms(2,3) by (simp_all add: orderly_def)
  obtain T E where T: "fset T = expired_in m ns now"
    "recover_expired_leases ns now m = recover_loop ns now (sorted_list_of_fset T) 0 (m\<lparr>lease_expirations := E\<rparr>)"
    by (rule recover_candidates [OF inv(1)])
  obtain T' E' where T': "fset T' = expired_in n ns now"
    "recover_expired_leases ns now n = recover_loop ns now (sorted_list_of_fset T') 0 (n\<lparr>lease_expirations := E'\<rparr>)"
    by (rule recover_candidates [OF inv(2)])
  have "fset T' = fset T"
    unfolding T(1) T'(1) orderly_expired [OF assms(2)] orderly_expired [OF assms(3)] agrees_fields(1) [OF assms(1)] ..
  then have "T' = T" by (simp only: fset_inject)
  then show ?thesis using T(2) T'(2) assms(1) by (simp add: same_recover_loop agrees_updates)
qed

lemma same_pop:
  assumes "agrees m n" "fm_get [] (ready_tasks m) ns = fm_get [] (ready_tasks n) ns"
  shows "fst (pop_ready_task ns m) = fst (pop_ready_task ns n)" "agrees (snd (pop_ready_task ns m)) (snd (pop_ready_task ns n))"
  using assms(2) agrees_fields(1) [OF assms(1)] assms(1)
  by (auto simp: pop_ready_task_def fm_get_def agrees_updates agrees_def changes_def split: option.splits prod.split)

lemma same_claim_grant:
  assumes "agrees m n"
  shows "same_h (claim_grant c ns gen tid m) (claim_grant c ns gen tid n)"
  unfolding claim_grant_def agrees_fields [OF assms] agrees_views [OF assms]
  by (auto simp: Let_def agrees_updates assms agrees_fields [OF assms] task_claim_result_def empty_claim_result_def metadata_def
        push_expiration_def insert_member_lease_def
      intro!: same_check split: TaskState.split)

lemma same_claim_new:
  assumes "agrees m n" "orderly home m" "orderly home n"
  shows "same_h (claim_new c ns gen m) (claim_new c ns gen n)"
  unfolding claim_new_def
proof (rule same_seq [OF same_recover [OF assms]])
  fix k m1 n1
  assume r: "recover_expired_leases ns (ct_now_ms c) m = (Ok k, m1)" "recover_expired_leases ns (ct_now_ms c) n = (Ok k, n1)"
    and "agrees m1 n1"
  have "fm_get [] (ready_tasks m1) ns = fm_get [] (ready_tasks n1) ns"
    using claim_candidates [OF assms(2) r(1)] claim_candidates [OF assms(3) r(2)] agrees_fields(1) [OF assms(1)]
    by (intro strict_heap_eqI) simp_all
  note p = same_pop [OF \<open>agrees m1 n1\<close> this]
  obtain x m2 n2 where pop: "pop_ready_task ns m1 = (x, m2)" "pop_ready_task ns n1 = (x, n2)"
    using p(1) by (metis prod.collapse)
  with p(2) have "agrees m2 n2" by simp
  then show "same_h
      (case pop_ready_task ns m1 of
        (None, m2) \<Rightarrow>
          if 0 < k then check_r (sm_fv (Revision_next (st_revision (sm_state m2)))) m2 (\<lambda>next_revision.
            let m3 = set_revision next_revision m2 in (Ok (task_claim_result m3 gen None), m3))
          else (Ok (task_claim_result m2 gen None), m2)
      | (Some tid, m2) \<Rightarrow> claim_grant c ns gen tid m2)
      (case pop_ready_task ns n1 of
        (None, m2) \<Rightarrow>
          if 0 < k then check_r (sm_fv (Revision_next (st_revision (sm_state m2)))) m2 (\<lambda>next_revision.
            let m3 = set_revision next_revision m2 in (Ok (task_claim_result m3 gen None), m3))
          else (Ok (task_claim_result m2 gen None), m2)
      | (Some tid, m2) \<Rightarrow> claim_grant c ns gen tid m2)"
    by (cases x) (auto simp: pop same_claim_grant agrees_fields(1) agrees_updates task_claim_result_def
      empty_claim_result_def metadata_def intro!: same_check)
qed

lemma same_claim_task:
  assumes "agrees m n" "orderly home m" "orderly home n"
  shows "same_h (claim_task c m) (claim_task c n)"
  unfolding claim_task_parts agrees_fields [OF assms(1)] agrees_views [OF assms(1)]
  by (auto simp: assms(1) intro!: same_check same_claim_new [OF assms] split: option.split TaskState.split)

section \<open>Commands\<close>

lemma same_applied: "same_h h k \<Longrightarrow> same_h (applied f h) (applied f k)"
  unfolding applied_def by (rule same_seq) (simp_all add: agrees_views)

lemma same_apply_command:
  assumes "agrees m n" "orderly home m" "orderly home n"
  shows "same_h (apply_command c m) (apply_command c n)"
proof -
  have "task_counts (the_tasks m) (namespace_task_counts m)" using assms(2) by (simp add: orderly_def inv_ex_def)
  with assms show ?thesis
    by (cases c) (simp_all add: same_applied same_ensure_namespace same_publish_task same_ensure_consumer_group
      same_join_consumer_group same_heartbeat same_leave_consumer_group same_reap_stale_members same_claim_task
      same_renew_task_lease same_complete_task same_prune_completed_tasks same_advance_term)
qed

lemma orderly_clear: "orderly home m \<Longrightarrow> orderly home (clear_changes m)"
  by (simp add: orderly_def clear_changes_def)

lemma counts_unique:
  "task_counts ts a \<Longrightarrow> task_counts ts b \<Longrightarrow> fm_get 0 a = fm_get 0 b"
  "group_counts gs a \<Longrightarrow> group_counts gs b \<Longrightarrow> fm_get 0 a = fm_get 0 b"
  by (simp_all add: task_counts_def group_counts_def fun_eq_iff)

lemma orderly_agrees:
  assumes "orderly home m" "orderly home n" "sm_state m = sm_state n"
  shows "agrees (clear_changes m) (clear_changes n)"
  using assms active_index_unique member_index_unique completed_index_unique counts_unique
  unfolding orderly_def inv_ex_def agrees_def changes_def
  by (simp add: clear_changes_def) metis

lemma same_broker_apply:
  assumes "orderly home m" "orderly home n" "sm_state m = sm_state n"
  shows "fst (broker_apply c m) = fst (broker_apply c n)"
    "sm_state (snd (broker_apply c m)) = sm_state (snd (broker_apply c n))"
  using same_apply_command [OF orderly_agrees [OF assms] orderly_clear [OF assms(1)] orderly_clear [OF assms(2)], of c]
  by (auto simp: broker_apply_def same_h_def dest: agrees_fields(1))

section \<open>Runs\<close>

text \<open>The answers a broker gives to a sequence of commands, and the sequences it serves in order.\<close>

fun serve :: "BrokerCommand list \<Rightarrow> BrokerStateMachine \<Rightarrow> (StateMachineError + AppliedMutation) list \<times> BrokerStateMachine" where
  "serve [] m = ([], m)"
| "serve (c # cs) m =
     (let (r, m1) = broker_apply c m; (rs, m2) = serve cs m1 in (r # rs, m2))"

fun serves_orderly :: "(TaskId \<Rightarrow> NamespaceId) \<Rightarrow> BrokerCommand list \<Rightarrow> BrokerStateMachine \<Rightarrow> bool" where
  "serves_orderly home [] m \<longleftrightarrow> True"
| "serves_orderly home (c # cs) m \<longleftrightarrow>
     publishes_home home c \<and> fails_cleanly c m \<and> serves_orderly home cs (snd (broker_apply c m))"

lemma same_refused:
  assumes "orderly home m" "orderly home n" "sm_state m = sm_state n"
  shows "fails_cleanly c m = fails_cleanly c n"
proof -
  have "agrees (clear_changes m) (clear_changes n)" by (rule orderly_agrees [OF assms])
  then have "active_lease_tasks m = active_lease_tasks n" by (simp add: agrees_def clear_changes_def)
  then have "claim_refused p m = claim_refused p n" for p
    by (simp add: claim_refused_def require_term_def require_group_member_def assms(3))
  with same_broker_apply(1) [OF assms] show ?thesis
    by (simp add: fails_cleanly_def split: BrokerCommand.split)
qed

lemma orderly_apply:
  assumes "orderly home m" "publishes_home home c" "fails_cleanly c m"
  shows "orderly home (snd (broker_apply c m))"
  using assms bo.step_inv [of home c m] by (simp add: orderly_step_def broker_step_def)

lemma same_serve:
  assumes "orderly home m" "orderly home n" "sm_state m = sm_state n" "serves_orderly home cs m"
  shows "fst (serve cs m) = fst (serve cs n) \<and> sm_state (snd (serve cs m)) = sm_state (snd (serve cs n)) \<and>
    serves_orderly home cs n \<and> orderly home (snd (serve cs n))"
  using assms
proof (induction cs arbitrary: m n)
  case (Cons c cs)
  note same = same_broker_apply [OF Cons.prems(1-3), of c]
  from Cons.prems(4) have c: "publishes_home home c" "fails_cleanly c m" "serves_orderly home cs (snd (broker_apply c m))" by simp_all
  moreover have fc: "fails_cleanly c n" using same_refused [OF Cons.prems(1-3)] c(2) by simp
  ultimately have "fst (serve cs (snd (broker_apply c m))) = fst (serve cs (snd (broker_apply c n))) \<and>
      sm_state (snd (serve cs (snd (broker_apply c m)))) = sm_state (snd (serve cs (snd (broker_apply c n)))) \<and>
      serves_orderly home cs (snd (broker_apply c n)) \<and> orderly home (snd (serve cs (snd (broker_apply c n))))"
    using same(2) Cons.prems(1,2) by (intro Cons.IH orderly_apply)
  with c(1) fc same(1) show ?case by (simp add: Let_def split_beta)
qed simp

section \<open>Properties\<close>



end
