(* ===== verification/Application.thy ===== *)
theory Application
  imports State_Machine
begin

text \<open>
  \<open>agent-broker-application/src/error.rs\<close>, \<open>consensus.rs\<close>: the stable errors of the broker, the
  mapping of domain errors to their codes, and the defaults of the proposal boundary.
\<close>

section \<open>Errors\<close>

datatype BrokerErrorCode =
    InvalidRequest | NotFound | Conflict | CapacityExceeded | StaleFence | PersistenceError | TransportError
  | CommitOutcomeUnknown | InternalError

fun BrokerErrorCode_as_str :: "BrokerErrorCode \<Rightarrow> string" where
  "BrokerErrorCode_as_str InvalidRequest = ''INVALID_REQUEST''"
| "BrokerErrorCode_as_str NotFound = ''NOT_FOUND''"
| "BrokerErrorCode_as_str Conflict = ''CONFLICT''"
| "BrokerErrorCode_as_str BrokerErrorCode.CapacityExceeded = ''CAPACITY_EXCEEDED''"
| "BrokerErrorCode_as_str StaleFence = ''STALE_FENCE''"
| "BrokerErrorCode_as_str PersistenceError = ''PERSISTENCE_ERROR''"
| "BrokerErrorCode_as_str TransportError = ''TRANSPORT_ERROR''"
| "BrokerErrorCode_as_str CommitOutcomeUnknown = ''COMMIT_OUTCOME_UNKNOWN''"
| "BrokerErrorCode_as_str InternalError = ''INTERNAL_ERROR''"

datatype BrokerErrorDisposition = Committed | Rejected | Unknown

fun BrokerErrorDisposition_as_str :: "BrokerErrorDisposition \<Rightarrow> string" where
  "BrokerErrorDisposition_as_str Committed = ''COMMITTED''"
| "BrokerErrorDisposition_as_str Rejected = ''REJECTED''"
| "BrokerErrorDisposition_as_str Unknown = ''UNKNOWN''"

record BrokerError =
  be_code :: BrokerErrorCode
  be_message :: string
  be_disposition :: BrokerErrorDisposition

definition BrokerError_new :: "BrokerErrorCode \<Rightarrow> string \<Rightarrow> BrokerError" where
  "BrokerError_new code message = \<lparr>be_code = code, be_message = message, be_disposition = Unknown\<rparr>"

definition with_disposition :: "BrokerErrorDisposition \<Rightarrow> BrokerError \<Rightarrow> BrokerError" where
  "with_disposition disposition e = e\<lparr>be_disposition := disposition\<rparr>"

fun consumer_group_error_code :: "ConsumerGroupError \<Rightarrow> BrokerErrorCode" where
  "consumer_group_error_code (ConsumerGroupError.StaleGeneration _ _) = StaleFence"
| "consumer_group_error_code (MemberNotFound _) = NotFound"
| "consumer_group_error_code (CapabilityConflict _) = Conflict"
| "consumer_group_error_code (MemberCapacityReached _) = BrokerErrorCode.CapacityExceeded"
| "consumer_group_error_code InvalidMemberCapacity = InvalidRequest"
| "consumer_group_error_code (ConsumerGroupError.FencingValue _) = InternalError"

fun task_transition_error_code :: "TaskTransitionError \<Rightarrow> BrokerErrorCode" where
  "task_transition_error_code (NotQueued _) = Conflict"
| "task_transition_error_code TaskTransitionError.AlreadyCompleted = Conflict"
| "task_transition_error_code (NotLeased _) = StaleFence"
| "task_transition_error_code StaleGroup = StaleFence"
| "task_transition_error_code StaleOwner = StaleFence"
| "task_transition_error_code TaskTransitionError.StaleGeneration = StaleFence"
| "task_transition_error_code StaleLeaseEpoch = StaleFence"
| "task_transition_error_code StaleLeaseId = StaleFence"
| "task_transition_error_code LeaseExpired = StaleFence"
| "task_transition_error_code (TaskTransitionError.FencingValue _) = InternalError"

fun state_machine_error_code :: "StateMachineError \<Rightarrow> BrokerErrorCode" where
  "state_machine_error_code (InvalidCapacity _) = InvalidRequest"
| "state_machine_error_code TimestampOverflow = InvalidRequest"
| "state_machine_error_code (StateMachineError.CapacityExceeded _ _) = BrokerErrorCode.CapacityExceeded"
| "state_machine_error_code (NamespaceNotFound _) = NotFound"
| "state_machine_error_code (TaskNotFound _) = NotFound"
| "state_machine_error_code (ConsumerGroupNotFound _) = NotFound"
| "state_machine_error_code (TaskConflict _) = Conflict"
| "state_machine_error_code (LeaseIdConflict _) = Conflict"
| "state_machine_error_code (ConsumerGroupConflict _) = Conflict"
| "state_machine_error_code (StaleTerm _ _) = StaleFence"
| "state_machine_error_code (NewTermNotGreater _ _) = StaleFence"
| "state_machine_error_code (ConsumerGroupTransition e) = consumer_group_error_code e"
| "state_machine_error_code (TaskTransition e) = task_transition_error_code e"
| "state_machine_error_code (TaskCountUnderflow _) = InternalError"
| "state_machine_error_code (StateMachineError.FencingValue _) = InternalError"

definition from_state_machine_error :: "StateMachineError \<Rightarrow> BrokerError" where
  "from_state_machine_error e = BrokerError_new (state_machine_error_code e) (StateMachineError_display e)"

section \<open>Command identities\<close>

datatype CommandIdentityError =
    InvalidSessionId string
  | InvalidOwnerInstanceId string
  | ZeroOwnerEpoch
  | ZeroSequence

fun CommandIdentityError_display :: "CommandIdentityError \<Rightarrow> string" where
  "CommandIdentityError_display (InvalidSessionId reason) = ''invalid command_session_id: '' @ reason"
| "CommandIdentityError_display (InvalidOwnerInstanceId reason) =
     ''invalid command_session_owner_instance_id: '' @ reason"
| "CommandIdentityError_display ZeroOwnerEpoch = ''command_session_owner_epoch must be greater than zero''"
| "CommandIdentityError_display ZeroSequence = ''command_sequence must be greater than zero''"

definition validate_command_identifier :: "string \<Rightarrow> usize \<Rightarrow> string + unit" where
  "validate_command_identifier v max_bytes =
     (case v of
        [] \<Rightarrow> Err ''must not be empty''
      | c # cs \<Rightarrow>
          if length v > max_bytes then Err ''must be at most 128 ASCII bytes''
          else if \<not> is_ascii_alphanumeric c then Err ''must start with an ASCII alphanumeric character''
          else if \<not> list_all is_identifier_byte cs then Err ''contains unsupported characters''
          else Ok ())"

definition MAX_COMMAND_SESSION_ID_BYTES :: usize where "MAX_COMMAND_SESSION_ID_BYTES = 128"
definition MAX_OWNER_INSTANCE_ID_BYTES :: usize where "MAX_OWNER_INSTANCE_ID_BYTES = 128"

datatype CommandSessionId = CommandSessionId (session_str: string)

definition CommandSessionId_new :: "string \<Rightarrow> CommandIdentityError + CommandSessionId" where
  "CommandSessionId_new v =
     try_r (map_err InvalidSessionId (validate_command_identifier v MAX_COMMAND_SESSION_ID_BYTES)) (\<lambda>_. Ok (CommandSessionId v))"

datatype SessionOwnerInstanceId = SessionOwnerInstanceId (instance_str: string)

definition SessionOwnerInstanceId_new :: "string \<Rightarrow> CommandIdentityError + SessionOwnerInstanceId" where
  "SessionOwnerInstanceId_new v =
     try_r (map_err InvalidOwnerInstanceId (validate_command_identifier v MAX_OWNER_INSTANCE_ID_BYTES)) (\<lambda>_.
     Ok (SessionOwnerInstanceId v))"

type_synonym CommandSequence = u64
type_synonym SessionOwnerEpoch = u64

definition CommandSequence_new :: "u64 \<Rightarrow> CommandIdentityError + CommandSequence" where
  "CommandSequence_new v = (if v = 0 then Err ZeroSequence else Ok v)"

definition SessionOwnerEpoch_INITIAL :: SessionOwnerEpoch where "SessionOwnerEpoch_INITIAL = 1"

definition SessionOwnerEpoch_new :: "u64 \<Rightarrow> CommandIdentityError + SessionOwnerEpoch" where
  "SessionOwnerEpoch_new v = (if v = 0 then Err ZeroOwnerEpoch else Ok v)"

record CommandIdentity =
  ci_session_id :: CommandSessionId
  ci_owner_epoch :: SessionOwnerEpoch
  ci_owner_instance_id :: "SessionOwnerInstanceId option"
  ci_sequence :: CommandSequence

definition CommandIdentity_new :: "CommandSessionId \<Rightarrow> CommandSequence \<Rightarrow> CommandIdentity" where
  "CommandIdentity_new sid sequence =
     \<lparr>ci_session_id = sid, ci_owner_epoch = SessionOwnerEpoch_INITIAL, ci_owner_instance_id = None, ci_sequence = sequence\<rparr>"

definition new_with_owner_epoch :: "CommandSessionId \<Rightarrow> SessionOwnerEpoch \<Rightarrow> CommandSequence \<Rightarrow> CommandIdentity" where
  "new_with_owner_epoch sid epoch sequence =
     \<lparr>ci_session_id = sid, ci_owner_epoch = epoch, ci_owner_instance_id = None, ci_sequence = sequence\<rparr>"

definition new_with_owner ::
  "CommandSessionId \<Rightarrow> SessionOwnerEpoch \<Rightarrow> SessionOwnerInstanceId \<Rightarrow> CommandSequence \<Rightarrow> CommandIdentity" where
  "new_with_owner sid epoch owner sequence =
     \<lparr>ci_session_id = sid, ci_owner_epoch = epoch, ci_owner_instance_id = Some owner, ci_sequence = sequence\<rparr>"

instantiation CommandSessionId :: linorder
begin

definition less_eq_CommandSessionId :: "CommandSessionId \<Rightarrow> CommandSessionId \<Rightarrow> bool" where
  "a \<le> b \<longleftrightarrow> session_str a \<le> session_str b"

definition less_CommandSessionId :: "CommandSessionId \<Rightarrow> CommandSessionId \<Rightarrow> bool" where
  "a < b \<longleftrightarrow> session_str a < session_str b"

instance
  by standard (auto simp: less_eq_CommandSessionId_def less_CommandSessionId_def CommandSessionId.expand)

end

lemma validate_command_identifier_Ok: "validate_command_identifier v 128 = Ok u \<longleftrightarrow> valid_identifier 128 v"
  by (cases v) (auto simp: validate_command_identifier_def)

interpretation sessionid: validated_text CommandSessionId_new session_str "valid_identifier 128"
  by unfold_locales
    (auto simp: CommandSessionId_new_def MAX_COMMAND_SESSION_ID_BYTES_def try_r_Ok validate_command_identifier_Ok CommandSessionId.expand)

interpretation instanceid: validated_text SessionOwnerInstanceId_new instance_str "valid_identifier 128"
  by unfold_locales
    (auto simp: SessionOwnerInstanceId_new_def MAX_OWNER_INSTANCE_ID_BYTES_def try_r_Ok validate_command_identifier_Ok SessionOwnerInstanceId.expand)

section \<open>The proposal boundary\<close>

text \<open>The operations of a consensus adapter with the state \<open>'c\<close>.\<close>

record 'c ConsensusAdapter =
  ca_term :: "'c \<Rightarrow> Term"
  ca_revision :: "'c \<Rightarrow> Revision"
  ca_group_directory :: "'c \<Rightarrow> (BrokerError + ConsumerGroupDirectory) \<times> 'c"
  ca_maintenance_authority :: "'c \<Rightarrow> (BrokerError + bool) \<times> 'c"
  ca_propose :: "BrokerCommand \<Rightarrow> 'c \<Rightarrow> (BrokerError + BrokerMutationResult) \<times> 'c"
  ca_propose_identified :: "CommandIdentity \<Rightarrow> BrokerCommand \<Rightarrow> 'c \<Rightarrow> (BrokerError + BrokerMutationResult) \<times> 'c"
  ca_acquire_command_session_owner ::
    "CommandSessionId \<Rightarrow> SessionOwnerEpoch \<Rightarrow> SessionOwnerInstanceId \<Rightarrow> 'c \<Rightarrow> (BrokerError + SessionOwnerEpoch) \<times> 'c"

text \<open>The default implementations of the trait.\<close>

definition default_group_directory :: "'c \<Rightarrow> (BrokerError + ConsumerGroupDirectory) \<times> 'c" where
  "default_group_directory c =
     (Err (BrokerError_new InternalError ''Consumer Group directory reads are unavailable for this consensus adapter''), c)"

definition default_maintenance_authority :: "'c \<Rightarrow> (BrokerError + bool) \<times> 'c" where
  "default_maintenance_authority c = (Ok True, c)"

definition default_propose_identified ::
  "CommandIdentity \<Rightarrow> BrokerCommand \<Rightarrow> 'c \<Rightarrow> (BrokerError + BrokerMutationResult) \<times> 'c" where
  "default_propose_identified identity command c =
     (Err (BrokerError_new InvalidRequest ''identified consensus proposals are not supported by this adapter''), c)"

definition default_acquire_command_session_owner ::
  "CommandSessionId \<Rightarrow> SessionOwnerEpoch \<Rightarrow> SessionOwnerInstanceId \<Rightarrow> 'c \<Rightarrow> (BrokerError + SessionOwnerEpoch) \<times> 'c" where
  "default_acquire_command_session_owner sid expected owner c =
     (Err (BrokerError_new InvalidRequest ''command-session owner acquisition is not supported by this adapter''), c)"

end
