(* ===== verification/Service.thy ===== *)
theory Service
  imports Application Policy
begin

text \<open>
  \<open>agent-broker-application/src/service.rs\<close>: the typed use cases above a consensus adapter.  Each
  method builds one command with the configured capacity, proposes it and unwraps the result.
\<close>

section \<open>Inputs\<close>

record BrokerHealth =
  health_term :: Term
  health_revision :: Revision
  health_protocol_version :: nat

record ClaimTaskInput =
  cti_group_id :: ConsumerGroupId
  cti_member_id :: ConsumerId
  cti_expected_term :: Term
  cti_expected_generation :: Generation
  cti_lease_id :: LeaseId
  cti_now_ms :: TimestampMs
  cti_lease_duration :: u64

record RenewTaskLeaseInput =
  rti_task_id :: TaskId
  rti_group_id :: ConsumerGroupId
  rti_member_id :: ConsumerId
  rti_expected_term :: Term
  rti_expected_generation :: Generation
  rti_expected_lease_epoch :: LeaseEpoch
  rti_lease_id :: LeaseId
  rti_now_ms :: TimestampMs
  rti_lease_duration :: u64

record CompleteTaskInput =
  cmi_task_id :: TaskId
  cmi_group_id :: ConsumerGroupId
  cmi_member_id :: ConsumerId
  cmi_expected_term :: Term
  cmi_expected_generation :: Generation
  cmi_expected_lease_epoch :: LeaseEpoch
  cmi_lease_id :: LeaseId
  cmi_result :: TaskResult
  cmi_completed_at_ms :: TimestampMs

record 'c BrokerApplicationService =
  svc_consensus :: 'c
  svc_capacity :: BrokerCapacityPolicy

section \<open>Unwrapping results\<close>

definition unexpected_result :: "string \<Rightarrow> BrokerError" where
  "unexpected_result expected =
     BrokerError_new InternalError (''consensus returned an unexpected result variant; expected '' @ expected)"

fun expect_namespace :: "BrokerMutationResult \<Rightarrow> BrokerError + NamespaceResult" where
  "expect_namespace (BrokerMutationResult.Namespace r) = Ok r"
| "expect_namespace _ = Err (unexpected_result ''Namespace'')"

fun expect_task_published :: "BrokerMutationResult \<Rightarrow> BrokerError + TaskPublishedResult" where
  "expect_task_published (TaskPublished r) = Ok r"
| "expect_task_published _ = Err (unexpected_result ''TaskPublished'')"

fun expect_consumer_group :: "BrokerMutationResult \<Rightarrow> BrokerError + ConsumerGroupResult" where
  "expect_consumer_group (BrokerMutationResult.ConsumerGroup r) = Ok r"
| "expect_consumer_group _ = Err (unexpected_result ''ConsumerGroup'')"

fun expect_heartbeat :: "BrokerMutationResult \<Rightarrow> BrokerError + HeartbeatResult" where
  "expect_heartbeat (BrokerMutationResult.Heartbeat r) = Ok r"
| "expect_heartbeat _ = Err (unexpected_result ''Heartbeat'')"

fun expect_stale_members_reaped :: "BrokerMutationResult \<Rightarrow> BrokerError + StaleMembersReapedResult" where
  "expect_stale_members_reaped (StaleMembersReaped r) = Ok r"
| "expect_stale_members_reaped _ = Err (unexpected_result ''StaleMembersReaped'')"

fun expect_task_claim :: "BrokerMutationResult \<Rightarrow> BrokerError + TaskClaimResult" where
  "expect_task_claim (TaskClaim r) = Ok r"
| "expect_task_claim _ = Err (unexpected_result ''TaskClaim'')"

fun expect_task_lease_renewed :: "BrokerMutationResult \<Rightarrow> BrokerError + TaskLeaseRenewedResult" where
  "expect_task_lease_renewed (TaskLeaseRenewed r) = Ok r"
| "expect_task_lease_renewed _ = Err (unexpected_result ''TaskLeaseRenewed'')"

fun expect_task_completed :: "BrokerMutationResult \<Rightarrow> BrokerError + TaskCompletedResult" where
  "expect_task_completed (TaskCompleted r) = Ok r"
| "expect_task_completed _ = Err (unexpected_result ''TaskCompleted'')"

fun expect_completed_tasks_pruned :: "BrokerMutationResult \<Rightarrow> BrokerError + CompletedTasksPrunedResult" where
  "expect_completed_tasks_pruned (CompletedTasksPruned r) = Ok r"
| "expect_completed_tasks_pruned _ = Err (unexpected_result ''CompletedTasksPruned'')"

fun expect_term_advanced :: "BrokerMutationResult \<Rightarrow> BrokerError + TermAdvancedResult" where
  "expect_term_advanced (TermAdvanced r) = Ok r"
| "expect_term_advanced _ = Err (unexpected_result ''TermAdvanced'')"

section \<open>Use cases\<close>

definition svc_health :: "'c ConsensusAdapter \<Rightarrow> 'c BrokerApplicationService \<Rightarrow> BrokerHealth" where
  "svc_health ops s =
     \<lparr>health_term = ca_term ops (svc_consensus s), health_revision = ca_revision ops (svc_consensus s),
      health_protocol_version = 1\<rparr>"

text \<open>Running an operation of the adapter, and proposing a command and unwrapping its result.\<close>

definition on_consensus ::
  "('c \<Rightarrow> (BrokerError + 'r) \<times> 'c) \<Rightarrow> 'c BrokerApplicationService \<Rightarrow> (BrokerError + 'r) \<times> 'c BrokerApplicationService" where
  "on_consensus f s = (case f (svc_consensus s) of (r, c) \<Rightarrow> (r, s\<lparr>svc_consensus := c\<rparr>))"

definition svc_group_directory ::
  "'c ConsensusAdapter \<Rightarrow> 'c BrokerApplicationService \<Rightarrow> (BrokerError + ConsumerGroupDirectory) \<times> 'c BrokerApplicationService" where
  "svc_group_directory ops = on_consensus (ca_group_directory ops)"

definition svc_maintenance_authority ::
  "'c ConsensusAdapter \<Rightarrow> 'c BrokerApplicationService \<Rightarrow> (BrokerError + bool) \<times> 'c BrokerApplicationService" where
  "svc_maintenance_authority ops = on_consensus (ca_maintenance_authority ops)"

definition svc_propose_identified ::
  "'c ConsensusAdapter \<Rightarrow> CommandIdentity \<Rightarrow> BrokerCommand \<Rightarrow> 'c BrokerApplicationService \<Rightarrow>
   (BrokerError + BrokerMutationResult) \<times> 'c BrokerApplicationService" where
  "svc_propose_identified ops identity command = on_consensus (ca_propose_identified ops identity command)"

definition svc_acquire_command_session_owner ::
  "'c ConsensusAdapter \<Rightarrow> CommandSessionId \<Rightarrow> SessionOwnerEpoch \<Rightarrow> SessionOwnerInstanceId \<Rightarrow>
   'c BrokerApplicationService \<Rightarrow> (BrokerError + SessionOwnerEpoch) \<times> 'c BrokerApplicationService" where
  "svc_acquire_command_session_owner ops sid expected owner =
     on_consensus (ca_acquire_command_session_owner ops sid expected owner)"

definition unwrapped ::
  "(BrokerMutationResult \<Rightarrow> BrokerError + 'r) \<Rightarrow> (BrokerError + BrokerMutationResult) \<times> 's \<Rightarrow> (BrokerError + 'r) \<times> 's" where
  "unwrapped expect p = (case p of (r, s) \<Rightarrow> (try_r r expect, s))"

definition svc_ensure_namespace ::
  "'c ConsensusAdapter \<Rightarrow> NamespaceId \<Rightarrow> 'c BrokerApplicationService \<Rightarrow>
   (BrokerError + NamespaceResult) \<times> 'c BrokerApplicationService" where
  "svc_ensure_namespace ops ns s =
     unwrapped expect_namespace (on_consensus (ca_propose ops (EnsureNamespace
       \<lparr>en_namespace_id = ns, en_max_namespaces = max_namespaces (svc_capacity s)\<rparr>)) s)"

definition svc_publish_task ::
  "'c ConsensusAdapter \<Rightarrow> NamespaceId \<Rightarrow> TaskId \<Rightarrow> TaskObjective \<Rightarrow> TimestampMs \<Rightarrow> 'c BrokerApplicationService \<Rightarrow>
   (BrokerError + TaskPublishedResult) \<times> 'c BrokerApplicationService" where
  "svc_publish_task ops ns tid objective created s =
     unwrapped expect_task_published (on_consensus (ca_propose ops (PublishTask
       \<lparr>pt_namespace_id = ns, pt_task_id = tid, pt_objective = objective, pt_created_at_ms = created,
        pt_max_namespace_tasks = max_tasks_per_namespace (svc_capacity s)\<rparr>)) s)"

definition svc_ensure_consumer_group ::
  "'c ConsensusAdapter \<Rightarrow> NamespaceId \<Rightarrow> ConsumerGroupId \<Rightarrow> 'c BrokerApplicationService \<Rightarrow>
   (BrokerError + ConsumerGroupResult) \<times> 'c BrokerApplicationService" where
  "svc_ensure_consumer_group ops ns gid s =
     unwrapped expect_consumer_group (on_consensus (ca_propose ops (EnsureConsumerGroup
       \<lparr>eg_namespace_id = ns, eg_group_id = gid, eg_max_namespace_groups = max_groups_per_namespace (svc_capacity s)\<rparr>)) s)"

definition svc_join_consumer_group ::
  "'c ConsensusAdapter \<Rightarrow> ConsumerGroupId \<Rightarrow> ConsumerId \<Rightarrow> Capabilities \<Rightarrow> TimestampMs \<Rightarrow> 'c BrokerApplicationService \<Rightarrow>
   (BrokerError + ConsumerGroupResult) \<times> 'c BrokerApplicationService" where
  "svc_join_consumer_group ops gid mid caps now s =
     unwrapped expect_consumer_group (on_consensus (ca_propose ops (JoinConsumerGroup
       \<lparr>jg_group_id = gid, jg_member_id = mid, jg_capabilities = caps, jg_now_ms = now,
        jg_max_group_members = max_members_per_group (svc_capacity s)\<rparr>)) s)"

definition svc_heartbeat ::
  "'c ConsensusAdapter \<Rightarrow> ConsumerGroupId \<Rightarrow> ConsumerId \<Rightarrow> Generation \<Rightarrow> TimestampMs \<Rightarrow> 'c BrokerApplicationService \<Rightarrow>
   (BrokerError + HeartbeatResult) \<times> 'c BrokerApplicationService" where
  "svc_heartbeat ops gid mid gen now s =
     unwrapped expect_heartbeat (on_consensus (ca_propose ops (BrokerCommand.Heartbeat
       \<lparr>hb_group_id = gid, hb_member_id = mid, hb_expected_generation = gen, hb_now_ms = now\<rparr>)) s)"

definition svc_leave_consumer_group ::
  "'c ConsensusAdapter \<Rightarrow> ConsumerGroupId \<Rightarrow> ConsumerId \<Rightarrow> Generation \<Rightarrow> 'c BrokerApplicationService \<Rightarrow>
   (BrokerError + ConsumerGroupResult) \<times> 'c BrokerApplicationService" where
  "svc_leave_consumer_group ops gid mid gen s =
     unwrapped expect_consumer_group (on_consensus (ca_propose ops (LeaveConsumerGroup
       \<lparr>lg_group_id = gid, lg_member_id = mid, lg_expected_generation = gen\<rparr>)) s)"

definition svc_reap_stale_members ::
  "'c ConsensusAdapter \<Rightarrow> TimestampMs \<Rightarrow> usize \<Rightarrow> 'c BrokerApplicationService \<Rightarrow>
   (BrokerError + StaleMembersReapedResult) \<times> 'c BrokerApplicationService" where
  "svc_reap_stale_members ops stale_before max_members s =
     unwrapped expect_stale_members_reaped (on_consensus (ca_propose ops (ReapStaleMembers
       \<lparr>rs_stale_before_ms = stale_before, rs_max_members = max_members\<rparr>)) s)"

definition svc_claim_task ::
  "'c ConsensusAdapter \<Rightarrow> ClaimTaskInput \<Rightarrow> 'c BrokerApplicationService \<Rightarrow>
   (BrokerError + TaskClaimResult) \<times> 'c BrokerApplicationService" where
  "svc_claim_task ops input s =
     unwrapped expect_task_claim (on_consensus (ca_propose ops (ClaimTask
       \<lparr>ct_group_id = cti_group_id input, ct_member_id = cti_member_id input, ct_expected_term = cti_expected_term input,
        ct_expected_generation = cti_expected_generation input, ct_lease_id = cti_lease_id input,
        ct_now_ms = cti_now_ms input, ct_lease_duration_ms = cti_lease_duration input\<rparr>)) s)"

definition svc_renew_task_lease ::
  "'c ConsensusAdapter \<Rightarrow> RenewTaskLeaseInput \<Rightarrow> 'c BrokerApplicationService \<Rightarrow>
   (BrokerError + TaskLeaseRenewedResult) \<times> 'c BrokerApplicationService" where
  "svc_renew_task_lease ops input s =
     unwrapped expect_task_lease_renewed (on_consensus (ca_propose ops (RenewTaskLease
       \<lparr>rl_task_id = rti_task_id input, rl_group_id = rti_group_id input, rl_member_id = rti_member_id input,
        rl_expected_term = rti_expected_term input, rl_expected_generation = rti_expected_generation input,
        rl_expected_lease_epoch = rti_expected_lease_epoch input, rl_lease_id = rti_lease_id input,
        rl_now_ms = rti_now_ms input, rl_lease_duration_ms = rti_lease_duration input\<rparr>)) s)"

definition svc_complete_task ::
  "'c ConsensusAdapter \<Rightarrow> CompleteTaskInput \<Rightarrow> 'c BrokerApplicationService \<Rightarrow>
   (BrokerError + TaskCompletedResult) \<times> 'c BrokerApplicationService" where
  "svc_complete_task ops input s =
     unwrapped expect_task_completed (on_consensus (ca_propose ops (CompleteTask
       \<lparr>cm_task_id = cmi_task_id input, cm_group_id = cmi_group_id input, cm_member_id = cmi_member_id input,
        cm_expected_term = cmi_expected_term input, cm_expected_generation = cmi_expected_generation input,
        cm_expected_lease_epoch = cmi_expected_lease_epoch input, cm_lease_id = cmi_lease_id input,
        cm_result = cmi_result input, cm_completed_at_ms = cmi_completed_at_ms input\<rparr>)) s)"

definition svc_prune_completed_tasks ::
  "'c ConsensusAdapter \<Rightarrow> TimestampMs \<Rightarrow> usize \<Rightarrow> 'c BrokerApplicationService \<Rightarrow>
   (BrokerError + CompletedTasksPrunedResult) \<times> 'c BrokerApplicationService" where
  "svc_prune_completed_tasks ops before max_tasks s =
     unwrapped expect_completed_tasks_pruned (on_consensus (ca_propose ops (PruneCompletedTasks
       \<lparr>pc_completed_before_ms = before, pc_max_tasks = max_tasks\<rparr>)) s)"

definition svc_advance_term ::
  "'c ConsensusAdapter \<Rightarrow> Term \<Rightarrow> Term \<Rightarrow> 'c BrokerApplicationService \<Rightarrow>
   (BrokerError + TermAdvancedResult) \<times> 'c BrokerApplicationService" where
  "svc_advance_term ops expected new_term s =
     unwrapped expect_term_advanced (on_consensus (ca_propose ops (AdvanceTerm
       \<lparr>at_expected_term = expected, at_new_term = new_term\<rparr>)) s)"

text \<open>The variants with a durable command identity.\<close>

definition svc_ensure_namespace_identified ::
  "'c ConsensusAdapter \<Rightarrow> CommandIdentity \<Rightarrow> NamespaceId \<Rightarrow> 'c BrokerApplicationService \<Rightarrow>
   (BrokerError + NamespaceResult) \<times> 'c BrokerApplicationService" where
  "svc_ensure_namespace_identified ops identity ns s =
     unwrapped expect_namespace (svc_propose_identified ops identity (EnsureNamespace
       \<lparr>en_namespace_id = ns, en_max_namespaces = max_namespaces (svc_capacity s)\<rparr>) s)"

definition svc_publish_task_identified ::
  "'c ConsensusAdapter \<Rightarrow> CommandIdentity \<Rightarrow> NamespaceId \<Rightarrow> TaskId \<Rightarrow> TaskObjective \<Rightarrow> TimestampMs \<Rightarrow> 'c BrokerApplicationService \<Rightarrow>
   (BrokerError + TaskPublishedResult) \<times> 'c BrokerApplicationService" where
  "svc_publish_task_identified ops identity ns tid objective created s =
     unwrapped expect_task_published (svc_propose_identified ops identity (PublishTask
       \<lparr>pt_namespace_id = ns, pt_task_id = tid, pt_objective = objective, pt_created_at_ms = created,
        pt_max_namespace_tasks = max_tasks_per_namespace (svc_capacity s)\<rparr>) s)"

definition svc_ensure_consumer_group_identified ::
  "'c ConsensusAdapter \<Rightarrow> CommandIdentity \<Rightarrow> NamespaceId \<Rightarrow> ConsumerGroupId \<Rightarrow> 'c BrokerApplicationService \<Rightarrow>
   (BrokerError + ConsumerGroupResult) \<times> 'c BrokerApplicationService" where
  "svc_ensure_consumer_group_identified ops identity ns gid s =
     unwrapped expect_consumer_group (svc_propose_identified ops identity (EnsureConsumerGroup
       \<lparr>eg_namespace_id = ns, eg_group_id = gid, eg_max_namespace_groups = max_groups_per_namespace (svc_capacity s)\<rparr>) s)"

definition svc_join_consumer_group_identified ::
  "'c ConsensusAdapter \<Rightarrow> CommandIdentity \<Rightarrow> ConsumerGroupId \<Rightarrow> ConsumerId \<Rightarrow> Capabilities \<Rightarrow> TimestampMs \<Rightarrow> 'c BrokerApplicationService \<Rightarrow>
   (BrokerError + ConsumerGroupResult) \<times> 'c BrokerApplicationService" where
  "svc_join_consumer_group_identified ops identity gid mid caps now s =
     unwrapped expect_consumer_group (svc_propose_identified ops identity (JoinConsumerGroup
       \<lparr>jg_group_id = gid, jg_member_id = mid, jg_capabilities = caps, jg_now_ms = now,
        jg_max_group_members = max_members_per_group (svc_capacity s)\<rparr>) s)"

definition svc_heartbeat_identified ::
  "'c ConsensusAdapter \<Rightarrow> CommandIdentity \<Rightarrow> ConsumerGroupId \<Rightarrow> ConsumerId \<Rightarrow> Generation \<Rightarrow> TimestampMs \<Rightarrow> 'c BrokerApplicationService \<Rightarrow>
   (BrokerError + HeartbeatResult) \<times> 'c BrokerApplicationService" where
  "svc_heartbeat_identified ops identity gid mid gen now s =
     unwrapped expect_heartbeat (svc_propose_identified ops identity (BrokerCommand.Heartbeat
       \<lparr>hb_group_id = gid, hb_member_id = mid, hb_expected_generation = gen, hb_now_ms = now\<rparr>) s)"

definition svc_leave_consumer_group_identified ::
  "'c ConsensusAdapter \<Rightarrow> CommandIdentity \<Rightarrow> ConsumerGroupId \<Rightarrow> ConsumerId \<Rightarrow> Generation \<Rightarrow> 'c BrokerApplicationService \<Rightarrow>
   (BrokerError + ConsumerGroupResult) \<times> 'c BrokerApplicationService" where
  "svc_leave_consumer_group_identified ops identity gid mid gen s =
     unwrapped expect_consumer_group (svc_propose_identified ops identity (LeaveConsumerGroup
       \<lparr>lg_group_id = gid, lg_member_id = mid, lg_expected_generation = gen\<rparr>) s)"

definition svc_claim_task_identified ::
  "'c ConsensusAdapter \<Rightarrow> CommandIdentity \<Rightarrow> ClaimTaskInput \<Rightarrow> 'c BrokerApplicationService \<Rightarrow>
   (BrokerError + TaskClaimResult) \<times> 'c BrokerApplicationService" where
  "svc_claim_task_identified ops identity input s =
     unwrapped expect_task_claim (svc_propose_identified ops identity (ClaimTask
       \<lparr>ct_group_id = cti_group_id input, ct_member_id = cti_member_id input, ct_expected_term = cti_expected_term input,
        ct_expected_generation = cti_expected_generation input, ct_lease_id = cti_lease_id input,
        ct_now_ms = cti_now_ms input, ct_lease_duration_ms = cti_lease_duration input\<rparr>) s)"

definition svc_renew_task_lease_identified ::
  "'c ConsensusAdapter \<Rightarrow> CommandIdentity \<Rightarrow> RenewTaskLeaseInput \<Rightarrow> 'c BrokerApplicationService \<Rightarrow>
   (BrokerError + TaskLeaseRenewedResult) \<times> 'c BrokerApplicationService" where
  "svc_renew_task_lease_identified ops identity input s =
     unwrapped expect_task_lease_renewed (svc_propose_identified ops identity (RenewTaskLease
       \<lparr>rl_task_id = rti_task_id input, rl_group_id = rti_group_id input, rl_member_id = rti_member_id input,
        rl_expected_term = rti_expected_term input, rl_expected_generation = rti_expected_generation input,
        rl_expected_lease_epoch = rti_expected_lease_epoch input, rl_lease_id = rti_lease_id input,
        rl_now_ms = rti_now_ms input, rl_lease_duration_ms = rti_lease_duration input\<rparr>) s)"

definition svc_complete_task_identified ::
  "'c ConsensusAdapter \<Rightarrow> CommandIdentity \<Rightarrow> CompleteTaskInput \<Rightarrow> 'c BrokerApplicationService \<Rightarrow>
   (BrokerError + TaskCompletedResult) \<times> 'c BrokerApplicationService" where
  "svc_complete_task_identified ops identity input s =
     unwrapped expect_task_completed (svc_propose_identified ops identity (CompleteTask
       \<lparr>cm_task_id = cmi_task_id input, cm_group_id = cmi_group_id input, cm_member_id = cmi_member_id input,
        cm_expected_term = cmi_expected_term input, cm_expected_generation = cmi_expected_generation input,
        cm_expected_lease_epoch = cmi_expected_lease_epoch input, cm_lease_id = cmi_lease_id input,
        cm_result = cmi_result input, cm_completed_at_ms = cmi_completed_at_ms input\<rparr>) s)"

end
