(* ===== verification/Standalone.thy ===== *)
theory Standalone
  imports Repository Broker_Values Broker_Determinism Service "HOL-Library.Sublist"
begin

text \<open>
  \<open>agent-broker-consensus/src/standalone.rs\<close>: the single-node adapter, which applies a command to the
  machine, commits it to a repository and stops for good after a failed commit.  The repository is a
  parameter with the contract \<open>state_repository\<close>; the journaled repository provides it.
\<close>

section \<open>The adapter\<close>

definition FAIL_STOPPED_MESSAGE :: string where
  "FAIL_STOPPED_MESSAGE = ''Standalone Broker is fail-stopped after a durability failure.''"

record 'r StandaloneConsensusAdapter =
  sa_repository :: 'r
  sa_machine :: BrokerStateMachine
  sa_poisoned :: bool

definition persistence_error :: "RepositoryError \<Rightarrow> BrokerError" where
  "persistence_error e = BrokerError_new PersistenceError (RepositoryError_display e)"

definition fail_stopped :: BrokerError where
  "fail_stopped = BrokerError_new PersistenceError FAIL_STOPPED_MESSAGE"

definition standalone_new ::
  "('r \<Rightarrow> (RepositoryError + BrokerCheckpoint) \<times> 'r) \<Rightarrow> 'r \<Rightarrow> BrokerError + 'r StandaloneConsensusAdapter" where
  "standalone_new load repository =
     (case load repository of
        (Err e, _) \<Rightarrow> Err (persistence_error e)
      | (Ok checkpoint, repository) \<Rightarrow>
          try_r (map_err (\<lambda>e. BrokerError_new PersistenceError
              (''durable Broker checkpoint is invalid: '' @ CheckpointError_display e)) (from_checkpoint checkpoint)) (\<lambda>machine.
          Ok \<lparr>sa_repository = repository, sa_machine = machine, sa_poisoned = False\<rparr>))"

definition standalone_group_directory ::
  "'r StandaloneConsensusAdapter \<Rightarrow> (BrokerError + ConsumerGroupDirectory) \<times> 'r StandaloneConsensusAdapter" where
  "standalone_group_directory a =
     (if sa_poisoned a then Err fail_stopped else Ok (group_directory (sm_state (sa_machine a))), a)"

definition standalone_propose ::
  "(BrokerState \<Rightarrow> StateChangeSet \<Rightarrow> 'r \<Rightarrow> (RepositoryError + unit) \<times> 'r) \<Rightarrow> BrokerCommand \<Rightarrow>
   'r StandaloneConsensusAdapter \<Rightarrow> (BrokerError + BrokerMutationResult) \<times> 'r StandaloneConsensusAdapter" where
  "standalone_propose commit command a =
     (if sa_poisoned a then (Err fail_stopped, a)
      else
        let before_revision = st_revision (sm_state (sa_machine a)) in
        case broker_apply command (sa_machine a) of
          (Err e, m) \<Rightarrow> (Err (from_state_machine_error e), a\<lparr>sa_machine := m\<rparr>)
        | (Ok am, m) \<Rightarrow>
            if st_revision (sm_state m) = before_revision then (Ok (am_result am), a\<lparr>sa_machine := m\<rparr>)
            else
              case commit (sm_state m) (am_changes am) (sa_repository a) of
                (Err e, r) \<Rightarrow>
                  (Err (persistence_error e), a\<lparr>sa_repository := r, sa_machine := m, sa_poisoned := True\<rparr>)
              | (Ok _, r) \<Rightarrow> (Ok (am_result am), a\<lparr>sa_repository := r, sa_machine := m\<rparr>))"

definition standalone_adapter ::
  "(BrokerState \<Rightarrow> StateChangeSet \<Rightarrow> 'r \<Rightarrow> (RepositoryError + unit) \<times> 'r) \<Rightarrow> 'r StandaloneConsensusAdapter ConsensusAdapter" where
  "standalone_adapter commit =
     \<lparr>ca_term = (\<lambda>a. st_term (sm_state (sa_machine a))), ca_revision = (\<lambda>a. st_revision (sm_state (sa_machine a))),
      ca_group_directory = standalone_group_directory, ca_maintenance_authority = default_maintenance_authority,
      ca_propose = standalone_propose commit, ca_propose_identified = default_propose_identified,
      ca_acquire_command_session_owner = default_acquire_command_session_owner\<rparr>"

section \<open>Runs with crashes\<close>

text \<open>
  What a client sees: the commands it submitted, each with its result when it was acknowledged.
  Between commands the process may stop and be started again on what the repository holds; a crash
  during a commit is a commit with a failed file operation, followed by a restart.
\<close>

type_synonym history = "(BrokerCommand \<times> BrokerMutationResult option) list"

definition answer_of :: "BrokerError + BrokerMutationResult \<Rightarrow> BrokerMutationResult option" where
  "answer_of r = (case r of Err e \<Rightarrow> None | Ok x \<Rightarrow> Some x)"

inductive standalone_run ::
  "('r \<Rightarrow> (RepositoryError + BrokerCheckpoint) \<times> 'r) \<Rightarrow>
   ('i \<Rightarrow> BrokerState \<Rightarrow> StateChangeSet \<Rightarrow> 'r \<Rightarrow> (RepositoryError + unit) \<times> 'r) \<Rightarrow>
   (BrokerCommand \<Rightarrow> BrokerStateMachine \<Rightarrow> bool) \<Rightarrow> 'r \<Rightarrow> history \<Rightarrow> 'r StandaloneConsensusAdapter \<Rightarrow> bool"
  for load commit admissible r0
where
  start: "standalone_new load r0 = Ok a \<Longrightarrow> standalone_run load commit admissible r0 [] a"
| propose: "standalone_run load commit admissible r0 h a \<Longrightarrow> admissible c (sa_machine a) \<Longrightarrow>
    standalone_propose (commit io) c a = (r, a') \<Longrightarrow> standalone_run load commit admissible r0 (h @ [(c, answer_of r)]) a'"
| restart: "standalone_run load commit admissible r0 h a \<Longrightarrow> standalone_new load (sa_repository a) = Ok a' \<Longrightarrow>
    standalone_run load commit admissible r0 h a'"

definition acknowledged :: "history \<Rightarrow> history" where
  "acknowledged h = filter (\<lambda>(c, r). r \<noteq> None) h"

text \<open>The outcomes of a sequence of commands on a new broker.\<close>

definition outcomes :: "BrokerCommand list \<Rightarrow> history" where
  "outcomes log = zip log (map (\<lambda>r. case r of Err e \<Rightarrow> None | Ok am \<Rightarrow> Some (am_result am)) (fst (serve log BrokerStateMachine_default)))"

abbreviation machine_of :: "BrokerCommand list \<Rightarrow> BrokerStateMachine" where
  "machine_of log \<equiv> snd (serve log BrokerStateMachine_default)"

text \<open>The history is explained by the log: what was acknowledged is in it, and it holds nothing else than what was submitted.\<close>

definition explains :: "(TaskId \<Rightarrow> NamespaceId) \<Rightarrow> BrokerCommand list \<Rightarrow> history \<Rightarrow> bool" where
  "explains home log h \<longleftrightarrow> subseq (acknowledged h) (outcomes log) \<and> subseq log (map fst h) \<and>
     orderly home (machine_of log) \<and> state_values (sm_state (machine_of log))"

lemma serve_append:
  "serve (cs @ ds) m = (fst (serve cs m) @ fst (serve ds (snd (serve cs m))), snd (serve ds (snd (serve cs m))))"
  by (induction cs arbitrary: m) (simp_all add: Let_def split_beta)

lemma serve_length [simp]: "length (fst (serve cs m)) = length cs"
  by (induction cs arbitrary: m) (simp_all add: Let_def split_beta)

lemma outcomes_snoc:
  "outcomes (log @ [c]) = outcomes log @ [(c, case fst (broker_apply c (machine_of log)) of Err e \<Rightarrow> None | Ok am \<Rightarrow> Some (am_result am))]"
  by (simp add: outcomes_def serve_append Let_def split_beta)

lemma machine_snoc: "machine_of (log @ [c]) = snd (broker_apply c (machine_of log))"
  by (simp add: serve_append Let_def split_beta)

lemma acknowledged_snoc:
  "acknowledged (h @ [(c, r)]) = acknowledged h @ (case r of None \<Rightarrow> [] | Some x \<Rightarrow> [(c, Some x)])"
  by (simp add: acknowledged_def split: option.split)

lemma state_values_default: "state_values (sm_state BrokerStateMachine_default)"
  using bv.init_inv [of BrokerStateMachine_default] by (simp add: broker_init_def)

lemma failed_state:
  assumes "broker_apply c m = (Err e, m')" "broker_inv m" "fails_cleanly c m"
  shows "sm_state m' = sm_state m"
proof (cases "is_claim c")
  case True
  then obtain p where p: "c = ClaimTask p" by (auto simp: is_claim_def)
  with assms(1,3) have "claim_refused p (clear_changes m)" by (simp add: fails_cleanly_def)
  from claim_refused_keeps [OF this] p assms(1) have "m' = clear_changes m"
    by (metis apply_command.simps(8) broker_apply_def snd_applied snd_conv)
  then show ?thesis by simp
next
  case False
  from broker_apply_effect(2) [OF assms(1,2)] False show ?thesis by simp
qed

lemma explains_skip: "explains home log h \<Longrightarrow> explains home log (h @ [(c, None)])"
  by (auto simp: explains_def acknowledged_snoc intro: list_emb_append2)

lemma explains_step:
  assumes "explains home log h" "orderly home m" "sm_state m = sm_state (machine_of log)" "broker_apply c m = (res, m')"
    and adm: "publishes_home home c \<and> fails_cleanly c m \<and> command_values c"
  shows "sm_state (machine_of (log @ [c])) = sm_state m'"
    and "x = None \<or> (\<exists>am. res = Ok am \<and> x = Some (am_result am)) \<Longrightarrow> explains home (log @ [c]) (h @ [(c, x)])"
proof -
  let ?n = "machine_of log"
  from assms(1) have n: "orderly home ?n" "state_values (sm_state ?n)" by (simp_all add: explains_def)
  have log': "fst (broker_apply c ?n) = res" "sm_state (snd (broker_apply c ?n)) = sm_state m'"
    using same_broker_apply [OF assms(2) n(1) assms(3), of c] assms(4) by simp_all
  then show "sm_state (machine_of (log @ [c])) = sm_state m'" by (simp add: machine_snoc)
  have "fails_cleanly c ?n" using same_refused [OF assms(2) n(1) assms(3)] adm by simp
  with adm have ordn': "orderly home (machine_of (log @ [c]))" "state_values (sm_state (machine_of (log @ [c])))"
    using orderly_apply [OF n(1)] broker_apply_values [OF _ n(2), of c] n(1) by (simp_all add: machine_snoc orderly_def)
  assume "x = None \<or> (\<exists>am. res = Ok am \<and> x = Some (am_result am))"
  then have "subseq (acknowledged (h @ [(c, x)])) (outcomes (log @ [c]))"
    using assms(1) log'(1)
    by (auto simp: explains_def acknowledged_snoc outcomes_snoc intro: list_emb_append_mono list_emb_append2 split: option.split)
  with assms(1) ordn' show "explains home (log @ [c]) (h @ [(c, x)])" by (auto simp: explains_def intro: list_emb_append_mono)
qed

section \<open>The contract of a repository\<close>

text \<open>
  \<open>holds\<close> and \<open>recovers\<close> relate a repository and the checkpoint it will load; the first also says that
  it is ready for the next commit.  A commit that fails leaves the checkpoint before it or the one
  after it.
\<close>

locale state_repository =
  fixes load :: "'r \<Rightarrow> (RepositoryError + BrokerCheckpoint) \<times> 'r"
    and commit :: "'i \<Rightarrow> BrokerState \<Rightarrow> StateChangeSet \<Rightarrow> 'r \<Rightarrow> (RepositoryError + unit) \<times> 'r"
    and holds :: "'r \<Rightarrow> BrokerCheckpoint \<Rightarrow> bool"
    and recovers :: "'r \<Rightarrow> BrokerCheckpoint \<Rightarrow> bool"
    and writable :: "BrokerState \<Rightarrow> BrokerState \<Rightarrow> StateChangeSet \<Rightarrow> bool"
  assumes load_recovers: "recovers r c \<Longrightarrow> \<exists>r'. load r = (Ok c, r') \<and> holds r' c"
    and holds_recovers: "holds r c \<Longrightarrow> recovers r c"
    and commit_Ok: "holds r (BrokerState_checkpoint s) \<Longrightarrow> writable s s' ch \<Longrightarrow> commit io s' ch r = (Ok u, r') \<Longrightarrow>
      holds r' (BrokerState_checkpoint s')"
    and commit_Err: "holds r (BrokerState_checkpoint s) \<Longrightarrow> writable s s' ch \<Longrightarrow> commit io s' ch r = (Err e, r') \<Longrightarrow>
      recovers r' (BrokerState_checkpoint s) \<or> recovers r' (BrokerState_checkpoint s')"

definition tracks ::
  "('r \<Rightarrow> BrokerCheckpoint \<Rightarrow> bool) \<Rightarrow> ('r \<Rightarrow> BrokerCheckpoint \<Rightarrow> bool) \<Rightarrow> (TaskId \<Rightarrow> NamespaceId) \<Rightarrow> BrokerCommand list \<Rightarrow>
   'r StandaloneConsensusAdapter \<Rightarrow> bool" where
  "tracks holds recovers home log a \<longleftrightarrow>
     (if sa_poisoned a then recovers (sa_repository a) (BrokerState_checkpoint (sm_state (machine_of log)))
      else holds (sa_repository a) (BrokerState_checkpoint (sm_state (machine_of log))) \<and> orderly home (sa_machine a) \<and>
        sm_state (sa_machine a) = sm_state (machine_of log))"

text \<open>A broker whose admissible commands are orderly, valid and can be written.\<close>

locale durable_broker = state_repository load commit holds recovers writable
  for load :: "'r \<Rightarrow> (RepositoryError + BrokerCheckpoint) \<times> 'r"
    and commit :: "'i \<Rightarrow> BrokerState \<Rightarrow> StateChangeSet \<Rightarrow> 'r \<Rightarrow> (RepositoryError + unit) \<times> 'r"
    and holds recovers writable +
  fixes home :: "TaskId \<Rightarrow> NamespaceId" and admissible :: "BrokerCommand \<Rightarrow> BrokerStateMachine \<Rightarrow> bool"
  assumes admitted: "admissible c m \<Longrightarrow> publishes_home home c \<and> fails_cleanly c m \<and> command_values c"
    and admitted_writable: "admissible c m \<Longrightarrow> orderly home m \<Longrightarrow> state_values (sm_state m) \<Longrightarrow>
      broker_apply c m = (Ok am, m') \<Longrightarrow> st_revision (sm_state m') \<noteq> st_revision (sm_state m) \<Longrightarrow>
      writable (sm_state m) (sm_state m') (am_changes am)"
begin

lemma restart_tracks:
  assumes "tracks holds recovers home log a" "orderly home (machine_of log)"
  shows "\<exists>a'. standalone_new load (sa_repository a) = Ok a' \<and> tracks holds recovers home log a' \<and> \<not> sa_poisoned a' \<and>
    sm_state (sa_machine a') = sm_state (machine_of log)"
proof -
  let ?c = "BrokerState_checkpoint (sm_state (machine_of log))"
  have "recovers (sa_repository a) ?c" using assms(1) holds_recovers by (auto simp: tracks_def split: if_splits)
  then obtain r' where "load (sa_repository a) = (Ok ?c, r')" "holds r' ?c" using load_recovers by blast
  moreover obtain m' where "from_checkpoint ?c = Ok m'" "sm_state m' = sm_state (machine_of log)" "orderly home m'"
    by (rule recovered_orderly [OF assms(2)])
  ultimately show ?thesis by (auto simp: standalone_new_def tracks_def)
qed

lemma commit_tracks:
  assumes "holds (sa_repository a) (BrokerState_checkpoint s)" "writable s (sm_state m') (am_changes am)" "orderly home m'"
    and "commit io (sm_state m') (am_changes am) (sa_repository a) = (u, r')"
    and "sm_state (machine_of log) = s" "sm_state (machine_of (log @ [c])) = sm_state m'" "\<not> sa_poisoned a"
  shows "case u of Ok _ \<Rightarrow> tracks holds recovers home (log @ [c]) (a\<lparr>sa_repository := r', sa_machine := m'\<rparr>)
    | Err e \<Rightarrow> \<exists>log' \<in> {log, log @ [c]}. tracks holds recovers home log' (a\<lparr>sa_repository := r', sa_machine := m', sa_poisoned := True\<rparr>)"
proof (cases u)
  case (Inr x)
  from commit_Ok [OF assms(1,2) assms(4) [unfolded Inr]] Inr assms(3,6,7) show ?thesis by (simp add: tracks_def)
next
  case (Inl e)
  from commit_Err [OF assms(1,2) assms(4) [unfolded Inl]] Inl assms(5,6) show ?thesis by (auto simp: tracks_def)
qed

lemma propose_tracks:
  assumes "tracks holds recovers home log a" "explains home log h" "admissible c (sa_machine a)"
    and "standalone_propose (commit io) c a = (r, a')"
  shows "\<exists>log'. tracks holds recovers home log' a' \<and> explains home log' (h @ [(c, answer_of r)])"
proof (cases "sa_poisoned a")
  case True
  with assms(4) have "r = Err fail_stopped" "a' = a" by (simp_all add: standalone_propose_def)
  with explains_skip [OF assms(2)] assms(1) show ?thesis by (auto simp: answer_of_def)
next
  case False
  let ?m = "sa_machine a"
  from False assms(1) have held: "holds (sa_repository a) (BrokerState_checkpoint (sm_state ?m))" and ord: "orderly home ?m"
    and same: "sm_state ?m = sm_state (machine_of log)" by (simp_all add: tracks_def)
  note adm = admitted [OF assms(3)]
  obtain res m' where step: "broker_apply c ?m = (res, m')" by fastforce
  have ord': "orderly home m'" using orderly_apply [OF ord] adm step by (metis snd_conv)
  have inv: "broker_inv ?m" using ord by (simp add: orderly_def)
  note logged = explains_step [OF assms(2) ord same step adm]
  show ?thesis
  proof (cases res)
    case (Inl e)
    then have "sm_state m' = sm_state ?m" using failed_state [OF step [unfolded Inl] inv] adm by simp
    with Inl False step assms(4) held ord' same explains_skip [OF assms(2)] show ?thesis
      by (intro exI [of _ log]) (auto simp: standalone_propose_def tracks_def answer_of_def)
  next
    case (Inr am)
    note ok = step [unfolded Inr]
    have grow: "explains home (log @ [c]) (h @ [(c, Some (am_result am))])" using logged(2) Inr by blast
    show ?thesis
    proof (cases "st_revision (sm_state m') = st_revision (sm_state ?m)")
      case True
      then have "sm_state m' = sm_state ?m"
        using command_changes(3) [OF inv ok] revision.next_less by (metis order_less_irrefl)
      with Inr False True ok assms(4) held ord' logged(1) grow show ?thesis
        by (intro exI [of _ "log @ [c]"]) (auto simp: standalone_propose_def tracks_def answer_of_def)
    next
      case rev: False
      have w: "writable (sm_state ?m) (sm_state m') (am_changes am)"
        using admitted_writable [OF assms(3) ord _ ok rev] assms(2) same by (simp add: explains_def)
      obtain u r' where commit: "commit io (sm_state m') (am_changes am) (sa_repository a) = (u, r')" by fastforce
      note tracked = commit_tracks [OF held w ord' commit same [symmetric] logged(1) False]
      have "explains home log' (h @ [(c, None)])" if "log' \<in> {log, log @ [c]}" for log'
        using that explains_skip [OF assms(2)] logged(2) by blast
      with tracked grow Inr False rev ok assms(4) commit show ?thesis
        by (cases u) (auto simp: standalone_propose_def answer_of_def)
    qed
  qed
qed

lemma run_tracks:
  assumes "standalone_run load commit admissible r0 h a" "holds r0 (BrokerState_checkpoint BrokerState_default)"
  shows "\<exists>log. tracks holds recovers home log a \<and> explains home log h"
  using assms
proof (induction rule: standalone_run.induct)
  case (start a)
  have e: "explains home [] []"
    by (simp add: explains_def acknowledged_def bo.init_inv broker_init_def state_values_default)
  have "tracks holds recovers home [] \<lparr>sa_repository = r0, sa_machine = BrokerStateMachine_default, sa_poisoned = True\<rparr>"
    using start(2) holds_recovers by (simp add: tracks_def BrokerStateMachine_default_def)
  from restart_tracks [OF this] e start(1) show ?case by (auto simp: explains_def intro!: exI [of _ "[]"])
next
  case (propose h a c io r a')
  then show ?case using propose_tracks by blast
next
  case (restart h a a')
  then obtain log where log: "tracks holds recovers home log a" "explains home log h" by blast
  from restart_tracks [OF log(1)] log(2) restart(2) show ?case by (auto simp: explains_def)
qed

lemma run_recovers:
  assumes "standalone_run load commit admissible r0 h a" "holds r0 (BrokerState_checkpoint BrokerState_default)"
  shows "\<exists>log a'. explains home log h \<and> standalone_new load (sa_repository a) = Ok a' \<and>
    sm_state (sa_machine a') = sm_state (machine_of log) \<and>
    (\<not> sa_poisoned a \<longrightarrow> sm_state (sa_machine a) = sm_state (machine_of log))"
proof -
  obtain log where log: "tracks holds recovers home log a" "explains home log h" using run_tracks [OF assms] by blast
  from log(2) have "orderly home (machine_of log)" by (simp add: explains_def)
  from restart_tracks [OF log(1) this] log show ?thesis by (auto simp: tracks_def)
qed

end

section \<open>The journaled repository\<close>

text \<open>
  What the JSON library is relied on for: it reads back what it has written, and writes no line break;
  a final line break is accepted as white space.
\<close>

definition json_laws :: "Json \<Rightarrow> bool" where
  "json_laws json \<longleftrightarrow>
     (\<forall>w b. snapshot_to_vec json w = Ok b \<longrightarrow> snapshot_from_slice json b = Ok w) \<and>
     (\<forall>w b. journal_to_vec json w = Ok b \<longrightarrow> newline \<notin> set b \<and> is_json json (b @ [newline]) \<and>
        journal_from_slice json (b @ [newline]) = Ok w)"

definition quiet_io :: Io where
  "quiet_io = \<lparr>io_fail = (\<lambda>_. None), io_written = 0, io_replaced = False, io_truncated = False\<rparr>"

definition empty_disk :: Disk where
  "empty_disk = \<lparr>disk_snapshot = None, disk_journal = None\<rparr>"

text \<open>The step from \<open>s\<close> to \<open>s'\<close> can be recorded, as a journal record and as a snapshot.\<close>

definition recorded_step :: "Json \<Rightarrow> BrokerState \<Rightarrow> BrokerState \<Rightarrow> StateChangeSet \<Rightarrow> bool" where
  "recorded_step json s s' ch \<longleftrightarrow>
     apply_journal_mutation (BrokerState_checkpoint s) (journal_of s' ch) = Ok (True, BrokerState_checkpoint s') \<and>
     st_revision s \<le> st_revision s' \<and> snapshot_line json (BrokerState_checkpoint s') \<and>
     (\<forall>payload. encode_journal_mutation (journal_to_vec json) s' ch = Ok payload \<longrightarrow> record_line json payload (journal_of s' ch))"

interpretation journaled: state_repository "repo_load json quiet_io" "repo_commit json" "\<lambda>r. durable json [] (repo_disk r)"
  "\<lambda>r c. \<exists>tail. durable json tail (repo_disk r) c" "recorded_step json" for json
proof unfold_locales
  fix r :: JournaledBrokerStateRepository and c
  assume "\<exists>tail. durable json tail (repo_disk r) c"
  then obtain tail where d: "durable json tail (repo_disk r) c" by blast
  have "io_fail quiet_io = (\<lambda>_. None)" by (simp add: quiet_io_def)
  from load_durable [OF this d] show "\<exists>r'. repo_load json quiet_io r = (Ok c, r') \<and> durable json [] (repo_disk r') c" by metis
next
  fix r r' :: JournaledBrokerStateRepository and s s' ch io u
  assume step: "durable json [] (repo_disk r) (BrokerState_checkpoint s)" "recorded_step json s s' ch"
  have rev: "jm_revision (journal_of s' ch) = st_revision s'" "bc_revision (BrokerState_checkpoint s) = st_revision s"
    by (simp_all add: journal_of_def BrokerState_checkpoint_def)
  note rec = step(2) [unfolded recorded_step_def]
  note committed = commit_durable [where json = json and s = s' and ch = ch and jm = "journal_of s' ch", OF _ step(1)]
  show "durable json [] (repo_disk r') (BrokerState_checkpoint s')" if "repo_commit json io s' ch r = (Ok u, r')"
    using committed [OF that] rec rev by auto
  show "(\<exists>tail. durable json tail (repo_disk r') (BrokerState_checkpoint s)) \<or>
      (\<exists>tail. durable json tail (repo_disk r') (BrokerState_checkpoint s'))" if "repo_commit json io s' ch r = (Err e, r')" for e
    using committed [OF that] rec rev by auto
qed blast

lemma command_recorded:
  assumes "broker_inv m" "state_values (sm_state m)" "command_values c" "broker_apply c m = (Ok am, m')"
    and "st_revision (sm_state m') \<noteq> st_revision (sm_state m)" "json_laws json"
    and "\<And>p. encode_journal_mutation (journal_to_vec json) (sm_state m') (am_changes am) = Ok p \<Longrightarrow> length p \<le> MAX_JOURNAL_RECORD_BYTES"
  shows "recorded_step json (sm_state m) (sm_state m') (am_changes am)"
proof -
  have inv': "broker_inv m'" using bk.step_inv [OF _ assms(1), of c m'] assms(4) by (simp add: broker_step_def)
  then have wf: "entities_wf (sm_state m)" "entities_wf (sm_state m')" using assms(1) by (simp_all add: inv_ex_def)
  have vals: "state_values (sm_state m')" using broker_apply_values [OF assms(1-3)] assms(4) by simp
  note ch = command_changes [OF assms(1,4)]
  from ch(3) assms(5) have "Revision_next (st_revision (sm_state m)) = Ok (st_revision (sm_state m'))" by auto
  note rev = this revision.next_less [OF this]
  have ok: "checkpoint_ok (BrokerState_checkpoint (sm_state m'))" by (rule exported_checkpoint_ok [OF inv'])
  note valid = exported_values_ok [OF wf(2) vals]
  have deleted: "list_all (\<lambda>tid. ident (task_str tid)) (cs_deleted_tasks (am_changes am))"
    using assms(2) by (auto simp: list_all_iff state_values_def tasks_valid_def fmlookup_dom_iff dest!: subsetD [OF ch(4)])
  have nz: "st_revision (sm_state m') \<noteq> 0" using rev(2) by auto
  obtain w where w: "journal_to_wire (sm_state m') (am_changes am) = Ok w"
    "journal_from_wire w = Ok (journal_of (sm_state m') (am_changes am))"
    by (rule journal_wire_round [OF wf(2) ch(1) valid nz deleted])
  have "record_line json p (journal_of (sm_state m') (am_changes am))"
    if "encode_journal_mutation (journal_to_vec json) (sm_state m') (am_changes am) = Ok p" for p
    using that assms(6) assms(7) [OF that] w
    by (auto simp: encode_journal_mutation_def try_r_Ok record_line_def json_laws_def decode_journal_mutation_def)
  moreover have "snapshot_line json (BrokerState_checkpoint (sm_state m'))"
    using snapshot_wire_round [OF valid exported_sorted [OF wf(2)] ok] assms(6)
    by (auto simp: snapshot_line_def encode_snapshot_def decode_snapshot_def json_laws_def)
  ultimately show ?thesis
    using replay_of [OF wf ch(1,2) rev(1) ok] rev(2) by (simp add: recorded_step_def)
qed

text \<open>The commands considered: valid, orderly, and with a record that the replay will read.\<close>

definition record_fits :: "Json \<Rightarrow> BrokerState \<Rightarrow> StateChangeSet \<Rightarrow> bool" where
  "record_fits json s ch \<longleftrightarrow>
     (case encode_journal_mutation (journal_to_vec json) s ch of Err e \<Rightarrow> True | Ok p \<Rightarrow> length p \<le> MAX_JOURNAL_RECORD_BYTES)"

definition admissible :: "Json \<Rightarrow> (TaskId \<Rightarrow> NamespaceId) \<Rightarrow> BrokerCommand \<Rightarrow> BrokerStateMachine \<Rightarrow> bool" where
  "admissible json home c m \<longleftrightarrow> publishes_home home c \<and> fails_cleanly c m \<and> command_values c \<and>
     (case broker_apply c m of (Err e, m') \<Rightarrow> True | (Ok am, m') \<Rightarrow> record_fits json (sm_state m') (am_changes am))"

interpretation jb: durable_broker "repo_load json quiet_io" "repo_commit json" "\<lambda>r. durable json [] (repo_disk r)"
  "\<lambda>r c. \<exists>tail. durable json tail (repo_disk r) c" "recorded_step json" home "\<lambda>c m. json_laws json \<and> admissible json home c m"
  for json home
proof unfold_locales
  fix c m am m'
  show "publishes_home home c \<and> fails_cleanly c m \<and> command_values c" if "json_laws json \<and> admissible json home c m"
    using that by (simp add: admissible_def)
  show "recorded_step json (sm_state m) (sm_state m') (am_changes am)"
    if "json_laws json \<and> admissible json home c m" "orderly home m" "state_values (sm_state m)"
      "broker_apply c m = (Ok am, m')" "st_revision (sm_state m') \<noteq> st_revision (sm_state m)"
    using that by (intro command_recorded [of m c am m' json]) (auto simp: admissible_def orderly_def record_fits_def)
qed

lemma run_mono:
  "standalone_run load commit P r0 h a \<Longrightarrow> (\<And>c m. P c m \<Longrightarrow> Q c m) \<Longrightarrow> standalone_run load commit Q r0 h a"
  by (induction rule: standalone_run.induct) (auto intro: standalone_run.intros)

lemma empty_durable: "durable json [] (repo_disk (Repository_new policy empty_disk)) (BrokerState_checkpoint BrokerState_default)"
  by (rule durableI [of json _ empty_checkpoint "[]" "[]" "[]"])
    (simp_all add: Repository_new_def empty_disk_def disk_base_def journal_of_disk_def empty_checkpoint_def
      BrokerState_checkpoint_def BrokerState_default_def fm_values_def)

section \<open>Properties\<close>


abbreviation "wire1 \<equiv> \<lparr>jw_deleted_tasks = [], jw_groups = [], jw_namespaces = [\<lparr>nw_namespace_id = ''n'', nw_revision = 1\<rparr>],
   jw_revision = 1, jw_schema_version = SCHEMA_VERSION, jw_tasks = [], jw_term = 1\<rparr>"

definition json1 :: Json where
  "json1 = \<lparr>snapshot_to_vec = (\<lambda>_. Err ''x''), snapshot_from_slice = (\<lambda>_. Err ''x''),
     journal_to_vec = (\<lambda>w. if w = wire1 then Ok ''{}'' else Err ''x''), journal_from_slice = (\<lambda>_. Ok wire1), is_json = (\<lambda>_. True)\<rparr>"

lemma json1_laws: "json_laws json1"
  by (auto simp: json_laws_def json1_def)

lemma new_on_empty_disk:
  "standalone_new (repo_load json quiet_io) (Repository_new policy empty_disk) =
     Ok \<lparr>sa_repository = Repository_new policy empty_disk, sa_machine = BrokerStateMachine_default, sa_poisoned = False\<rparr>"
  by (simp add: standalone_new_def repo_load_def Repository_new_def empty_disk_def load_snapshot_def quiet_io_def empty_checkpoint_def
    from_checkpoint_def restore_state_def rebuild_indexes_def RestoredIndexes_default_def BrokerStateMachine_default_def
    BrokerState_default_def saturating_sub_def fm_values_def)

definition quiet_commit :: CommitIo where
  "quiet_commit = \<lparr>io_append = quiet_io, io_snapshot = quiet_io, io_truncate = quiet_io\<rparr>"

lemma ensure_ns1_acknowledged:
  "\<exists>a. standalone_propose (repo_commit json1 quiet_commit) ensure_ns1
      \<lparr>sa_repository = Repository_new JournalCompactionPolicy_default empty_disk, sa_machine = BrokerStateMachine_default, sa_poisoned = False\<rparr> =
    (Ok (BrokerMutationResult.Namespace \<lparr>nr_metadata = \<lparr>md_term = 1, md_revision = 1\<rparr>, nr_namespace_id = ns1, nr_namespace_revision = 1\<rparr>), a)"
  by (simp add: standalone_propose_def eval_broker BrokerStateMachine_default_def BrokerState_default_def Namespace_new_def
    repo_commit_def encode_journal_mutation_def journal_to_wire_def changed_entities_def json1_def Repository_new_def empty_disk_def
    quiet_commit_def quiet_io_def append_synced_def namespace_to_wire_def Namespace_checkpoint_def sync_directory_def
    checked_add_def should_compact_def JournalCompactionPolicy_default_def DEFAULT_COMPACT_EVERY_def DEFAULT_MAX_JOURNAL_BYTES_def
    word_less_nat_alt word_le_nat_alt cong: eval_cong)


text \<open>
  C10: The journal follows the broker.  Replaying the record that is written for a successful command on
  the checkpoint from before the command gives exactly the checkpoint of the broker after it; and the
  record survives being written and read.
\<close>

theorem journal_replay_follows_the_broker:
  assumes "reach broker_init valid_step m" "command_values c" "broker_apply c m = (Ok am, m')"
    and "st_revision (sm_state m') \<noteq> st_revision (sm_state m)" "json_laws json"
    and "encode_journal_mutation (journal_to_vec json) (sm_state m') (am_changes am) = Ok p" "length p \<le> MAX_JOURNAL_RECORD_BYTES"
  shows "\<exists>jm. decode_journal_mutation (journal_from_slice json) p = Ok jm \<and>
    apply_journal_mutation (BrokerState_checkpoint (sm_state m)) jm = Ok (True, BrokerState_checkpoint (sm_state m'))"
proof -
  from bv.reach_inv [OF assms(1)] have "broker_inv m" "state_values (sm_state m)" by simp_all
  then have "recorded_step json (sm_state m) (sm_state m') (am_changes am)"
    using assms by (intro command_recorded [of m c am m' json]) auto
  with assms(6) show ?thesis by (auto simp: recorded_step_def record_line_def)
qed

theorem journal_replay_follows_the_broker_witness:
  "\<exists>jm. decode_journal_mutation (journal_from_slice json1) [CHR ''{'', CHR ''}'', newline] = Ok jm \<and>
    apply_journal_mutation (BrokerState_checkpoint BrokerState_default) jm =
      Ok (True, BrokerState_checkpoint (sm_state (snd (broker_apply ensure_ns1 BrokerStateMachine_default))))"
proof -
  let ?m = BrokerStateMachine_default
  obtain am m' where step: "broker_apply ensure_ns1 ?m = (Ok am, m')" and rev: "st_revision (sm_state m') = 1"
    and enc: "encode_journal_mutation (journal_to_vec json1) (sm_state m') (am_changes am) = Ok [CHR ''{'', CHR ''}'', newline]"
    by (simp add: eval_broker BrokerStateMachine_default_def BrokerState_default_def Namespace_new_def encode_journal_mutation_def
      journal_to_wire_def changed_entities_def json1_def namespace_to_wire_def Namespace_checkpoint_def cong: eval_cong)
  have "reach broker_init valid_step ?m" by (simp add: reach.start broker_init_def)
  moreover have "command_values ensure_ns1" by (simp add: ensure_ns1_def is_ascii_alphanumeric_def)
  ultimately have "\<exists>jm. decode_journal_mutation (journal_from_slice json1) [CHR ''{'', CHR ''}'', newline] = Ok jm \<and>
      apply_journal_mutation (BrokerState_checkpoint (sm_state ?m)) jm = Ok (True, BrokerState_checkpoint (sm_state m'))"
    using step rev enc json1_laws
    by (intro journal_replay_follows_the_broker [of ?m ensure_ns1 am m' json1])
      (simp_all add: MAX_JOURNAL_RECORD_BYTES_def BrokerStateMachine_default_def BrokerState_default_def)
  with step show ?thesis by (simp add: BrokerStateMachine_default_def)
qed



definition result_matches :: "BrokerCommand \<Rightarrow> BrokerMutationResult \<Rightarrow> bool" where
  "result_matches c r \<longleftrightarrow>
     (case c of
        EnsureNamespace _ \<Rightarrow> (\<exists>x. r = BrokerMutationResult.Namespace x)
      | PublishTask _ \<Rightarrow> (\<exists>x. r = TaskPublished x)
      | EnsureConsumerGroup _ \<Rightarrow> (\<exists>x. r = BrokerMutationResult.ConsumerGroup x)
      | JoinConsumerGroup _ \<Rightarrow> (\<exists>x. r = BrokerMutationResult.ConsumerGroup x)
      | BrokerCommand.Heartbeat _ \<Rightarrow> (\<exists>x. r = BrokerMutationResult.Heartbeat x)
      | LeaveConsumerGroup _ \<Rightarrow> (\<exists>x. r = BrokerMutationResult.ConsumerGroup x)
      | ReapStaleMembers _ \<Rightarrow> (\<exists>x. r = StaleMembersReaped x)
      | ClaimTask _ \<Rightarrow> (\<exists>x. r = TaskClaim x)
      | RenewTaskLease _ \<Rightarrow> (\<exists>x. r = TaskLeaseRenewed x)
      | CompleteTask _ \<Rightarrow> (\<exists>x. r = TaskCompleted x)
      | PruneCompletedTasks _ \<Rightarrow> (\<exists>x. r = CompletedTasksPruned x)
      | AdvanceTerm _ \<Rightarrow> (\<exists>x. r = TermAdvanced x))"

lemma broker_apply_matches: "broker_apply c m = (Ok am, m') \<Longrightarrow> result_matches c (am_result am)"
  unfolding broker_apply_def by (cases c) (auto simp: applied_Ok result_matches_def)

lemma propose_matches: "fst (standalone_propose commit c a) = Ok r \<Longrightarrow> result_matches c r"
  by (auto simp: standalone_propose_def Let_def dest: broker_apply_matches split: if_splits sum.splits prod.splits)

lemma unwrapped_fails:
  assumes "\<And>r. fst (ca_propose ops c (svc_consensus s)) = Ok r \<Longrightarrow> \<exists>x. expect r = Ok x"
  shows "fst (unwrapped expect (on_consensus (ca_propose ops c) s)) = Err e \<longleftrightarrow> fst (ca_propose ops c (svc_consensus s)) = Err e"
  using assms by (cases "fst (ca_propose ops c (svc_consensus s))")
    (auto simp: unwrapped_def on_consensus_def try_r_def split: prod.splits sum.splits)

lemma result_matches_cases:
  "result_matches (EnsureNamespace n) r \<Longrightarrow> \<exists>x. expect_namespace r = Ok x"
  "result_matches (PublishTask p) r \<Longrightarrow> \<exists>x. expect_task_published r = Ok x"
  "result_matches (EnsureConsumerGroup g) r \<Longrightarrow> \<exists>x. expect_consumer_group r = Ok x"
  "result_matches (JoinConsumerGroup j) r \<Longrightarrow> \<exists>x. expect_consumer_group r = Ok x"
  "result_matches (BrokerCommand.Heartbeat h) r \<Longrightarrow> \<exists>x. expect_heartbeat r = Ok x"
  "result_matches (LeaveConsumerGroup l) r \<Longrightarrow> \<exists>x. expect_consumer_group r = Ok x"
  "result_matches (ReapStaleMembers q) r \<Longrightarrow> \<exists>x. expect_stale_members_reaped r = Ok x"
  "result_matches (ClaimTask c) r \<Longrightarrow> \<exists>x. expect_task_claim r = Ok x"
  "result_matches (RenewTaskLease w) r \<Longrightarrow> \<exists>x. expect_task_lease_renewed r = Ok x"
  "result_matches (CompleteTask d) r \<Longrightarrow> \<exists>x. expect_task_completed r = Ok x"
  "result_matches (PruneCompletedTasks u) r \<Longrightarrow> \<exists>x. expect_completed_tasks_pruned r = Ok x"
  "result_matches (AdvanceTerm a) r \<Longrightarrow> \<exists>x. expect_term_advanced r = Ok x"
  by (auto simp: result_matches_def)

definition fails_as :: "BrokerError + 'a \<Rightarrow> BrokerError + 'b \<Rightarrow> bool" where
  "fails_as x y \<longleftrightarrow> (\<forall>e. x = Err e \<longleftrightarrow> y = Err e)"

lemma service_fails_as:
  assumes "\<And>r. result_matches c r \<Longrightarrow> \<exists>x. expect r = Ok x"
  shows "fails_as (fst (unwrapped expect (on_consensus (ca_propose (standalone_adapter commit) c) s)))
    (fst (standalone_propose commit c (svc_consensus s)))"
  using unwrapped_fails [of "standalone_adapter commit" c s expect] assms propose_matches [of commit c "svc_consensus s"]
  by (simp add: fails_as_def standalone_adapter_def)


section \<open>Where durability falls short\<close>


end
