(* ===== verification/Replicated_Command.thy ===== *)
theory Replicated_Command
  imports Broker_Values Application
begin

text \<open>
  \<open>agent-broker-consensus/src/replicated_command.rs\<close> and \<open>replicated_proposal.rs\<close>: the durable
  form of a command in the Raft log, made of primitive values, with the conversions from and to
  domain commands, the comparison of retried requests, and the proposal envelope.
\<close>

section \<open>Commands of the log\<close>

datatype ReplicatedBrokerCommandV1 =
    EnsureNamespaceV1 (rc_namespace_id: string) (rc_max_namespaces: u64)
  | PublishTaskV1 (rc_namespace_id: string) (rc_task_id: string) (rc_objective: string) (rc_created_at_ms: u64)
      (rc_max_namespace_tasks: u64)
  | EnsureConsumerGroupV1 (rc_namespace_id: string) (rc_group_id: string) (rc_max_namespace_groups: u64)
  | JoinConsumerGroupV1 (rc_group_id: string) (rc_member_id: string) (rc_capabilities: "string list") (rc_now_ms: u64)
      (rc_max_group_members: u64)
  | HeartbeatV1 (rc_group_id: string) (rc_member_id: string) (rc_expected_generation: u64) (rc_now_ms: u64)
  | LeaveConsumerGroupV1 (rc_group_id: string) (rc_member_id: string) (rc_expected_generation: u64)
  | ReapStaleMembersV1 (rc_stale_before_ms: u64) (rc_max_members: u64)
  | ClaimTaskV1 (rc_group_id: string) (rc_member_id: string) (rc_expected_term: u64) (rc_expected_generation: u64)
      (rc_lease_id: string) (rc_now_ms: u64) (rc_lease_duration_ms: u64)
  | RenewTaskLeaseV1 (rc_task_id: string) (rc_group_id: string) (rc_member_id: string) (rc_expected_term: u64)
      (rc_expected_generation: u64) (rc_expected_lease_epoch: u64) (rc_lease_id: string) (rc_now_ms: u64)
      (rc_lease_duration_ms: u64)
  | CompleteTaskV1 (rc_task_id: string) (rc_group_id: string) (rc_member_id: string) (rc_expected_term: u64)
      (rc_expected_generation: u64) (rc_expected_lease_epoch: u64) (rc_lease_id: string) (rc_result: string)
      (rc_completed_at_ms: u64)
  | PruneCompletedTasksV1 (rc_completed_before_ms: u64) (rc_max_tasks: u64)
  | AdvanceTermV1 (rc_expected_term: u64) (rc_new_term: u64)
  | AcquireCommandSessionOwnerV1 (rc_session_id: string) (rc_expected_owner_epoch: u64) (rc_owner_instance_id: string)

section \<open>Retried requests\<close>

definition same_claim_request :: "ReplicatedBrokerCommandV1 \<Rightarrow> ReplicatedBrokerCommandV1 \<Rightarrow> bool" where
  "same_claim_request left right =
     (case left of
        ClaimTaskV1 gid mid tm gen lid _ duration \<Rightarrow>
          (case right of
             ClaimTaskV1 gid' mid' tm' gen' lid' _ duration' \<Rightarrow>
               gid = gid' \<and> mid = mid' \<and> tm = tm' \<and> gen = gen' \<and> lid = lid' \<and> duration = duration'
           | _ \<Rightarrow> False)
      | _ \<Rightarrow> False)"

definition same_renew_request :: "ReplicatedBrokerCommandV1 \<Rightarrow> ReplicatedBrokerCommandV1 \<Rightarrow> bool" where
  "same_renew_request left right =
     (case left of
        RenewTaskLeaseV1 tid gid mid tm gen epoch lid _ duration \<Rightarrow>
          (case right of
             RenewTaskLeaseV1 tid' gid' mid' tm' gen' epoch' lid' _ duration' \<Rightarrow>
               tid = tid' \<and> gid = gid' \<and> mid = mid' \<and> tm = tm' \<and> gen = gen' \<and> epoch = epoch' \<and>
               lid = lid' \<and> duration = duration'
           | _ \<Rightarrow> False)
      | _ \<Rightarrow> False)"

definition same_complete_request :: "ReplicatedBrokerCommandV1 \<Rightarrow> ReplicatedBrokerCommandV1 \<Rightarrow> bool" where
  "same_complete_request left right =
     (case left of
        CompleteTaskV1 tid gid mid tm gen epoch lid result _ \<Rightarrow>
          (case right of
             CompleteTaskV1 tid' gid' mid' tm' gen' epoch' lid' result' _ \<Rightarrow>
               tid = tid' \<and> gid = gid' \<and> mid = mid' \<and> tm = tm' \<and> gen = gen' \<and> epoch = epoch' \<and>
               lid = lid' \<and> result = result'
           | _ \<Rightarrow> False)
      | _ \<Rightarrow> False)"

definition same_identified_request :: "ReplicatedBrokerCommandV1 \<Rightarrow> ReplicatedBrokerCommandV1 \<Rightarrow> bool" where
  "same_identified_request self other =
     (case self of
        EnsureNamespaceV1 ns _ \<Rightarrow> (case other of EnsureNamespaceV1 ns' _ \<Rightarrow> ns = ns' | _ \<Rightarrow> False)
      | PublishTaskV1 ns tid objective _ _ \<Rightarrow>
          (case other of PublishTaskV1 ns' tid' objective' _ _ \<Rightarrow> ns = ns' \<and> tid = tid' \<and> objective = objective' | _ \<Rightarrow> False)
      | EnsureConsumerGroupV1 ns gid _ \<Rightarrow>
          (case other of EnsureConsumerGroupV1 ns' gid' _ \<Rightarrow> ns = ns' \<and> gid = gid' | _ \<Rightarrow> False)
      | JoinConsumerGroupV1 gid mid caps _ _ \<Rightarrow>
          (case other of JoinConsumerGroupV1 gid' mid' caps' _ _ \<Rightarrow> gid = gid' \<and> mid = mid' \<and> caps = caps' | _ \<Rightarrow> False)
      | HeartbeatV1 gid mid gen _ \<Rightarrow>
          (case other of HeartbeatV1 gid' mid' gen' _ \<Rightarrow> gid = gid' \<and> mid = mid' \<and> gen = gen' | _ \<Rightarrow> False)
      | LeaveConsumerGroupV1 _ _ _ \<Rightarrow> (case other of LeaveConsumerGroupV1 _ _ _ \<Rightarrow> self = other | _ \<Rightarrow> False)
      | ReapStaleMembersV1 _ _ \<Rightarrow> (case other of ReapStaleMembersV1 _ _ \<Rightarrow> self = other | _ \<Rightarrow> False)
      | PruneCompletedTasksV1 _ _ \<Rightarrow> (case other of PruneCompletedTasksV1 _ _ \<Rightarrow> self = other | _ \<Rightarrow> False)
      | AdvanceTermV1 _ _ \<Rightarrow> (case other of AdvanceTermV1 _ _ \<Rightarrow> self = other | _ \<Rightarrow> False)
      | AcquireCommandSessionOwnerV1 _ _ _ \<Rightarrow> (case other of AcquireCommandSessionOwnerV1 _ _ _ \<Rightarrow> self = other | _ \<Rightarrow> False)
      | ClaimTaskV1 _ _ _ _ _ _ _ \<Rightarrow> (case other of ClaimTaskV1 _ _ _ _ _ _ _ \<Rightarrow> same_claim_request self other | _ \<Rightarrow> False)
      | RenewTaskLeaseV1 _ _ _ _ _ _ _ _ _ \<Rightarrow> (case other of RenewTaskLeaseV1 _ _ _ _ _ _ _ _ _ \<Rightarrow> same_renew_request self other | _ \<Rightarrow> False)
      | CompleteTaskV1 _ _ _ _ _ _ _ _ _ \<Rightarrow> (case other of CompleteTaskV1 _ _ _ _ _ _ _ _ _ \<Rightarrow> same_complete_request self other | _ \<Rightarrow> False))"

section \<open>Conversion from the domain\<close>

datatype ReplicatedCommandError = ReplicatedCommandError (rce_message: string)

definition rc_validation_error :: "('e \<Rightarrow> string) \<Rightarrow> 'e \<Rightarrow> ReplicatedCommandError" where
  "rc_validation_error display e =
     ReplicatedCommandError (''replicated Broker command failed domain validation: '' @ display e)"

text \<open>
  \<open>u64::try_from(usize)\<close> and \<open>usize::try_from(u64)\<close> with the error the caller makes of a failure; a
  \<open>usize\<close> has 64 bits.
\<close>

definition usize_to_u64 :: "(string \<Rightarrow> 'e) \<Rightarrow> usize \<Rightarrow> string \<Rightarrow> 'e + u64" where
  "usize_to_u64 err n field =
     (if n < 2 ^ 64 then Ok (of_nat n) else Err (err (field @ '' cannot be represented as u64'')))"

definition u64_to_usize :: "(string \<Rightarrow> 'e) \<Rightarrow> u64 \<Rightarrow> string \<Rightarrow> 'e + usize" where
  "u64_to_usize err v field =
     (if unat v < 2 ^ 64 then Ok (unat v) else Err (err (field @ '' exceeds platform usize'')))"

abbreviation "rc_usize_to_u64 \<equiv> usize_to_u64 ReplicatedCommandError"
abbreviation "rc_u64_to_usize \<equiv> u64_to_usize ReplicatedCommandError"

definition to_replicated_command :: "BrokerCommand \<Rightarrow> ReplicatedCommandError + ReplicatedBrokerCommandV1" where
  "to_replicated_command command =
     (case command of
        EnsureNamespace c \<Rightarrow>
          try_r (rc_usize_to_u64 (en_max_namespaces c) ''max_namespaces'') (\<lambda>n.
          Ok (EnsureNamespaceV1 (ns_str (en_namespace_id c)) n))
      | PublishTask c \<Rightarrow>
          try_r (rc_usize_to_u64 (pt_max_namespace_tasks c) ''max_namespace_tasks'') (\<lambda>n.
          Ok (PublishTaskV1 (ns_str (pt_namespace_id c)) (task_str (pt_task_id c)) (pt_objective c) (pt_created_at_ms c) n))
      | EnsureConsumerGroup c \<Rightarrow>
          try_r (rc_usize_to_u64 (eg_max_namespace_groups c) ''max_namespace_groups'') (\<lambda>n.
          Ok (EnsureConsumerGroupV1 (ns_str (eg_namespace_id c)) (group_str (eg_group_id c)) n))
      | JoinConsumerGroup c \<Rightarrow>
          try_r (rc_usize_to_u64 (jg_max_group_members c) ''max_group_members'') (\<lambda>n.
          Ok (JoinConsumerGroupV1 (group_str (jg_group_id c)) (consumer_str (jg_member_id c)) (map cap_str (jg_capabilities c))
                (jg_now_ms c) n))
      | BrokerCommand.Heartbeat c \<Rightarrow>
          Ok (HeartbeatV1 (group_str (hb_group_id c)) (consumer_str (hb_member_id c)) (hb_expected_generation c) (hb_now_ms c))
      | LeaveConsumerGroup c \<Rightarrow>
          Ok (LeaveConsumerGroupV1 (group_str (lg_group_id c)) (consumer_str (lg_member_id c)) (lg_expected_generation c))
      | ReapStaleMembers c \<Rightarrow>
          try_r (rc_usize_to_u64 (rs_max_members c) ''max_members'') (\<lambda>n. Ok (ReapStaleMembersV1 (rs_stale_before_ms c) n))
      | ClaimTask c \<Rightarrow>
          Ok (ClaimTaskV1 (group_str (ct_group_id c)) (consumer_str (ct_member_id c)) (ct_expected_term c)
                (ct_expected_generation c) (lease_str (ct_lease_id c)) (ct_now_ms c) (ct_lease_duration_ms c))
      | RenewTaskLease c \<Rightarrow>
          Ok (RenewTaskLeaseV1 (task_str (rl_task_id c)) (group_str (rl_group_id c)) (consumer_str (rl_member_id c))
                (rl_expected_term c) (rl_expected_generation c) (rl_expected_lease_epoch c) (lease_str (rl_lease_id c))
                (rl_now_ms c) (rl_lease_duration_ms c))
      | CompleteTask c \<Rightarrow>
          Ok (CompleteTaskV1 (task_str (cm_task_id c)) (group_str (cm_group_id c)) (consumer_str (cm_member_id c))
                (cm_expected_term c) (cm_expected_generation c) (cm_expected_lease_epoch c) (lease_str (cm_lease_id c))
                (cm_result c) (cm_completed_at_ms c))
      | PruneCompletedTasks c \<Rightarrow>
          try_r (rc_usize_to_u64 (pc_max_tasks c) ''max_tasks'') (\<lambda>n. Ok (PruneCompletedTasksV1 (pc_completed_before_ms c) n))
      | AdvanceTerm c \<Rightarrow> Ok (AdvanceTermV1 (at_expected_term c) (at_new_term c)))"

section \<open>Conversion to the domain\<close>

text \<open>Each validated constructor with the error message of the conversion.\<close>

abbreviation "rc_id new raw \<equiv> map_err (rc_validation_error IdentifierError_display) (new raw)"
abbreviation "rc_term raw \<equiv> map_err (rc_validation_error FencingValueError_display) (Term_new raw)"

definition convert_coordination_command :: "ReplicatedBrokerCommandV1 \<Rightarrow> ReplicatedCommandError + BrokerCommand" where
  "convert_coordination_command command =
     (case command of
        EnsureNamespaceV1 ns n \<Rightarrow>
          try_r (rc_id NamespaceId_new ns) (\<lambda>ns.
          try_r (rc_u64_to_usize n ''max_namespaces'') (\<lambda>n.
          Ok (EnsureNamespace \<lparr>en_namespace_id = ns, en_max_namespaces = n\<rparr>)))
      | PublishTaskV1 ns tid objective created n \<Rightarrow>
          try_r (rc_id NamespaceId_new ns) (\<lambda>ns.
          try_r (rc_id TaskId_new tid) (\<lambda>tid.
          try_r (map_err (rc_validation_error TaskTextError_display) (TaskObjective_new objective)) (\<lambda>objective.
          try_r (rc_u64_to_usize n ''max_namespace_tasks'') (\<lambda>n.
          Ok (PublishTask \<lparr>pt_namespace_id = ns, pt_task_id = tid, pt_objective = objective,
                pt_created_at_ms = created, pt_max_namespace_tasks = n\<rparr>)))))
      | EnsureConsumerGroupV1 ns gid n \<Rightarrow>
          try_r (rc_id NamespaceId_new ns) (\<lambda>ns.
          try_r (rc_id ConsumerGroupId_new gid) (\<lambda>gid.
          try_r (rc_u64_to_usize n ''max_namespace_groups'') (\<lambda>n.
          Ok (EnsureConsumerGroup \<lparr>eg_namespace_id = ns, eg_group_id = gid, eg_max_namespace_groups = n\<rparr>))))
      | JoinConsumerGroupV1 gid mid caps now n \<Rightarrow>
          try_r (rc_id ConsumerGroupId_new gid) (\<lambda>gid.
          try_r (rc_id ConsumerId_new mid) (\<lambda>mid.
          try_r (map_err (rc_validation_error CapabilitiesError_display) (Capabilities_new caps)) (\<lambda>caps.
          try_r (rc_u64_to_usize n ''max_group_members'') (\<lambda>n.
          Ok (JoinConsumerGroup \<lparr>jg_group_id = gid, jg_member_id = mid, jg_capabilities = caps, jg_now_ms = now,
                jg_max_group_members = n\<rparr>)))))
      | HeartbeatV1 gid mid gen now \<Rightarrow>
          try_r (rc_id ConsumerGroupId_new gid) (\<lambda>gid.
          try_r (rc_id ConsumerId_new mid) (\<lambda>mid.
          Ok (BrokerCommand.Heartbeat \<lparr>hb_group_id = gid, hb_member_id = mid, hb_expected_generation = gen, hb_now_ms = now\<rparr>)))
      | LeaveConsumerGroupV1 gid mid gen \<Rightarrow>
          try_r (rc_id ConsumerGroupId_new gid) (\<lambda>gid.
          try_r (rc_id ConsumerId_new mid) (\<lambda>mid.
          Ok (LeaveConsumerGroup \<lparr>lg_group_id = gid, lg_member_id = mid, lg_expected_generation = gen\<rparr>)))
      | ReapStaleMembersV1 before n \<Rightarrow>
          try_r (rc_u64_to_usize n ''max_members'') (\<lambda>n.
          Ok (ReapStaleMembers \<lparr>rs_stale_before_ms = before, rs_max_members = n\<rparr>))
      | _ \<Rightarrow> Err (ReplicatedCommandError ''replicated Broker command was routed to the wrong conversion family''))"

definition to_broker_command :: "ReplicatedBrokerCommandV1 \<Rightarrow> ReplicatedCommandError + BrokerCommand" where
  "to_broker_command command =
     (case command of
        ClaimTaskV1 gid mid tm gen lid now duration \<Rightarrow>
          try_r (rc_id ConsumerGroupId_new gid) (\<lambda>gid.
          try_r (rc_id ConsumerId_new mid) (\<lambda>mid.
          try_r (rc_term tm) (\<lambda>tm.
          try_r (rc_id LeaseId_new lid) (\<lambda>lid.
          Ok (ClaimTask \<lparr>ct_group_id = gid, ct_member_id = mid, ct_expected_term = tm, ct_expected_generation = gen,
                ct_lease_id = lid, ct_now_ms = now, ct_lease_duration_ms = duration\<rparr>)))))
      | RenewTaskLeaseV1 tid gid mid tm gen epoch lid now duration \<Rightarrow>
          try_r (rc_id TaskId_new tid) (\<lambda>tid.
          try_r (rc_id ConsumerGroupId_new gid) (\<lambda>gid.
          try_r (rc_id ConsumerId_new mid) (\<lambda>mid.
          try_r (rc_term tm) (\<lambda>tm.
          try_r (rc_id LeaseId_new lid) (\<lambda>lid.
          Ok (RenewTaskLease \<lparr>rl_task_id = tid, rl_group_id = gid, rl_member_id = mid, rl_expected_term = tm,
                rl_expected_generation = gen, rl_expected_lease_epoch = epoch, rl_lease_id = lid, rl_now_ms = now,
                rl_lease_duration_ms = duration\<rparr>))))))
      | CompleteTaskV1 tid gid mid tm gen epoch lid result completed_at \<Rightarrow>
          try_r (rc_id TaskId_new tid) (\<lambda>tid.
          try_r (rc_id ConsumerGroupId_new gid) (\<lambda>gid.
          try_r (rc_id ConsumerId_new mid) (\<lambda>mid.
          try_r (rc_term tm) (\<lambda>tm.
          try_r (rc_id LeaseId_new lid) (\<lambda>lid.
          try_r (map_err (rc_validation_error TaskTextError_display) (TaskResult_new result)) (\<lambda>result.
          Ok (CompleteTask \<lparr>cm_task_id = tid, cm_group_id = gid, cm_member_id = mid, cm_expected_term = tm,
                cm_expected_generation = gen, cm_expected_lease_epoch = epoch, cm_lease_id = lid, cm_result = result,
                cm_completed_at_ms = completed_at\<rparr>)))))))
      | PruneCompletedTasksV1 before n \<Rightarrow>
          try_r (rc_u64_to_usize n ''max_tasks'') (\<lambda>n.
          Ok (PruneCompletedTasks \<lparr>pc_completed_before_ms = before, pc_max_tasks = n\<rparr>))
      | AdvanceTermV1 expected new \<Rightarrow>
          try_r (rc_term expected) (\<lambda>expected.
          try_r (rc_term new) (\<lambda>new.
          Ok (AdvanceTerm \<lparr>at_expected_term = expected, at_new_term = new\<rparr>)))
      | AcquireCommandSessionOwnerV1 _ _ _ \<Rightarrow>
          Err (ReplicatedCommandError ''command-session owner acquisition is consensus-owned and cannot become a Broker domain command'')
      | coordination \<Rightarrow> convert_coordination_command coordination)"

section \<open>Proposals\<close>

record ReplicatedCommandIdentityV1 =
  ri_session_id :: string
  ri_owner_epoch :: u64
  ri_owner_instance_id :: "string option"
  ri_sequence :: u64

record ReplicatedBrokerProposalV1 =
  rp_identity :: "ReplicatedCommandIdentityV1 option"
  rp_command :: ReplicatedBrokerCommandV1

definition from_identity :: "CommandIdentity \<Rightarrow> ReplicatedCommandIdentityV1" where
  "from_identity identity =
     \<lparr>ri_session_id = session_str (ci_session_id identity), ri_owner_epoch = ci_owner_epoch identity,
      ri_owner_instance_id = map_option instance_str (ci_owner_instance_id identity), ri_sequence = ci_sequence identity\<rparr>"

definition proposal_legacy :: "ReplicatedBrokerCommandV1 \<Rightarrow> ReplicatedBrokerProposalV1" where
  "proposal_legacy command = \<lparr>rp_identity = None, rp_command = command\<rparr>"

definition proposal_identified :: "CommandIdentity \<Rightarrow> ReplicatedBrokerCommandV1 \<Rightarrow> ReplicatedBrokerProposalV1" where
  "proposal_identified identity command = \<lparr>rp_identity = Some (from_identity identity), rp_command = command\<rparr>"

definition proposal_try_from :: "BrokerCommand \<Rightarrow> ReplicatedCommandError + ReplicatedBrokerProposalV1" where
  "proposal_try_from command = try_r (to_replicated_command command) (\<lambda>c. Ok (proposal_legacy c))"

definition identity_validation_error :: "CommandIdentityError \<Rightarrow> ReplicatedCommandError" where
  "identity_validation_error e =
     ReplicatedCommandError (''invalid replicated command identity: '' @ CommandIdentityError_display e)"

text \<open>\<open>Option::map(f).transpose()\<close>.\<close>

definition transposed :: "('a \<Rightarrow> 'e + 'b) \<Rightarrow> 'a option \<Rightarrow> 'e + 'b option" where
  "transposed f x = (case x of None \<Rightarrow> Ok None | Some a \<Rightarrow> try_r (f a) (\<lambda>b. Ok (Some b)))"

definition to_identity :: "ReplicatedCommandIdentityV1 \<Rightarrow> ReplicatedCommandError + CommandIdentity" where
  "to_identity identity =
     try_r (map_err identity_validation_error (CommandSessionId_new (ri_session_id identity))) (\<lambda>session_id.
     try_r (map_err identity_validation_error (SessionOwnerEpoch_new (ri_owner_epoch identity))) (\<lambda>owner_epoch.
     try_r (map_err identity_validation_error (transposed SessionOwnerInstanceId_new (ri_owner_instance_id identity))) (\<lambda>owner.
     try_r (map_err identity_validation_error (CommandSequence_new (ri_sequence identity))) (\<lambda>sequence.
     Ok (case owner of
           Some owner_instance_id \<Rightarrow> new_with_owner session_id owner_epoch owner_instance_id sequence
         | None \<Rightarrow> new_with_owner_epoch session_id owner_epoch sequence)))))"

definition into_parts ::
  "ReplicatedBrokerProposalV1 \<Rightarrow> ReplicatedCommandError + CommandIdentity option \<times> ReplicatedBrokerCommandV1" where
  "into_parts p = try_r (transposed to_identity (rp_identity p)) (\<lambda>identity. Ok (identity, rp_command p))"

section \<open>Commands survive the log\<close>

text \<open>What the constructors of the domain types guarantee of every field of a command.\<close>

fun command_ok :: "BrokerCommand \<Rightarrow> bool" where
  "command_ok (EnsureNamespace c) \<longleftrightarrow> ident (ns_str (en_namespace_id c)) \<and> en_max_namespaces c < 2 ^ 64"
| "command_ok (PublishTask c) \<longleftrightarrow>
     ident (ns_str (pt_namespace_id c)) \<and> ident (task_str (pt_task_id c)) \<and> valid_text MAX_OBJECTIVE_BYTES (pt_objective c) \<and>
     pt_max_namespace_tasks c < 2 ^ 64"
| "command_ok (EnsureConsumerGroup c) \<longleftrightarrow>
     ident (ns_str (eg_namespace_id c)) \<and> ident (group_str (eg_group_id c)) \<and> eg_max_namespace_groups c < 2 ^ 64"
| "command_ok (JoinConsumerGroup c) \<longleftrightarrow>
     ident (group_str (jg_group_id c)) \<and> ident (consumer_str (jg_member_id c)) \<and> normalized (jg_capabilities c) \<and>
     jg_max_group_members c < 2 ^ 64"
| "command_ok (BrokerCommand.Heartbeat c) \<longleftrightarrow> ident (group_str (hb_group_id c)) \<and> ident (consumer_str (hb_member_id c))"
| "command_ok (LeaveConsumerGroup c) \<longleftrightarrow> ident (group_str (lg_group_id c)) \<and> ident (consumer_str (lg_member_id c))"
| "command_ok (ReapStaleMembers c) \<longleftrightarrow> rs_max_members c < 2 ^ 64"
| "command_ok (ClaimTask c) \<longleftrightarrow>
     ident (group_str (ct_group_id c)) \<and> ident (consumer_str (ct_member_id c)) \<and> ct_expected_term c \<noteq> 0 \<and>
     ident (lease_str (ct_lease_id c))"
| "command_ok (RenewTaskLease c) \<longleftrightarrow>
     ident (task_str (rl_task_id c)) \<and> ident (group_str (rl_group_id c)) \<and> ident (consumer_str (rl_member_id c)) \<and>
     rl_expected_term c \<noteq> 0 \<and> ident (lease_str (rl_lease_id c))"
| "command_ok (CompleteTask c) \<longleftrightarrow>
     ident (task_str (cm_task_id c)) \<and> ident (group_str (cm_group_id c)) \<and> ident (consumer_str (cm_member_id c)) \<and>
     cm_expected_term c \<noteq> 0 \<and> ident (lease_str (cm_lease_id c)) \<and> valid_text MAX_RESULT_BYTES (cm_result c)"
| "command_ok (PruneCompletedTasks c) \<longleftrightarrow> pc_max_tasks c < 2 ^ 64"
| "command_ok (AdvanceTerm c) \<longleftrightarrow> at_expected_term c \<noteq> 0 \<and> at_new_term c \<noteq> 0"

definition identity_ok :: "CommandIdentity \<Rightarrow> bool" where
  "identity_ok i \<longleftrightarrow> ident (session_str (ci_session_id i)) \<and> ci_owner_epoch i \<noteq> 0 \<and> ci_sequence i \<noteq> 0 \<and>
     (\<forall>owner. ci_owner_instance_id i = Some owner \<longrightarrow> ident (instance_str owner))"

lemma usize_u64 [simp]:
  "usize_to_u64 err n field = Ok v \<longleftrightarrow> n < 18446744073709551616 \<and> v = of_nat n"
  "u64_to_usize err v field = Ok n \<longleftrightarrow> n = unat v"
  by (auto simp: usize_to_u64_def u64_to_usize_def)

lemma u64_to_usize_Ok [simp]: "u64_to_usize err v field = Ok (unat v)"
  by simp

lemma usize_to_u64_Ok: "n < 18446744073709551616 \<Longrightarrow> usize_to_u64 err n field = Ok (of_nat n)"
  by simp

lemma usize_round [simp]: "n < 18446744073709551616 \<Longrightarrow> unat (of_nat n :: u64) = n"
  by (simp add: unat_of_nat)

lemma Term_new_Ok [simp]: "Term_new v = Ok w \<longleftrightarrow> v \<noteq> 0 \<and> w = v"
  by (auto simp: Term_new_def)

lemma Term_new_valid: "v \<noteq> 0 \<Longrightarrow> Term_new v = Ok v"
  by simp

lemmas command_conversions = to_replicated_command_def to_broker_command_def convert_coordination_command_def

lemma command_round:
  assumes "command_ok c"
  shows "\<exists>r. to_replicated_command c = Ok r \<and> to_broker_command r = Ok c"
  using assms
  by (cases c) (auto simp: command_conversions try_r_Ok usize_to_u64_Ok reparse_ids text_new_valid Term_new_valid capabilities_reparse)

lemma to_broker_command_ok: "to_broker_command r = Ok c \<Longrightarrow> command_ok c"
  by (cases r)
    (auto simp: command_conversions try_r_Ok nsid.new_Ok_iff tid.new_Ok_iff gid.new_Ok_iff cid.new_Ok_iff lid.new_Ok_iff
      dest: Capabilities_new_normalized)

lemma command_ok_values: "command_ok c \<Longrightarrow> command_values c"
  by (cases c) auto

lemma identity_round: "identity_ok i \<Longrightarrow> to_identity (from_identity i) = Ok i"
  by (cases i; cases "ci_owner_instance_id i")
    (auto simp: identity_ok_def to_identity_def from_identity_def transposed_def sessionid.reparse instanceid.reparse
      SessionOwnerEpoch_new_def CommandSequence_new_def new_with_owner_def new_with_owner_epoch_def)

lemma to_identity_ok: "to_identity r = Ok i \<Longrightarrow> identity_ok i \<and> from_identity i = r"
  by (cases r; cases "ri_owner_instance_id r")
    (auto simp: identity_ok_def to_identity_def from_identity_def transposed_def try_r_Ok sessionid.new_Ok_iff instanceid.new_Ok_iff
      SessionOwnerEpoch_new_def CommandSequence_new_def new_with_owner_def new_with_owner_epoch_def split: if_splits)

section \<open>What identifies a request\<close>

text \<open>A command without the values the server puts in: its clock readings and its limits.\<close>

fun caller_content :: "ReplicatedBrokerCommandV1 \<Rightarrow> ReplicatedBrokerCommandV1" where
  "caller_content (EnsureNamespaceV1 ns _) = EnsureNamespaceV1 ns 0"
| "caller_content (PublishTaskV1 ns tid objective _ _) = PublishTaskV1 ns tid objective 0 0"
| "caller_content (EnsureConsumerGroupV1 ns gid _) = EnsureConsumerGroupV1 ns gid 0"
| "caller_content (JoinConsumerGroupV1 gid mid caps _ _) = JoinConsumerGroupV1 gid mid caps 0 0"
| "caller_content (HeartbeatV1 gid mid gen _) = HeartbeatV1 gid mid gen 0"
| "caller_content (ClaimTaskV1 gid mid tm gen lid _ duration) = ClaimTaskV1 gid mid tm gen lid 0 duration"
| "caller_content (RenewTaskLeaseV1 tid gid mid tm gen epoch lid _ duration) = RenewTaskLeaseV1 tid gid mid tm gen epoch lid 0 duration"
| "caller_content (CompleteTaskV1 tid gid mid tm gen epoch lid result _) = CompleteTaskV1 tid gid mid tm gen epoch lid result 0"
| "caller_content r = r"

lemma same_identified_request_iff: "same_identified_request a b \<longleftrightarrow> caller_content a = caller_content b"
  by (cases a; cases b)
    (simp_all add: same_identified_request_def same_claim_request_def same_renew_request_def same_complete_request_def)

lemma same_identified_request_refl [simp]: "same_identified_request a a"
  by (simp add: same_identified_request_iff)

end
