(* ===== verification/Replicated_Response.thy ===== *)
theory Replicated_Response
  imports Replicated_Command
begin

text \<open>
  \<open>agent-broker-consensus/src/replicated_response.rs\<close>: the response of a replica to a log entry, made of
  primitive values, and its conversions from and to application results.
\<close>

section \<open>Errors\<close>

datatype ReplicatedBrokerErrorCodeV1 =
    InvalidRequestV1 | NotFoundV1 | ConflictV1 | CapacityExceededV1 | StaleFenceV1 | PersistenceErrorV1 | TransportErrorV1
  | CommitOutcomeUnknownV1 | InternalErrorV1

datatype ReplicatedBrokerErrorDispositionV1 = CommittedV1 | RejectedV1 | UnknownV1

record ReplicatedBrokerErrorV1 =
  re_code :: ReplicatedBrokerErrorCodeV1
  re_message :: string
  re_disposition :: ReplicatedBrokerErrorDispositionV1

fun to_disposition_v1 :: "BrokerErrorDisposition \<Rightarrow> ReplicatedBrokerErrorDispositionV1" where
  "to_disposition_v1 Committed = CommittedV1"
| "to_disposition_v1 Rejected = RejectedV1"
| "to_disposition_v1 Unknown = UnknownV1"

fun from_disposition_v1 :: "ReplicatedBrokerErrorDispositionV1 \<Rightarrow> BrokerErrorDisposition" where
  "from_disposition_v1 CommittedV1 = Committed"
| "from_disposition_v1 RejectedV1 = Rejected"
| "from_disposition_v1 UnknownV1 = Unknown"

fun to_code_v1 :: "BrokerErrorCode \<Rightarrow> ReplicatedBrokerErrorCodeV1" where
  "to_code_v1 InvalidRequest = InvalidRequestV1"
| "to_code_v1 NotFound = NotFoundV1"
| "to_code_v1 Conflict = ConflictV1"
| "to_code_v1 BrokerErrorCode.CapacityExceeded = CapacityExceededV1"
| "to_code_v1 StaleFence = StaleFenceV1"
| "to_code_v1 PersistenceError = PersistenceErrorV1"
| "to_code_v1 TransportError = TransportErrorV1"
| "to_code_v1 CommitOutcomeUnknown = CommitOutcomeUnknownV1"
| "to_code_v1 InternalError = InternalErrorV1"

fun from_code_v1 :: "ReplicatedBrokerErrorCodeV1 \<Rightarrow> BrokerErrorCode" where
  "from_code_v1 InvalidRequestV1 = InvalidRequest"
| "from_code_v1 NotFoundV1 = NotFound"
| "from_code_v1 ConflictV1 = Conflict"
| "from_code_v1 CapacityExceededV1 = BrokerErrorCode.CapacityExceeded"
| "from_code_v1 StaleFenceV1 = StaleFence"
| "from_code_v1 PersistenceErrorV1 = PersistenceError"
| "from_code_v1 TransportErrorV1 = TransportError"
| "from_code_v1 CommitOutcomeUnknownV1 = CommitOutcomeUnknown"
| "from_code_v1 InternalErrorV1 = InternalError"

definition to_error_v1 :: "BrokerError \<Rightarrow> ReplicatedBrokerErrorV1" where
  "to_error_v1 e =
     \<lparr>re_code = to_code_v1 (be_code e), re_message = be_message e, re_disposition = to_disposition_v1 (be_disposition e)\<rparr>"

definition from_error_v1 :: "ReplicatedBrokerErrorV1 \<Rightarrow> BrokerError" where
  "from_error_v1 e =
     with_disposition (from_disposition_v1 (re_disposition e)) (BrokerError_new (from_code_v1 (re_code e)) (re_message e))"

section \<open>Results\<close>

record ReplicatedMutationMetadataV1 =
  rm_term :: u64
  rm_revision :: u64

datatype ReplicatedTaskStatusV1 = QueuedV1 | LeasedV1 | CompletedV1

datatype ReplicatedBrokerMutationResultV1 =
    NamespaceV1 ReplicatedMutationMetadataV1 (rv_namespace_id: string) (rv_namespace_revision: u64)
  | TaskPublishedV1 ReplicatedMutationMetadataV1 (rv_task_id: string) (rv_task_revision: u64) (rv_status: ReplicatedTaskStatusV1)
  | ConsumerGroupV1 ReplicatedMutationMetadataV1 (rv_group_id: string) (rv_generation: u64) (rv_group_revision: u64)
      (rv_member_count: u64)
  | HeartbeatResultV1 ReplicatedMutationMetadataV1 (rv_group_id: string) (rv_member_id: string) (rv_generation: u64)
      (rv_member_revision: u64)
  | StaleMembersReapedV1 ReplicatedMutationMetadataV1 (rv_reaped_count: u64) (rv_affected_group_count: u64)
  | TaskClaimV1 ReplicatedMutationMetadataV1 (rv_claim_task_id: "string option") (rv_claim_objective: "string option")
      (rv_claim_task_revision: "u64 option") (rv_claim_lease_id: "string option") (rv_claim_lease_epoch: "u64 option")
      (rv_claim_lease_expires_at_ms: "u64 option") (rv_generation: u64)
  | TaskLeaseRenewedV1 ReplicatedMutationMetadataV1 (rv_task_id: string) (rv_task_revision: u64) (rv_lease_id: string)
      (rv_lease_epoch: u64) (rv_lease_expires_at_ms: u64) (rv_generation: u64)
  | TaskCompletedV1 ReplicatedMutationMetadataV1 (rv_task_id: string) (rv_task_revision: u64) (rv_status: ReplicatedTaskStatusV1)
  | CompletedTasksPrunedV1 ReplicatedMutationMetadataV1 (rv_pruned_count: u64)
  | TermAdvancedV1 ReplicatedMutationMetadataV1

datatype ReplicatedBrokerResponseV1 =
    RaftControl
  | SessionOwnerAcquired u64
  | Success ReplicatedBrokerMutationResultV1
  | ApplicationError ReplicatedBrokerErrorV1

datatype ReplicatedResponseError = ReplicatedResponseError (rre_message: string)

definition rs_validation_error :: "('e \<Rightarrow> string) \<Rightarrow> 'e \<Rightarrow> ReplicatedResponseError" where
  "rs_validation_error display e =
     ReplicatedResponseError (''replicated Broker response failed domain validation: '' @ display e)"

abbreviation "rs_usize_to_u64 \<equiv> usize_to_u64 ReplicatedResponseError"
abbreviation "rs_u64_to_usize \<equiv> u64_to_usize ReplicatedResponseError"
abbreviation "rs_id new raw \<equiv> map_err (rs_validation_error IdentifierError_display) (new raw)"

definition to_metadata_v1 :: "MutationMetadata \<Rightarrow> ReplicatedMutationMetadataV1" where
  "to_metadata_v1 m = \<lparr>rm_term = md_term m, rm_revision = md_revision m\<rparr>"

definition from_metadata_v1 :: "ReplicatedMutationMetadataV1 \<Rightarrow> ReplicatedResponseError + MutationMetadata" where
  "from_metadata_v1 m =
     try_r (map_err (rs_validation_error FencingValueError_display) (Term_new (rm_term m))) (\<lambda>tm.
     Ok \<lparr>md_term = tm, md_revision = rm_revision m\<rparr>)"

fun to_status_v1 :: "TaskStatus \<Rightarrow> ReplicatedTaskStatusV1" where
  "to_status_v1 TaskStatus.Queued = QueuedV1"
| "to_status_v1 TaskStatus.Leased = LeasedV1"
| "to_status_v1 TaskStatus.Completed = CompletedV1"

fun from_status_v1 :: "ReplicatedTaskStatusV1 \<Rightarrow> TaskStatus" where
  "from_status_v1 QueuedV1 = TaskStatus.Queued"
| "from_status_v1 LeasedV1 = TaskStatus.Leased"
| "from_status_v1 CompletedV1 = TaskStatus.Completed"

definition to_result_v1 :: "BrokerMutationResult \<Rightarrow> ReplicatedResponseError + ReplicatedBrokerMutationResultV1" where
  "to_result_v1 result =
     (case result of
        BrokerMutationResult.Namespace r \<Rightarrow>
          Ok (NamespaceV1 (to_metadata_v1 (nr_metadata r)) (ns_str (nr_namespace_id r)) (nr_namespace_revision r))
      | TaskPublished r \<Rightarrow>
          Ok (TaskPublishedV1 (to_metadata_v1 (tp_metadata r)) (task_str (tp_task_id r)) (tp_task_revision r)
                (to_status_v1 (tp_status r)))
      | BrokerMutationResult.ConsumerGroup r \<Rightarrow>
          try_r (rs_usize_to_u64 (gr_member_count r) ''member_count'') (\<lambda>n.
          Ok (ConsumerGroupV1 (to_metadata_v1 (gr_metadata r)) (group_str (gr_group_id r)) (gr_generation r)
                (gr_group_revision r) n))
      | BrokerMutationResult.Heartbeat r \<Rightarrow>
          Ok (HeartbeatResultV1 (to_metadata_v1 (hr_metadata r)) (group_str (hr_group_id r)) (consumer_str (hr_member_id r))
                (hr_generation r) (hr_member_revision r))
      | StaleMembersReaped r \<Rightarrow>
          try_r (rs_usize_to_u64 (sr_reaped_count r) ''reaped_count'') (\<lambda>reaped.
          try_r (rs_usize_to_u64 (sr_affected_group_count r) ''affected_group_count'') (\<lambda>affected.
          Ok (StaleMembersReapedV1 (to_metadata_v1 (sr_metadata r)) reaped affected)))
      | TaskClaim r \<Rightarrow>
          Ok (TaskClaimV1 (to_metadata_v1 (cr_metadata r)) (map_option task_str (cr_task_id r)) (cr_objective r)
                (cr_task_revision r) (map_option lease_str (cr_lease_id r)) (cr_lease_epoch r) (cr_lease_expires_at_ms r)
                (cr_generation r))
      | TaskLeaseRenewed r \<Rightarrow>
          Ok (TaskLeaseRenewedV1 (to_metadata_v1 (rr_metadata r)) (task_str (rr_task_id r))
                (rr_task_revision r) (lease_str (rr_lease_id r))
                (rr_lease_epoch r) (rr_lease_expires_at_ms r)
                (rr_generation r))
      | TaskCompleted r \<Rightarrow>
          Ok (TaskCompletedV1 (to_metadata_v1 (cd_metadata r)) (task_str (cd_task_id r)) (cd_task_revision r)
                (to_status_v1 (cd_status r)))
      | CompletedTasksPruned r \<Rightarrow>
          try_r (rs_usize_to_u64 (pr_pruned_count r) ''pruned_count'') (\<lambda>n.
          Ok (CompletedTasksPrunedV1 (to_metadata_v1 (pr_metadata r)) n))
      | TermAdvanced r \<Rightarrow> Ok (TermAdvancedV1 (to_metadata_v1 (ta_metadata r))))"

definition validate_claim_option_shape ::
  "string option \<Rightarrow> string option \<Rightarrow> u64 option \<Rightarrow> string option \<Rightarrow> u64 option \<Rightarrow> u64 option \<Rightarrow> ReplicatedResponseError + unit" where
  "validate_claim_option_shape tid objective revision lid epoch expires =
     (let presence = [tid \<noteq> None, objective \<noteq> None, revision \<noteq> None, lid \<noteq> None, epoch \<noteq> None, expires \<noteq> None] in
      if list_all id presence \<or> list_all Not presence then Ok ()
      else Err (ReplicatedResponseError ''replicated TaskClaim response contains a partial lease payload''))"

definition convert_coordination_result :: "ReplicatedBrokerMutationResultV1 \<Rightarrow> ReplicatedResponseError + BrokerMutationResult" where
  "convert_coordination_result result =
     (case result of
        NamespaceV1 md ns revision \<Rightarrow>
          try_r (from_metadata_v1 md) (\<lambda>md.
          try_r (rs_id NamespaceId_new ns) (\<lambda>ns.
          Ok (BrokerMutationResult.Namespace \<lparr>nr_metadata = md, nr_namespace_id = ns, nr_namespace_revision = revision\<rparr>)))
      | TaskPublishedV1 md tid revision status \<Rightarrow>
          try_r (from_metadata_v1 md) (\<lambda>md.
          try_r (rs_id TaskId_new tid) (\<lambda>tid.
          Ok (TaskPublished \<lparr>tp_metadata = md, tp_task_id = tid, tp_task_revision = revision,
                tp_status = from_status_v1 status\<rparr>)))
      | ConsumerGroupV1 md gid generation revision n \<Rightarrow>
          try_r (from_metadata_v1 md) (\<lambda>md.
          try_r (rs_id ConsumerGroupId_new gid) (\<lambda>gid.
          try_r (rs_u64_to_usize n ''member_count'') (\<lambda>n.
          Ok (BrokerMutationResult.ConsumerGroup \<lparr>gr_metadata = md, gr_group_id = gid, gr_generation = generation,
                gr_group_revision = revision, gr_member_count = n\<rparr>))))
      | HeartbeatResultV1 md gid mid generation revision \<Rightarrow>
          try_r (from_metadata_v1 md) (\<lambda>md.
          try_r (rs_id ConsumerGroupId_new gid) (\<lambda>gid.
          try_r (rs_id ConsumerId_new mid) (\<lambda>mid.
          Ok (BrokerMutationResult.Heartbeat \<lparr>hr_metadata = md, hr_group_id = gid, hr_member_id = mid,
                hr_generation = generation, hr_member_revision = revision\<rparr>))))
      | StaleMembersReapedV1 md reaped affected \<Rightarrow>
          try_r (from_metadata_v1 md) (\<lambda>md.
          try_r (rs_u64_to_usize reaped ''reaped_count'') (\<lambda>reaped.
          try_r (rs_u64_to_usize affected ''affected_group_count'') (\<lambda>affected.
          Ok (StaleMembersReaped \<lparr>sr_metadata = md, sr_reaped_count = reaped, sr_affected_group_count = affected\<rparr>))))
      | _ \<Rightarrow> Err (ReplicatedResponseError ''replicated Broker response was routed to the wrong conversion family''))"

definition from_result_v1 :: "ReplicatedBrokerMutationResultV1 \<Rightarrow> ReplicatedResponseError + BrokerMutationResult" where
  "from_result_v1 result =
     (case result of
        TaskClaimV1 md tid objective revision lid epoch expires generation \<Rightarrow>
          try_r (validate_claim_option_shape tid objective revision lid epoch expires) (\<lambda>_.
          try_r (from_metadata_v1 md) (\<lambda>md.
          try_r (map_err (rs_validation_error IdentifierError_display) (transposed TaskId_new tid)) (\<lambda>tid.
          try_r (map_err (rs_validation_error TaskTextError_display) (transposed TaskObjective_new objective)) (\<lambda>objective.
          try_r (map_err (rs_validation_error IdentifierError_display) (transposed LeaseId_new lid)) (\<lambda>lid.
          Ok (TaskClaim \<lparr>cr_metadata = md, cr_task_id = tid, cr_objective = objective, cr_task_revision = revision,
                cr_lease_id = lid, cr_lease_epoch = epoch, cr_lease_expires_at_ms = expires, cr_generation = generation\<rparr>))))))
      | TaskLeaseRenewedV1 md tid revision lid epoch expires generation \<Rightarrow>
          try_r (from_metadata_v1 md) (\<lambda>md.
          try_r (rs_id TaskId_new tid) (\<lambda>tid.
          try_r (rs_id LeaseId_new lid) (\<lambda>lid.
          Ok (TaskLeaseRenewed \<lparr>rr_metadata = md, rr_task_id = tid, rr_task_revision = revision, rr_lease_id = lid,
                rr_lease_epoch = epoch, rr_lease_expires_at_ms = expires, rr_generation = generation\<rparr>))))
      | TaskCompletedV1 md tid revision status \<Rightarrow>
          try_r (from_metadata_v1 md) (\<lambda>md.
          try_r (rs_id TaskId_new tid) (\<lambda>tid.
          Ok (TaskCompleted \<lparr>cd_metadata = md, cd_task_id = tid, cd_task_revision = revision,
                cd_status = from_status_v1 status\<rparr>)))
      | CompletedTasksPrunedV1 md n \<Rightarrow>
          try_r (from_metadata_v1 md) (\<lambda>md.
          try_r (rs_u64_to_usize n ''pruned_count'') (\<lambda>n.
          Ok (CompletedTasksPruned \<lparr>pr_metadata = md, pr_pruned_count = n\<rparr>)))
      | TermAdvancedV1 md \<Rightarrow> try_r (from_metadata_v1 md) (\<lambda>md. Ok (TermAdvanced \<lparr>ta_metadata = md\<rparr>))
      | coordination \<Rightarrow> convert_coordination_result coordination)"

section \<open>Responses\<close>

definition from_application_result :: "BrokerError + BrokerMutationResult \<Rightarrow> ReplicatedResponseError + ReplicatedBrokerResponseV1" where
  "from_application_result result =
     (case result of
        Ok r \<Rightarrow> try_r (to_result_v1 r) (\<lambda>v. Ok (Success v))
      | Err e \<Rightarrow> Ok (ApplicationError (to_error_v1 (with_disposition Committed e))))"

definition from_pre_application_rejection :: "BrokerError \<Rightarrow> ReplicatedResponseError + ReplicatedBrokerResponseV1" where
  "from_pre_application_rejection e = Ok (ApplicationError (to_error_v1 (with_disposition Rejected e)))"

definition normalize_stored_session_outcome :: "ReplicatedBrokerResponseV1 \<Rightarrow> ReplicatedBrokerResponseV1" where
  "normalize_stored_session_outcome r =
     (case r of ApplicationError e \<Rightarrow> ApplicationError (e\<lparr>re_disposition := CommittedV1\<rparr>) | _ \<Rightarrow> r)"

definition into_application_result ::
  "ReplicatedBrokerResponseV1 \<Rightarrow> ReplicatedResponseError + (BrokerError + BrokerMutationResult)" where
  "into_application_result r =
     (case r of
        Success result \<Rightarrow> try_r (from_result_v1 result) (\<lambda>x. Ok (Ok x))
      | ApplicationError e \<Rightarrow> Ok (Err (from_error_v1 e))
      | _ \<Rightarrow> Err (ReplicatedResponseError ''consensus control entry does not contain a Broker application result''))"

section \<open>Answers survive the log\<close>

text \<open>What the constructors of the domain types guarantee of every field of a result.\<close>

abbreviation "metadata_ok md \<equiv> md_term md \<noteq> 0"

definition claim_result_ok :: "TaskClaimResult \<Rightarrow> bool" where
  "claim_result_ok r \<longleftrightarrow> metadata_ok (cr_metadata r) \<and>
     (case cr_task_id r of
        None \<Rightarrow> cr_objective r = None \<and> cr_task_revision r = None \<and> cr_lease_id r = None \<and> cr_lease_epoch r = None \<and>
          cr_lease_expires_at_ms r = None
      | Some tid \<Rightarrow> ident (task_str tid) \<and> (\<exists>objective. cr_objective r = Some objective \<and> valid_text MAX_OBJECTIVE_BYTES objective) \<and>
          cr_task_revision r \<noteq> None \<and> (\<exists>lid. cr_lease_id r = Some lid \<and> ident (lease_str lid)) \<and> cr_lease_epoch r \<noteq> None \<and>
          cr_lease_expires_at_ms r \<noteq> None)"

fun result_ok :: "BrokerMutationResult \<Rightarrow> bool" where
  "result_ok (BrokerMutationResult.Namespace r) \<longleftrightarrow> metadata_ok (nr_metadata r) \<and> ident (ns_str (nr_namespace_id r))"
| "result_ok (TaskPublished r) \<longleftrightarrow> metadata_ok (tp_metadata r) \<and> ident (task_str (tp_task_id r))"
| "result_ok (BrokerMutationResult.ConsumerGroup r) \<longleftrightarrow>
     metadata_ok (gr_metadata r) \<and> ident (group_str (gr_group_id r)) \<and> gr_member_count r < 2 ^ 64"
| "result_ok (BrokerMutationResult.Heartbeat r) \<longleftrightarrow>
     metadata_ok (hr_metadata r) \<and> ident (group_str (hr_group_id r)) \<and> ident (consumer_str (hr_member_id r))"
| "result_ok (StaleMembersReaped r) \<longleftrightarrow>
     metadata_ok (sr_metadata r) \<and> sr_reaped_count r < 2 ^ 64 \<and> sr_affected_group_count r < 2 ^ 64"
| "result_ok (TaskClaim r) \<longleftrightarrow> claim_result_ok r"
| "result_ok (TaskLeaseRenewed r) \<longleftrightarrow>
     metadata_ok (rr_metadata r) \<and> ident (task_str (rr_task_id r)) \<and> ident (lease_str (rr_lease_id r))"
| "result_ok (TaskCompleted r) \<longleftrightarrow> metadata_ok (cd_metadata r) \<and> ident (task_str (cd_task_id r))"
| "result_ok (CompletedTasksPruned r) \<longleftrightarrow> metadata_ok (pr_metadata r) \<and> pr_pruned_count r < 2 ^ 64"
| "result_ok (TermAdvanced r) \<longleftrightarrow> metadata_ok (ta_metadata r)"

lemma error_v1_round [simp]: "from_error_v1 (to_error_v1 e) = e"
proof -
  have "from_code_v1 (to_code_v1 c) = c" "from_disposition_v1 (to_disposition_v1 d) = d" for c d
    by (cases c; simp) (cases d; simp)
  then show ?thesis by (simp add: from_error_v1_def to_error_v1_def BrokerError_new_def with_disposition_def)
qed

lemma status_v1_round [simp]: "from_status_v1 (to_status_v1 s) = s"
  by (cases s) simp_all

lemma metadata_v1_round: "metadata_ok md \<Longrightarrow> from_metadata_v1 (to_metadata_v1 md) = Ok md"
  by (simp add: from_metadata_v1_def to_metadata_v1_def Term_new_valid)

lemma claim_result_round:
  assumes "claim_result_ok r"
  shows "\<exists>v. to_result_v1 (TaskClaim r) = Ok v \<and> from_result_v1 v = Ok (TaskClaim r)"
  using assms
  by (cases "cr_task_id r")
    (auto simp: claim_result_ok_def to_result_v1_def from_result_v1_def validate_claim_option_shape_def transposed_def
      metadata_v1_round reparse_ids text_new_valid)

lemma result_round:
  assumes "result_ok r"
  shows "\<exists>v. to_result_v1 r = Ok v \<and> from_result_v1 v = Ok r"
proof (cases "\<exists>x. r = TaskClaim x")
  case True
  with assms claim_result_round show ?thesis by auto
next
  case False
  with assms show ?thesis
    by (cases r) (auto simp: to_result_v1_def from_result_v1_def convert_coordination_result_def metadata_v1_round reparse_ids
      usize_to_u64_Ok)
qed

text \<open>A result as a replica answers it: a success as it is, an error marked as committed.\<close>

definition answered :: "BrokerError + BrokerMutationResult \<Rightarrow> BrokerError + BrokerMutationResult" where
  "answered = map_err (with_disposition Committed)"

lemma response_round:
  assumes "\<And>r. res = Ok r \<Longrightarrow> result_ok r"
  shows "\<exists>v. from_application_result res = Ok v \<and> into_application_result v = Ok (answered res)"
proof (cases res)
  case (Inr r)
  with assms result_round [of r] show ?thesis
    by (auto simp: from_application_result_def into_application_result_def answered_def)
qed (simp add: from_application_result_def into_application_result_def answered_def)

end
