(* ===== verification/Broker_Answers.thy ===== *)
theory Broker_Answers
  imports Replicated_Response
begin

text \<open>
  Every answer of the broker to a well-formed command is well formed, so it can be written into the
  response of a log entry and read back.  Counts are the only values that could fail: a group has
  fewer than two to the 64 members because every limit a command carries is below it.
\<close>

section \<open>Sizes of groups\<close>

definition groups_sized :: "group_registry \<Rightarrow> bool" where
  "groups_sized gs \<longleftrightarrow> (\<forall>gid g. fmlookup gs gid = Some g \<longrightarrow> consumer_count g < 2 ^ 64)"

definition answerable :: "BrokerStateMachine \<Rightarrow> bool" where
  "answerable m \<longleftrightarrow> broker_inv m \<and> state_values (sm_state m) \<and> groups_sized (the_groups m)"

lemma answerable_clear [simp]: "answerable (clear_changes m) = answerable m"
  by (simp add: answerable_def)

lemma groups_sized_upd:
  "groups_sized gs \<Longrightarrow> (fmlookup gs gid = Some g \<Longrightarrow> consumer_count g < 2 ^ 64 \<Longrightarrow> consumer_count g' < 2 ^ 64) \<Longrightarrow>
   fmlookup gs gid = Some g \<Longrightarrow> groups_sized (fmupd gid g' gs)"
  by (simp add: groups_sized_def)

lemma join_count:
  "ConsumerGroup_join g mid caps now n = Ok (oc, g') \<Longrightarrow> n < 2 ^ 64 \<Longrightarrow> consumer_count g < 2 ^ 64 \<Longrightarrow> consumer_count g' < 2 ^ 64"
  by (auto simp: ConsumerGroup_join_def consumer_count_def try_r_Ok fmlookup_dom_iff split: option.splits if_splits)

lemma heartbeat_count: "ConsumerGroup_heartbeat g mid gen now = Ok (oc, g') \<Longrightarrow> consumer_count g' = consumer_count g"
  by (auto simp: ConsumerGroup_heartbeat_def consumer_count_def try_r_Ok Let_def fmlookup_dom_iff split: option.splits if_splits)

lemma leave_count: "ConsumerGroup_leave g mid gen = Ok (mem, g') \<Longrightarrow> consumer_count g' \<le> consumer_count g"
  by (auto simp: ConsumerGroup_leave_def consumer_count_def try_r_Ok Let_def split: option.splits if_splits)

lemma shrink_count: "consumer_count (shrink mids g) \<le> consumer_count g"
  by (auto simp: consumer_count_def shrink_def fm_len_def intro!: fcard_mono)

lemma reaped_sized:
  assumes "groups_sized gs"
  shows "groups_sized (reaped_groups cs gs)"
  unfolding groups_sized_def
proof (intro allI impI)
  fix gid g' assume "fmlookup (reaped_groups cs gs) gid = Some g'"
  then obtain g where g: "fmlookup gs gid = Some g" "g' = g \<or> g' = shrink (of_group gid cs) g"
    by (auto simp: reaped_groups_def split: if_splits)
  with assms have "consumer_count g < 2 ^ 64" unfolding groups_sized_def by blast
  with g(2) shrink_count [of "of_group gid cs" g] show "consumer_count g' < 2 ^ 64" by auto
qed

section \<open>Answers\<close>

lemma metadata_term [simp]: "md_term (metadata m) = st_term (sm_state m)"
  by (simp add: metadata_def)

lemma answerable_term: "answerable m \<Longrightarrow> st_term (sm_state m) \<noteq> 0"
  by (simp add: answerable_def inv_ex_def entities_wf_def)

lemma answerable_group:
  assumes "answerable m" "fmlookup (the_groups m) gid = Some g"
  shows "group_id g = gid" "ident (group_str gid)" "consumer_count g < 2 ^ 64"
  using assms by (auto simp: answerable_def inv_ex_def entities_wf_def state_values_def groups_valid_def groups_sized_def)

lemma group_answer:
  assumes "answerable m" "fmlookup (the_groups m) gid = Some g"
  shows "result_ok (BrokerMutationResult.ConsumerGroup (consumer_group_result (metadata m) g))"
  using answerable_term [OF assms(1)] answerable_group [OF assms] by (simp add: consumer_group_result_def)

lemma task_answer:
  assumes "answerable m" "fmlookup (the_tasks m) tid = Some t"
  shows "claim_result_ok (task_claim_result m gen (Some t))"
proof -
  have "task_id t = tid" using assms by (auto simp: answerable_def inv_ex_def entities_wf_def)
  with assms(1) stored_task [OF _ assms(2)] answerable_term [OF assms(1)] show ?thesis
    by (cases "task_state t") (simp_all add: answerable_def task_claim_result_def claim_result_ok_def empty_claim_result_def)
qed

lemma group_commands_sized:
  assumes "broker_inv m" "groups_sized (the_groups m)"
  shows "jg_max_group_members j < 2 ^ 64 \<Longrightarrow> groups_sized (the_groups (snd (join_consumer_group j m)))"
    and "groups_sized (the_groups (snd (heartbeat h m)))"
    and "groups_sized (the_groups (snd (leave_consumer_group l m)))"
    and "groups_sized (the_groups (snd (reap_stale_members x m)))"
proof -
  note [simp] = Let_def
  note upd = groups_sized_upd [OF assms(2)]
  show "groups_sized (the_groups (snd (join_consumer_group j m)))" if max: "jg_max_group_members j < 2 ^ 64"
  proof (rule join_consumer_group_cases [OF surjective_pairing [of "join_consumer_group j m"]])
    fix rev g oc g'
    assume g: "fmlookup (the_groups m) (jg_group_id j) = Some g"
      "ConsumerGroup_join g (jg_member_id j) (jg_capabilities j) (jg_now_ms j) (jg_max_group_members j) = Ok (oc, g')"
      and m': "snd (join_consumer_group j m) = (let m1 = set_groups (fmupd (jg_group_id j) g' (the_groups m)) m in
        if oc \<noteq> JoinOutcome.Unchanged then changed_groups_update (finsert (group_id g')) (set_revision rev m1) else m1)"
    have "groups_sized (fmupd (jg_group_id j) g' (the_groups m))" using join_count [OF g(2) max] g(1) by (rule upd)
    with m' show ?thesis by simp
  qed (use assms(2) in simp)
  show "groups_sized (the_groups (snd (heartbeat h m)))"
  proof (rule heartbeat_cases [OF surjective_pairing [of "heartbeat h m"]])
    fix rev g oc g'
    assume g: "fmlookup (the_groups m) (hb_group_id h) = Some g"
      "ConsumerGroup_heartbeat g (hb_member_id h) (hb_expected_generation h) (hb_now_ms h) = Ok (oc, g')"
      and m': "snd (heartbeat h m) = (let m1 = set_groups (fmupd (hb_group_id h) g' (the_groups m)) m in
        if oc = Updated then changed_groups_update (finsert (group_id g')) (set_revision rev m1) else m1)"
    have "groups_sized (fmupd (hb_group_id h) g' (the_groups m))" by (rule upd [OF _ g(1)]) (simp add: heartbeat_count [OF g(2)])
    with m' show ?thesis by simp
  qed (use assms(2) in simp)
  show "groups_sized (the_groups (snd (leave_consumer_group l m)))"
  proof (rule leave_consumer_group_cases [OF surjective_pairing [of "leave_consumer_group l m"] assms(1)])
    fix rev g mem g'
    assume g: "fmlookup (the_groups m) (lg_group_id l) = Some g"
      "ConsumerGroup_leave g (lg_member_id l) (lg_expected_generation l) = Ok (mem, g')"
    assume m': "sm_state (snd (leave_consumer_group l m)) = (sm_state m)\<lparr>st_revision := rev,
       st_tasks := requeue_set (member_tasks (sm_state m) (lg_group_id l, lg_member_id l)) (the_tasks m),
       st_groups := fmupd (lg_group_id l) g' (the_groups m)\<rparr>"
    have "groups_sized (fmupd (lg_group_id l) g' (the_groups m))"
      using leave_count [OF g(2)] by (intro upd [OF _ g(1)]) simp
    with m' show ?thesis by simp
  qed (use assms(2) in simp)
  show "groups_sized (the_groups (snd (reap_stale_members x m)))"
    by (rule reap_stale_members_cases [OF surjective_pairing [of "reap_stale_members x m"] assms(1)])
      (use assms(2) reaped_sized in simp_all)
qed

lemma claim_groups:
  assumes "broker_inv m"
  shows "the_groups (snd (claim_task c m)) = the_groups m"
proof (rule claim_task_cases [OF surjective_pairing [of "claim_task c m"] assms])
  fix g
  assume g: "authorised m (ct_expected_term c) (ct_group_id c) (ct_member_id c) (ct_expected_generation c) g"
    "fmlookup (active_lease_tasks m) (ct_lease_id c) = None"
    and new: "claim_new c (group_namespace_id g) (ct_expected_generation c) m = (fst (claim_task c m), snd (claim_task c m))"
  then have "fmlookup (the_groups m) (ct_group_id c) = Some g" "group_generation g = ct_expected_generation c"
    "ct_member_id c \<in> members g" by (simp_all add: authorised_def)
  from new assms g(2) this refl show ?thesis by (cases rule: claim_new_cases) simp_all
qed simp_all

lemma other_commands_sized:
  assumes "broker_inv m" "groups_sized (the_groups m)"
  shows "groups_sized (the_groups (snd (ensure_namespace n m)))"
    and "groups_sized (the_groups (snd (publish_task p m)))"
    and "groups_sized (the_groups (snd (ensure_consumer_group g m)))"
    and "groups_sized (the_groups (snd (claim_task c m)))"
    and "groups_sized (the_groups (snd (renew_task_lease rn m)))"
    and "groups_sized (the_groups (snd (complete_task d m)))"
    and "groups_sized (the_groups (snd (prune_completed_tasks q m)))"
    and "groups_sized (the_groups (snd (advance_term a m)))"
proof -
  show "groups_sized (the_groups (snd (ensure_namespace n m)))"
    by (rule ensure_namespace_cases [OF surjective_pairing [of "ensure_namespace n m"]]) (use assms(2) in simp_all)
  show "groups_sized (the_groups (snd (publish_task p m)))"
    by (rule publish_task_cases [OF surjective_pairing [of "publish_task p m"]]) (use assms(2) in \<open>simp_all add: push_ready_def\<close>)
  show "groups_sized (the_groups (snd (ensure_consumer_group g m)))"
    by (rule ensure_consumer_group_cases [OF surjective_pairing [of "ensure_consumer_group g m"]])
      (use assms(2) in \<open>simp_all add: groups_sized_def ConsumerGroup_new_def consumer_count_def\<close>)
  show "groups_sized (the_groups (snd (claim_task c m)))" using assms by (simp add: claim_groups)
  show "groups_sized (the_groups (snd (renew_task_lease rn m)))"
    by (rule renew_task_lease_cases [OF surjective_pairing [of "renew_task_lease rn m"] assms(1)]) (use assms(2) in simp_all)
  show "groups_sized (the_groups (snd (complete_task d m)))"
    by (rule complete_task_cases [OF surjective_pairing [of "complete_task d m"] assms(1)]) (use assms(2) in simp_all)
  show "groups_sized (the_groups (snd (prune_completed_tasks q m)))"
    by (rule prune_completed_tasks_cases [OF surjective_pairing [of "prune_completed_tasks q m"] assms(1)]) (use assms(2) in simp_all)
  show "groups_sized (the_groups (snd (advance_term a m)))"
    by (rule advance_term_cases [OF surjective_pairing [of "advance_term a m"] assms(1)]) (use assms(2) in simp_all)
qed

lemma answerable_apply:
  assumes "answerable m" "command_ok c"
  shows "answerable (snd (broker_apply c m))"
proof -
  have m: "broker_inv (clear_changes m)" "groups_sized (the_groups (clear_changes m))" using assms by (simp_all add: answerable_def)
  have "groups_sized (the_groups (snd (broker_apply c m)))"
    using assms(2) group_commands_sized [OF m] other_commands_sized [OF m] by (cases c) (simp_all add: broker_apply_def)
  moreover have "broker_inv (snd (broker_apply c m))"
    using assms(1) bk.step_inv [of c m "snd (broker_apply c m)"] by (simp add: answerable_def broker_step_def)
  ultimately show ?thesis
    using assms broker_apply_values [of m c] command_ok_values [OF assms(2)] by (simp add: answerable_def)
qed

lemma group_answers:
  assumes "answerable m" "answerable m'"
  shows "ensure_consumer_group e m = (Ok r, m') \<Longrightarrow> result_ok (BrokerMutationResult.ConsumerGroup r)"
    and "join_consumer_group j m = (Ok r, m') \<Longrightarrow> result_ok (BrokerMutationResult.ConsumerGroup r)"
    and "leave_consumer_group l m = (Ok r, m') \<Longrightarrow> result_ok (BrokerMutationResult.ConsumerGroup r)"
    and "heartbeat h m = (Ok hr, m') \<Longrightarrow> ident (consumer_str (hb_member_id h)) \<Longrightarrow> result_ok (BrokerMutationResult.Heartbeat hr)"
    and "reap_stale_members x m = (Ok sr, m') \<Longrightarrow> rs_max_members x < 2 ^ 64 \<Longrightarrow> result_ok (StaleMembersReaped sr)"
proof -
  have inv: "broker_inv m" using assms(1) by (simp add: answerable_def)
  note tm = answerable_term [OF assms(2)] and answer = group_answer [OF assms(2)] and grp = answerable_group [OF assms(2)]
  note [simp] = Let_def
  show "result_ok (BrokerMutationResult.ConsumerGroup r)" if "ensure_consumer_group e m = (Ok r, m')"
    by (rule ensure_consumer_group_cases [OF that]) (use answer [of "eg_group_id e"] in auto)
  show "result_ok (BrokerMutationResult.ConsumerGroup r)" if "join_consumer_group j m = (Ok r, m')"
    by (rule join_consumer_group_cases [OF that]) (use answer [of "jg_group_id j"] in \<open>simp_all split: if_splits\<close>)
  show "result_ok (BrokerMutationResult.ConsumerGroup r)" if "leave_consumer_group l m = (Ok r, m')"
    by (rule leave_consumer_group_cases [OF that inv]) (use answer [of "lg_group_id l"] in simp_all)
  show "result_ok (BrokerMutationResult.Heartbeat hr)" if "heartbeat h m = (Ok hr, m')" "ident (consumer_str (hb_member_id h))"
    by (rule heartbeat_cases [OF that(1)]) (use that(2) tm grp [of "hb_group_id h"] in \<open>simp_all split: if_splits\<close>)
  show "result_ok (StaleMembersReaped sr)" if "reap_stale_members x m = (Ok sr, m')" and lim: "rs_max_members x < 2 ^ 64"
  proof (rule reap_stale_members_cases [OF that(1) inv])
    fix cs
    assume cs: "cs = stalest (the_groups m) (rs_stale_before_ms x) (rs_max_members x)"
      and r: "(Ok sr :: StateMachineError + StaleMembersReapedResult) =
        Ok \<lparr>sr_metadata = metadata m', sr_reaped_count = length cs, sr_affected_group_count = card (fst ` snd ` set cs)\<rparr>"
    have "length cs \<le> rs_max_members x" by (simp add: cs stalest_def)
    moreover have "card (fst ` snd ` set cs) \<le> length cs" by (metis card_length image_set length_map)
    ultimately show ?thesis using r tm lim by simp
  qed (use tm in simp_all)
qed

lemma claim_answer_ok:
  assumes "answerable m" "answerable m'" "claim_task c m = (Ok r, m')"
  shows "claim_result_ok r"
proof -
  have inv: "broker_inv m" using assms(1) by (simp add: answerable_def)
  note tm = answerable_term [OF assms(2)] and answer = task_answer [OF assms(2)]
  show ?thesis
  proof (rule claim_task_cases [OF assms(3) inv])
    fix g
    assume g: "authorised m (ct_expected_term c) (ct_group_id c) (ct_member_id c) (ct_expected_generation c) g"
      "fmlookup (active_lease_tasks m) (ct_lease_id c) = None"
      and new: "claim_new c (group_namespace_id g) (ct_expected_generation c) m = (Ok r, m')"
    then have "fmlookup (the_groups m) (ct_group_id c) = Some g" "group_generation g = ct_expected_generation c"
      "ct_member_id c \<in> members g" by (simp_all add: authorised_def)
    from new inv g(2) this refl show ?thesis
    proof (cases rule: claim_new_cases)
      case empty
      with tm show ?thesis by (simp add: empty_claim_result_def claim_result_ok_def)
    next
      case (granted T m1 created tid h t q expires rv e trev t')
      from granted(12) have "fmlookup (the_tasks m') tid = Some t'" by simp
      from answer [OF this] granted(13) show ?thesis by simp
    qed simp
  qed (use answer in auto)
qed

lemma task_answers:
  assumes "answerable m" "answerable m'"
  shows "ensure_namespace n m = (Ok nr, m') \<Longrightarrow> ident (ns_str (en_namespace_id n)) \<Longrightarrow> result_ok (BrokerMutationResult.Namespace nr)"
    and "publish_task p m = (Ok pr, m') \<Longrightarrow> ident (task_str (pt_task_id p)) \<Longrightarrow> result_ok (TaskPublished pr)"
    and "renew_task_lease rn m = (Ok rr, m') \<Longrightarrow> ident (task_str (rl_task_id rn)) \<Longrightarrow> ident (lease_str (rl_lease_id rn)) \<Longrightarrow>
      result_ok (TaskLeaseRenewed rr)"
    and "complete_task d m = (Ok cr, m') \<Longrightarrow> ident (task_str (cm_task_id d)) \<Longrightarrow> result_ok (TaskCompleted cr)"
    and "prune_completed_tasks q m = (Ok qr, m') \<Longrightarrow> pc_max_tasks q < 2 ^ 64 \<Longrightarrow> result_ok (CompletedTasksPruned qr)"
    and "advance_term a m = (Ok ar, m') \<Longrightarrow> result_ok (TermAdvanced ar)"
proof -
  have inv: "broker_inv m" using assms(1) by (simp add: answerable_def)
  then have wf: "entities_wf (sm_state m)" by (simp add: inv_ex_def)
  note tm = answerable_term [OF assms(2)]
  show "result_ok (BrokerMutationResult.Namespace nr)" if "ensure_namespace n m = (Ok nr, m')" "ident (ns_str (en_namespace_id n))"
    by (rule ensure_namespace_cases [OF that(1)]) (use that(2) tm wf in \<open>auto simp: entities_wf_def\<close>)
  show "result_ok (TaskPublished pr)" if "publish_task p m = (Ok pr, m')" "ident (task_str (pt_task_id p))"
    by (rule publish_task_cases [OF that(1)]) (use that(2) tm wf in \<open>auto simp: entities_wf_def\<close>)
  show "result_ok (TaskLeaseRenewed rr)"
    if "renew_task_lease rn m = (Ok rr, m')" "ident (task_str (rl_task_id rn))" "ident (lease_str (rl_lease_id rn))"
    by (rule renew_task_lease_cases [OF that(1) inv]) (use that(2,3) tm in simp_all)
  show "result_ok (TaskCompleted cr)" if "complete_task d m = (Ok cr, m')" "ident (task_str (cm_task_id d))"
    by (rule complete_task_cases [OF that(1) inv]) (use that(2) tm in simp_all)
  show "result_ok (CompletedTasksPruned qr)" if "prune_completed_tasks q m = (Ok qr, m')" "pc_max_tasks q < 2 ^ 64"
    by (rule prune_completed_tasks_cases [OF that(1) inv]) (use that(2) tm in \<open>simp_all add: prunable_def\<close>)
  show "result_ok (TermAdvanced ar)" if "advance_term a m = (Ok ar, m')"
    by (rule advance_term_cases [OF that inv]) (use tm in simp_all)
qed

lemma broker_answer_ok:
  assumes "answerable m" "command_ok c" "broker_apply c m = (Ok am, m')"
  shows "result_ok (am_result am)"
proof -
  have m: "answerable (clear_changes m)" "answerable m'"
    using assms(1) answerable_apply [OF assms(1,2)] assms(3) by simp_all
  show ?thesis
    using assms(2,3) group_answers [OF m] claim_answer_ok [OF m] task_answers [OF m]
    by (cases c) (auto simp: broker_apply_def applied_Ok)
qed

lemma default_answerable: "answerable BrokerStateMachine_default"
  using bv.init_inv [of BrokerStateMachine_default]
  by (simp add: answerable_def broker_init_def groups_sized_def BrokerStateMachine_default_def BrokerState_default_def)

end
