(* ===== verification/Raft_Persistence.thy ===== *)
theory Raft_Persistence
  imports Snapshot
begin

text \<open>
  \<open>agent-broker-consensus/src/raft_persistence.rs\<close>: the two tables of the Raft store.  The database
  \<open>redb\<close> is a parameter: \<open>db_read\<close> opens a read transaction and shows its tables, \<open>db_write\<close> opens a
  write transaction, runs the given table operations and commits.  \<open>redb_laws\<close> is what the code relies
  on: a read shows the committed tables, a committed write applies its operations, and a failed one
  applies all of them or none.
\<close>

record RaftTables =
  raft_log_table :: "(u64, bytes) fmap"
  raft_meta_table :: "(string, bytes) fmap"

text \<open>An \<open>io::Error\<close> by its kind and message; \<open>io_other\<close> wraps an error of the database.\<close>

datatype IoError = InvalidData string | InvalidInput string | Other string

fun IoError_message :: "IoError \<Rightarrow> string" where
  "IoError_message (InvalidData message) = message"
| "IoError_message (InvalidInput message) = message"
| "IoError_message (Other message) = message"

record 'd redb =
  db_read :: "'d \<Rightarrow> string + RaftTables"
  db_write :: "(RaftTables \<Rightarrow> RaftTables) \<Rightarrow> 'd \<Rightarrow> (string + unit) \<times> 'd"

definition io_other :: "string + 'a \<Rightarrow> IoError + 'a" where
  "io_other = map_err Other"

definition committing :: "'d redb \<Rightarrow> (RaftTables \<Rightarrow> RaftTables) \<Rightarrow> 'd \<Rightarrow> (IoError + unit) \<times> 'd" where
  "committing db f d = map_prod io_other id (db_write db f d)"

section \<open>Opening\<close>

text \<open>Opening a table creates it; both tables are part of \<open>RaftTables\<close> from the start, so the transaction changes nothing.\<close>

definition ensure_tables :: "'d redb \<Rightarrow> 'd \<Rightarrow> (IoError + unit) \<times> 'd" where
  "ensure_tables db d = committing db id d"

definition persistence_open :: "('p \<Rightarrow> string + 'd) \<Rightarrow> 'd redb \<Rightarrow> 'p \<Rightarrow> IoError + 'd" where
  "persistence_open create db path =
     try_r (io_other (create path)) (\<lambda>d. case ensure_tables db d of (Err e, _) \<Rightarrow> Err e | (Ok _, d') \<Rightarrow> Ok d')"

section \<open>The log table\<close>

definition read_log_range :: "'d redb \<Rightarrow> u64 \<Rightarrow> u64 option \<Rightarrow> 'd \<Rightarrow> IoError + (u64 \<times> bytes) list" where
  "read_log_range db start_inclusive end_exclusive d =
     try_r (io_other (db_read db d)) (\<lambda>t.
     Ok (filter (\<lambda>(key, _). start_inclusive \<le> key \<and> (case end_exclusive of None \<Rightarrow> True | Some end' \<Rightarrow> key < end'))
           (sorted_list_of_fmap (raft_log_table t))))"

definition read_last_log :: "'d redb \<Rightarrow> 'd \<Rightarrow> IoError + (u64 \<times> bytes) option" where
  "read_last_log db d =
     try_r (io_other (db_read db d)) (\<lambda>t.
     let entries = sorted_list_of_fmap (raft_log_table t) in Ok (if entries = [] then None else Some (last entries)))"

text \<open>\<open>u64::saturating_add(1)\<close> and the scan of adjacent pairs.\<close>

definition saturating_succ :: "u64 \<Rightarrow> u64" where
  "saturating_succ v = (case checked_add v 1 of None \<Rightarrow> v | Some w \<Rightarrow> w)"

fun has_index_hole :: "(u64 \<times> bytes) list \<Rightarrow> bool" where
  "has_index_hole (a # b # rest) \<longleftrightarrow> fst b \<noteq> saturating_succ (fst a) \<or> has_index_hole (b # rest)"
| "has_index_hole _ \<longleftrightarrow> False"

definition insert_all :: "(u64 \<times> bytes) list \<Rightarrow> RaftTables \<Rightarrow> RaftTables" where
  "insert_all entries = raft_log_table_update (fold (\<lambda>(index, payload). fmupd index payload) entries)"

definition append_log_batch :: "'d redb \<Rightarrow> (u64 \<times> bytes) list \<Rightarrow> 'd \<Rightarrow> (IoError + unit) \<times> 'd" where
  "append_log_batch db entries d =
     (if entries = [] then (Ok (), d)
      else if has_index_hole entries then (Err (InvalidData ''Raft append batch contains a log index hole''), d)
      else committing db (insert_all entries) d)"

definition truncate_from :: "'d redb \<Rightarrow> u64 \<Rightarrow> 'd \<Rightarrow> (IoError + unit) \<times> 'd" where
  "truncate_from db index d = committing db (raft_log_table_update (fmfilter (\<lambda>stored. stored < index))) d"

definition purge_through_and_write_meta :: "'d redb \<Rightarrow> u64 \<Rightarrow> string \<Rightarrow> bytes \<Rightarrow> 'd \<Rightarrow> (IoError + unit) \<times> 'd" where
  "purge_through_and_write_meta db index meta_key meta_value d =
     committing db (raft_meta_table_update (fmupd meta_key meta_value) \<circ>
       raft_log_table_update (fmfilter (\<lambda>stored. stored > index))) d"

section \<open>The meta table\<close>

definition read_meta :: "'d redb \<Rightarrow> string \<Rightarrow> 'd \<Rightarrow> IoError + bytes option" where
  "read_meta db key d = try_r (io_other (db_read db d)) (\<lambda>t. Ok (fmlookup (raft_meta_table t) key))"

definition read_meta_pair :: "'d redb \<Rightarrow> string \<Rightarrow> string \<Rightarrow> 'd \<Rightarrow> IoError + bytes option \<times> bytes option" where
  "read_meta_pair db first_key second_key d =
     try_r (io_other (db_read db d)) (\<lambda>t.
     Ok (fmlookup (raft_meta_table t) first_key, fmlookup (raft_meta_table t) second_key))"

definition write_meta :: "'d redb \<Rightarrow> string \<Rightarrow> bytes \<Rightarrow> 'd \<Rightarrow> (IoError + unit) \<times> 'd" where
  "write_meta db key v d = committing db (raft_meta_table_update (fmupd key v)) d"

definition write_meta_pair :: "'d redb \<Rightarrow> string \<Rightarrow> bytes \<Rightarrow> string \<Rightarrow> bytes \<Rightarrow> 'd \<Rightarrow> (IoError + unit) \<times> 'd" where
  "write_meta_pair db first_key first_value second_key second_value d =
     committing db (raft_meta_table_update (fmupd second_key second_value \<circ> fmupd first_key first_value)) d"

section \<open>What the database promises\<close>

definition redb_laws :: "'d redb \<Rightarrow> ('d \<Rightarrow> RaftTables) \<Rightarrow> bool" where
  "redb_laws db tables \<longleftrightarrow>
     (\<forall>d t. db_read db d = Ok t \<longrightarrow> t = tables d) \<and>
     (\<forall>f d d'. db_write db f d = (Ok (), d') \<longrightarrow> tables d' = f (tables d)) \<and>
     (\<forall>f d e d'. db_write db f d = (Err e, d') \<longrightarrow> tables d' = tables d \<or> tables d' = f (tables d))"

text \<open>A database in memory, which never fails.\<close>

definition memory_db :: "RaftTables redb" where
  "memory_db = \<lparr>db_read = Ok, db_write = (\<lambda>f t. (Ok (), f t))\<rparr>"

lemma memory_db_laws: "redb_laws memory_db id"
  by (simp add: redb_laws_def memory_db_def)

lemma redb_read:
  assumes "redb_laws db tables" "io_other (db_read db d) = Ok t"
  shows "t = tables d"
  using assms by (simp add: redb_laws_def io_other_def)

lemma committing_Ok:
  assumes "redb_laws db tables" "committing db f d = (Ok u, d')"
  shows "tables d' = f (tables d)"
  using assms unfolding redb_laws_def committing_def io_other_def
  by (cases "db_write db f d") (auto simp: map_prod_def)

lemma committing_cases:
  assumes "redb_laws db tables" "committing db f d = (r, d')"
  obtains "r = Ok ()" "tables d' = f (tables d)" | e where "r = Err (Other e)" "tables d' = tables d \<or> tables d' = f (tables d)"
proof -
  obtain x where x: "db_write db f d = (x, d')" "r = map_err Other x"
    using assms(2) by (cases "db_write db f d") (auto simp: committing_def io_other_def map_prod_def)
  with assms(1) that show thesis unfolding redb_laws_def by (cases x) auto
qed

end
