(* ===== verification/Raft_Log_Storage.thy ===== *)
theory Raft_Log_Storage
  imports Raft_Persistence
begin

text \<open>
  \<open>agent-broker-consensus/src/raft_log_storage.rs\<close>: the durable Raft log, vote and progress pointers.
  Log entries, log identifiers and votes are types of the Raft library, and their JSON form is that of
  the JSON library; both are parameters.
\<close>

section \<open>Parameters and errors\<close>

record ('e, 'l, 'v) raft_codec =
  entry_log_id :: "'e \<Rightarrow> 'l"
  log_index :: "'l \<Rightarrow> u64"
  entry_to_vec :: "'e \<Rightarrow> string + bytes"
  entry_from_slice :: "bytes \<Rightarrow> string + 'e"
  log_id_to_vec :: "'l \<Rightarrow> string + bytes"
  log_id_from_slice :: "bytes \<Rightarrow> string + 'l"
  committed_to_vec :: "'l option \<Rightarrow> string + bytes"
  vote_to_vec :: "'v \<Rightarrow> string + bytes"
  vote_from_slice :: "bytes \<Rightarrow> string + 'v"

text \<open>\<open>StorageIOError\<close>: what was read or written, and the message of the error.\<close>

datatype 'l RaftStorageError =
    ReadError string
  | WriteError string
  | ReadLogs string
  | WriteLogs string
  | WriteLogEntry 'l string
  | ReadVote string
  | WriteVote string
  | ReadStateMachine string
  | ReadSnapshot string
  | WriteSnapshot string

definition VOTE_KEY :: string where "VOTE_KEY = ''vote_v1''"
definition COMMITTED_KEY :: string where "COMMITTED_KEY = ''committed_v1''"
definition LAST_PURGED_KEY :: string where "LAST_PURGED_KEY = ''last_purged_v1''"

abbreviation "io_as err \<equiv> map_err (\<lambda>e. err (IoError_message e))"

section \<open>Reading\<close>

datatype Bound = Unbounded | Included u64 | Excluded u64

definition normalize_range :: "Bound \<Rightarrow> Bound \<Rightarrow> IoError + (u64 \<times> u64 option) option" where
  "normalize_range start_bound end_bound =
     try_r (case start_bound of
              Unbounded \<Rightarrow> Ok 0
            | Included v \<Rightarrow> Ok v
            | Excluded v \<Rightarrow>
                (case checked_add v 1 of
                   None \<Rightarrow> Err (InvalidInput ''excluded Raft range start overflows u64'')
                 | Some w \<Rightarrow> Ok w)) (\<lambda>start.
     let end_exclusive = (case end_bound of Unbounded \<Rightarrow> None | Excluded v \<Rightarrow> Some v | Included v \<Rightarrow> checked_add v 1) in
     if (case end_exclusive of None \<Rightarrow> False | Some end' \<Rightarrow> start \<ge> end') then Ok None
     else Ok (Some (start, end_exclusive)))"

definition decode_stored_log_entry :: "('e, 'l, 'v) raft_codec \<Rightarrow> u64 \<Rightarrow> bytes \<Rightarrow> IoError + 'e" where
  "decode_stored_log_entry codec stored_index encoded =
     try_r (map_err InvalidData (entry_from_slice codec encoded)) (\<lambda>entry.
     if log_index codec (entry_log_id codec entry) \<noteq> stored_index
     then Err (InvalidData (''Raft log key/index mismatch: key='' @ show_u64 stored_index @ '', entry='' @
            show_u64 (log_index codec (entry_log_id codec entry))))
     else Ok entry)"

definition try_get_log_entries ::
  "('e, 'l, 'v) raft_codec \<Rightarrow> 'd redb \<Rightarrow> Bound \<Rightarrow> Bound \<Rightarrow> 'd \<Rightarrow> 'l RaftStorageError + 'e list" where
  "try_get_log_entries codec db start_bound end_bound d =
     try_r (io_as ReadError (normalize_range start_bound end_bound)) (\<lambda>range.
     case range of
       None \<Rightarrow> Ok []
     | Some (start, end') \<Rightarrow>
         try_r (io_as ReadLogs (read_log_range db start end' d)) (\<lambda>encoded_entries.
         io_as ReadLogs (collect_results (\<lambda>(stored_index, encoded). decode_stored_log_entry codec stored_index encoded)
           encoded_entries)))"

definition read_meta_as :: "(bytes \<Rightarrow> string + 'a) \<Rightarrow> 'd redb \<Rightarrow> string \<Rightarrow> 'd \<Rightarrow> 'l RaftStorageError + 'a option" where
  "read_meta_as from_slice db key d =
     try_r (io_as ReadError (read_meta db key d)) (\<lambda>b.
     case b of None \<Rightarrow> Ok None | Some b \<Rightarrow> try_r (map_err ReadError (from_slice b)) (\<lambda>v. Ok (Some v)))"

record 'l LogState =
  last_purged_log_id :: "'l option"
  last_log_id :: "'l option"

definition get_log_state :: "('e, 'l, 'v) raft_codec \<Rightarrow> 'd redb \<Rightarrow> 'd \<Rightarrow> 'l RaftStorageError + 'l LogState" where
  "get_log_state codec db d =
     try_r (read_meta_as (log_id_from_slice codec) db LAST_PURGED_KEY d) (\<lambda>last_purged.
     try_r (io_as ReadLogs (read_last_log db d)) (\<lambda>last_present.
     try_r (case last_present of
              None \<Rightarrow> Ok None
            | Some (stored_index, encoded) \<Rightarrow>
                try_r (io_as ReadLogs (decode_stored_log_entry codec stored_index encoded)) (\<lambda>entry.
                Ok (Some (entry_log_id codec entry)))) (\<lambda>last_present.
     Ok \<lparr>last_purged_log_id = last_purged,
         last_log_id = (case last_present of None \<Rightarrow> last_purged | Some l \<Rightarrow> Some l)\<rparr>)))"

definition read_vote :: "('e, 'l, 'v) raft_codec \<Rightarrow> 'd redb \<Rightarrow> 'd \<Rightarrow> 'l RaftStorageError + 'v option" where
  "read_vote codec db d =
     try_r (io_as ReadVote (read_meta db VOTE_KEY d)) (\<lambda>b.
     case b of None \<Rightarrow> Ok None | Some b \<Rightarrow> try_r (map_err ReadVote (vote_from_slice codec b)) (\<lambda>v. Ok (Some v)))"

text \<open>
  \<open>read_meta::<LogId>\<close> of the committed pointer: what was written is an optional identifier, what is
  read is an identifier.
\<close>

definition read_committed :: "('e, 'l, 'v) raft_codec \<Rightarrow> 'd redb \<Rightarrow> 'd \<Rightarrow> 'l RaftStorageError + 'l option" where
  "read_committed codec db d = read_meta_as (log_id_from_slice codec) db COMMITTED_KEY d"

section \<open>Writing\<close>

definition save_vote :: "('e, 'l, 'v) raft_codec \<Rightarrow> 'd redb \<Rightarrow> 'v \<Rightarrow> 'd \<Rightarrow> ('l RaftStorageError + unit) \<times> 'd" where
  "save_vote codec db vote d =
     (case vote_to_vec codec vote of
        Err e \<Rightarrow> (Err (WriteVote e), d)
      | Ok encoded \<Rightarrow> map_prod (io_as WriteVote) id (write_meta db VOTE_KEY encoded d))"

definition save_committed :: "('e, 'l, 'v) raft_codec \<Rightarrow> 'd redb \<Rightarrow> 'l option \<Rightarrow> 'd \<Rightarrow> ('l RaftStorageError + unit) \<times> 'd" where
  "save_committed codec db committed d =
     (case committed_to_vec codec committed of
        Err e \<Rightarrow> (Err (WriteError e), d)
      | Ok encoded \<Rightarrow> map_prod (io_as WriteError) id (write_meta db COMMITTED_KEY encoded d))"

definition encode_entry :: "('e, 'l, 'v) raft_codec \<Rightarrow> 'e \<Rightarrow> ('l \<times> string) + u64 \<times> bytes" where
  "encode_entry codec entry =
     (let log_id = entry_log_id codec entry in
      try_r (map_err (Pair log_id) (entry_to_vec codec entry)) (\<lambda>payload. Ok (log_index codec log_id, payload)))"

text \<open>The result of the call, what the flush callback was told, and the database.\<close>

definition append_entries ::
  "('e, 'l, 'v) raft_codec \<Rightarrow> 'd redb \<Rightarrow> 'e list \<Rightarrow> 'd \<Rightarrow> ('l RaftStorageError + unit) \<times> (IoError + unit) \<times> 'd" where
  "append_entries codec db entries d =
     (case collect_results (encode_entry codec) entries of
        Err (log_id, message) \<Rightarrow> (Err (WriteLogEntry log_id message), Err (InvalidData message), d)
      | Ok encoded \<Rightarrow>
          (case append_log_batch db encoded d of
             (Ok _, d') \<Rightarrow> (Ok (), Ok (), d')
           | (Err e, d') \<Rightarrow> (Err (WriteLogs (IoError_message e)), Err e, d')))"

definition truncate_log :: "('e, 'l, 'v) raft_codec \<Rightarrow> 'd redb \<Rightarrow> 'l \<Rightarrow> 'd \<Rightarrow> ('l RaftStorageError + unit) \<times> 'd" where
  "truncate_log codec db log_id d = map_prod (io_as WriteLogs) id (truncate_from db (log_index codec log_id) d)"

definition purge_log :: "('e, 'l, 'v) raft_codec \<Rightarrow> 'd redb \<Rightarrow> 'l \<Rightarrow> 'd \<Rightarrow> ('l RaftStorageError + unit) \<times> 'd" where
  "purge_log codec db log_id d =
     (case log_id_to_vec codec log_id of
        Err e \<Rightarrow> (Err (WriteError e), d)
      | Ok encoded \<Rightarrow>
          map_prod (io_as WriteLogs) id
            (purge_through_and_write_meta db (log_index codec log_id) LAST_PURGED_KEY encoded d))"

section \<open>The log as a map from indexes to entries\<close>

text \<open>What the JSON library promises: what it wrote it reads back.\<close>

definition codec_laws :: "('e, 'l, 'v) raft_codec \<Rightarrow> bool" where
  "codec_laws codec \<longleftrightarrow>
     (\<forall>e b. entry_to_vec codec e = Ok b \<longrightarrow> entry_from_slice codec b = Ok e) \<and>
     (\<forall>l b. log_id_to_vec codec l = Ok b \<longrightarrow> log_id_from_slice codec b = Ok l) \<and>
     (\<forall>l b. committed_to_vec codec (Some l) = Ok b \<longrightarrow> log_id_from_slice codec b = Ok l) \<and>
     (\<forall>v b. vote_to_vec codec v = Ok b \<longrightarrow> vote_from_slice codec b = Ok v)"

abbreviation "entry_index codec e \<equiv> log_index codec (entry_log_id codec e)"

text \<open>The tables hold the log \<open>L\<close>: the same indexes, each with an encoding of its entry.\<close>

definition log_holds :: "('e, 'l, 'v) raft_codec \<Rightarrow> RaftTables \<Rightarrow> (u64, 'e) fmap \<Rightarrow> bool" where
  "log_holds codec t L \<longleftrightarrow> fmdom (raft_log_table t) = fmdom L \<and>
     (\<forall>i b e. fmlookup (raft_log_table t) i = Some b \<longrightarrow> fmlookup L i = Some e \<longrightarrow>
        entry_from_slice codec b = Ok e \<and> entry_index codec e = i)"

lemma log_holds_meta [simp]: "log_holds codec (raft_meta_table_update f t) L = log_holds codec t L"
  by (simp add: log_holds_def)

lemma log_holds_empty: "log_holds codec \<lparr>raft_log_table = fmempty, raft_meta_table = fmempty\<rparr> fmempty"
  by (simp add: log_holds_def)

lemma log_holds_filter:
  "log_holds codec t L \<Longrightarrow> log_holds codec (raft_log_table_update (fmfilter P) t) (fmfilter P L)"
  by (simp add: log_holds_def)

lemma log_holds_insert:
  assumes "log_holds codec t L" "entry_from_slice codec b = Ok e" "entry_index codec e = i"
  shows "log_holds codec (raft_log_table_update (fmupd i b) t) (fmupd i e L)"
  using assms by (simp add: log_holds_def)

lemma insert_all_Nil [simp]: "insert_all [] t = t"
  by (cases t) (simp add: insert_all_def)

lemma log_holds_insert_all:
  assumes "codec_laws codec" "collect_results (encode_entry codec) es = Ok ps" "log_holds codec t L"
  shows "log_holds codec (insert_all ps t) (fold (\<lambda>e. fmupd (entry_index codec e) e) es L)"
  using assms(2,3)
proof (induction es arbitrary: ps t L)
  case (Cons e es)
  then obtain b ps' where ps: "ps = (entry_index codec e, b) # ps'" "entry_to_vec codec e = Ok b"
    "collect_results (encode_entry codec) es = Ok ps'"
    by (auto simp: try_r_Ok encode_entry_def [of codec e] Let_def)
  then have "log_holds codec (raft_log_table_update (fmupd (entry_index codec e) b) t) (fmupd (entry_index codec e) e L)"
    using Cons.prems(2) assms(1) by (intro log_holds_insert) (auto simp: codec_laws_def)
  from Cons.IH [OF ps(3) this] show ?case by (simp add: ps(1) insert_all_def comp_def)
qed simp

lemma log_holds_sorted:
  assumes "log_holds codec t L"
  shows "list_all2 (\<lambda>(i, b) (j, e). i = j \<and> entry_from_slice codec b = Ok e \<and> entry_index codec e = i)
    (sorted_list_of_fmap (raft_log_table t)) (sorted_list_of_fmap L)"
proof -
  have dom: "fmdom (raft_log_table t) = fmdom L" using assms by (simp add: log_holds_def)
  have "entry_from_slice codec (the (fmlookup (raft_log_table t) i)) = Ok (the (fmlookup L i)) \<and>
      entry_index codec (the (fmlookup L i)) = i" if i: "i |\<in>| fmdom L" for i
  proof -
    from i dom obtain b e where "fmlookup (raft_log_table t) i = Some b" "fmlookup L i = Some e"
      by (metis fmdomE)
    with assms show ?thesis by (simp add: log_holds_def)
  qed
  then show ?thesis
    by (auto simp: sorted_list_of_fmap_def dom list.rel_map intro!: list.rel_refl_strong)
qed

text \<open>The indexes a range covers.\<close>

fun above :: "Bound \<Rightarrow> u64 \<Rightarrow> bool" where
  "above Unbounded i \<longleftrightarrow> True" | "above (Included v) i \<longleftrightarrow> v \<le> i" | "above (Excluded v) i \<longleftrightarrow> v < i"

fun below :: "Bound \<Rightarrow> u64 \<Rightarrow> bool" where
  "below Unbounded i \<longleftrightarrow> True" | "below (Included v) i \<longleftrightarrow> i \<le> v" | "below (Excluded v) i \<longleftrightarrow> i < v"

lemma checked_succ:
  "checked_add v 1 = Some w \<Longrightarrow> w \<le> i \<longleftrightarrow> v < (i :: u64)" "checked_add v 1 = Some w \<Longrightarrow> i < w \<longleftrightarrow> i \<le> (v :: u64)"
  "checked_add v 1 = None \<Longrightarrow> i \<le> v"
  by (auto dest!: checked_add_Some simp: word_le_nat_alt word_less_nat_alt checked_add_None) (use unat_less_u64 [of i] in linarith)

lemma unat_le_max_u64 [simp]: "unat (i :: u64) \<le> 18446744073709551615"
  using unat_less_u64 [of i] by linarith

lemma normalize_range_Ok:
  assumes "normalize_range s e = Ok r"
  shows "above s i \<and> below e i \<longleftrightarrow> (case r of None \<Rightarrow> False
    | Some (start, end') \<Rightarrow> start \<le> i \<and> (case end' of None \<Rightarrow> True | Some x \<Rightarrow> i < x))"
  using assms
  by (cases s; cases e)
    (auto simp: normalize_range_def Let_def checked_succ split: option.splits if_splits dest!: checked_add_Some
      simp: word_le_nat_alt word_less_nat_alt checked_add_None)

text \<open>A successful read returns exactly the entries of the range, in order.\<close>

lemma decode_entries:
  assumes "list_all2 (\<lambda>(i, b) (j, e). i = j \<and> entry_from_slice codec b = Ok e \<and> entry_index codec e = i) xs ys"
  shows "collect_results (\<lambda>(i, b). decode_stored_log_entry codec i b) (filter (\<lambda>(i, _). P i) xs) = Ok (map snd (filter (\<lambda>(i, _). P i) ys))"
  using assms by (induction rule: list_all2_induct) (auto simp: decode_stored_log_entry_def)

lemma normalize_range_returns:
  assumes "s \<noteq> Excluded (-1)"
  shows "\<exists>r. normalize_range s e = Ok r"
proof -
  have "\<exists>w. checked_add v 1 = Some w" if "s = Excluded v" for v
  proof (rule ccontr)
    assume "\<nexists>w. checked_add v 1 = Some w"
    then have "unat v = unat (-1 :: u64)"
      using unat_less_u64 [of v] by (simp add: checked_add_None not_Some_eq unsigned_minus_1_eq_mask mask_eq_exp_minus_1)
    with that assms show False by (simp add: word_unat_eq_iff)
  qed
  then show ?thesis by (cases s) (auto simp: normalize_range_def Let_def)
qed

lemma log_read:
  assumes "redb_laws db tables" "log_holds codec (tables d) L" "db_read db d = Ok t" "s \<noteq> Excluded (-1)"
  shows "try_get_log_entries codec db s e d = Ok (map snd (filter (\<lambda>(i, _). above s i \<and> below e i) (sorted_list_of_fmap L)))"
proof -
  obtain r where r: "normalize_range s e = Ok r" using normalize_range_returns [OF assms(4)] by blast
  show ?thesis
  proof (cases r)
    case None
    with r normalize_range_Ok [OF r] show ?thesis by (auto simp: try_get_log_entries_def filter_empty_conv)
  next
    case (Some p)
    obtain start end' where p: "p = (start, end')" by fastforce
    have "t = tables d" using assms(1,3) by (auto simp: redb_laws_def)
    with assms(3) r Some p normalize_range_Ok [OF r] decode_entries [OF log_holds_sorted [OF assms(2)]] show ?thesis
      by (simp add: try_get_log_entries_def read_log_range_def io_other_def)
  qed
qed

section \<open>The storage refines the log\<close>

datatype ('e, 'l) log_operation = AppendEntries "'e list" | TruncateLog 'l | PurgeLog 'l

definition perform :: "('e, 'l, 'v) raft_codec \<Rightarrow> 'd redb \<Rightarrow> ('e, 'l) log_operation \<Rightarrow> 'd \<Rightarrow> ('l RaftStorageError + unit) \<times> 'd" where
  "perform codec db operation d =
     (case operation of
        AppendEntries es \<Rightarrow> (let (r, callback, d') = append_entries codec db es d in (r, d'))
      | TruncateLog l \<Rightarrow> truncate_log codec db l d
      | PurgeLog l \<Rightarrow> purge_log codec db l d)"

definition log_after :: "('e, 'l, 'v) raft_codec \<Rightarrow> ('e, 'l) log_operation \<Rightarrow> (u64, 'e) fmap \<Rightarrow> (u64, 'e) fmap" where
  "log_after codec operation L =
     (case operation of
        AppendEntries es \<Rightarrow> fold (\<lambda>e. fmupd (entry_index codec e) e) es L
      | TruncateLog l \<Rightarrow> fmfilter (\<lambda>i. i < log_index codec l) L
      | PurgeLog l \<Rightarrow> fmfilter (\<lambda>i. i > log_index codec l) L)"

lemma committing_holds:
  assumes "redb_laws db tables" "committing db f d = (r, d')" "log_holds codec (tables d) L" "log_holds codec (f (tables d)) L'"
  shows "(r = Ok () \<longrightarrow> log_holds codec (tables d') L') \<and> (log_holds codec (tables d') L \<or> log_holds codec (tables d') L')"
proof (rule committing_cases [OF assms(1,2)])
  assume "r = Ok ()" "tables d' = f (tables d)"
  with assms(4) show ?thesis by simp
next
  fix e
  assume "r = Err (Other e)" "tables d' = tables d \<or> tables d' = f (tables d)"
  with assms(3,4) show ?thesis by auto
qed

lemma perform_append:
  assumes "redb_laws db tables" "codec_laws codec" "log_holds codec (tables d) L" "append_entries codec db es d = (r, cb, d')"
  shows "(r = Ok () \<longleftrightarrow> cb = Ok ()) \<and> (r = Ok () \<longrightarrow> log_holds codec (tables d') (log_after codec (AppendEntries es) L)) \<and>
    (log_holds codec (tables d') L \<or> log_holds codec (tables d') (log_after codec (AppendEntries es) L))"
proof (cases "collect_results (encode_entry codec) es")
  case (Inl p)
  with assms(3,4) show ?thesis by (cases p) (auto simp: append_entries_def)
next
  case (Inr ps)
  obtain x d'' where x: "append_log_batch db ps d = (x, d'')" by fastforce
  have d: "d'' = d'" and r: "r = Ok () \<longleftrightarrow> x = Ok ()" "cb = Ok () \<longleftrightarrow> x = Ok ()"
    using assms(4) unfolding append_entries_def Inr sum.case x prod.case by (cases x; auto; fail)+
  note ins = log_holds_insert_all [OF assms(2) Inr assms(3)]
  note batch = x [unfolded append_log_batch_def d]
  consider "ps = []" | "ps \<noteq> []" "has_index_hole ps" | "ps \<noteq> []" "\<not> has_index_hole ps" by blast
  then show ?thesis
  proof cases
    case 1
    with batch have "x = Ok ()" "d' = d" by simp_all
    with 1 ins r assms(3) show ?thesis by (simp add: log_after_def)
  next
    case 2
    with batch have "x \<noteq> Ok ()" "d' = d" by auto
    with r assms(3) show ?thesis by simp
  next
    case 3
    with batch have "committing db (insert_all ps) d = (x, d')" by simp
    from committing_holds [OF assms(1) this assms(3) ins] r show ?thesis by (simp add: log_after_def)
  qed
qed

lemma perform_refines:
  assumes "redb_laws db tables" "codec_laws codec" "log_holds codec (tables d) L" "perform codec db operation d = (r, d')"
  shows "(r = Ok () \<longrightarrow> log_holds codec (tables d') (log_after codec operation L)) \<and>
    (log_holds codec (tables d') L \<or> log_holds codec (tables d') (log_after codec operation L))"
proof (cases operation)
  case (AppendEntries es)
  obtain x cb d'' where x: "append_entries codec db es d = (x, cb, d'')" by (metis prod_cases3)
  with assms(4) AppendEntries have "x = r" "d'' = d'" by (simp_all add: perform_def)
  with perform_append [OF assms(1-3) x] AppendEntries show ?thesis by blast
next
  case (TruncateLog l)
  let ?f = "raft_log_table_update (fmfilter (\<lambda>i. i < log_index codec l))"
  obtain x where x: "committing db ?f d = (x, d')" "r = io_as WriteLogs x"
    using assms(4) TruncateLog by (cases "committing db ?f d") (auto simp: perform_def truncate_log_def truncate_from_def)
  have "log_holds codec (?f (tables d)) (log_after codec operation L)"
    using log_holds_filter [OF assms(3)] TruncateLog by (simp add: log_after_def)
  from committing_holds [OF assms(1) x(1) assms(3) this] x(2) show ?thesis by simp
next
  case (PurgeLog l)
  show ?thesis
  proof (cases "log_id_to_vec codec l")
    case (Inl e)
    with assms(3,4) PurgeLog show ?thesis by (auto simp: perform_def purge_log_def)
  next
    case (Inr b)
    let ?f = "raft_meta_table_update (fmupd LAST_PURGED_KEY b) \<circ> raft_log_table_update (fmfilter (\<lambda>i. i > log_index codec l))"
    obtain x where x: "committing db ?f d = (x, d')" "r = io_as WriteLogs x"
      using assms(4) PurgeLog Inr by (cases "committing db ?f d") (auto simp: perform_def purge_log_def purge_through_and_write_meta_def)
    have "log_holds codec (?f (tables d)) (log_after codec operation L)"
      using log_holds_filter [OF assms(3)] PurgeLog by (simp add: log_after_def)
    from committing_holds [OF assms(1) x(1) assms(3) this] x(2) show ?thesis by simp
  qed
qed

text \<open>A run of successful operations.\<close>

fun performs :: "('e, 'l, 'v) raft_codec \<Rightarrow> 'd redb \<Rightarrow> ('e, 'l) log_operation list \<Rightarrow> 'd \<Rightarrow> 'd option" where
  "performs codec db [] d = Some d"
| "performs codec db (operation # rest) d =
     (case perform codec db operation d of (Ok _, d') \<Rightarrow> performs codec db rest d' | (Err _, _) \<Rightarrow> None)"

lemma performs_refines:
  assumes "redb_laws db tables" "codec_laws codec" "performs codec db ops d = Some d'" "log_holds codec (tables d) L"
  shows "log_holds codec (tables d') (fold (log_after codec) ops L)"
  using assms(3,4)
proof (induction ops arbitrary: d L)
  case (Cons operation rest)
  then obtain d1 where d1: "perform codec db operation d = (Ok (), d1)" "performs codec db rest d1 = Some d'"
    by (auto split: prod.splits sum.splits)
  with perform_refines [OF assms(1,2) Cons.prems(2) d1(1)] Cons.IH [OF d1(2)] show ?case by simp
qed simp

lemma perform_meta:
  assumes "redb_laws db tables" "perform codec db operation d = (Ok (), d')" "key \<noteq> LAST_PURGED_KEY"
  shows "fmlookup (raft_meta_table (tables d')) key = fmlookup (raft_meta_table (tables d)) key"
proof (cases operation)
  case (AppendEntries es)
  obtain x cb d'' where x: "append_entries codec db es d = (x, cb, d'')" by (metis prod_cases3)
  with assms(2) AppendEntries have "append_entries codec db es d = (Ok (), cb, d')" by (simp add: perform_def)
  then obtain ps where "append_log_batch db ps d = (Ok (), d')"
    by (auto simp: append_entries_def split: sum.splits prod.splits)
  then have "d' = d \<or> committing db (insert_all ps) d = (Ok (), d')" by (auto simp: append_log_batch_def split: if_splits)
  then show ?thesis by (auto dest: committing_Ok [OF assms(1)] simp: insert_all_def)
next
  case (TruncateLog l)
  let ?f = "raft_log_table_update (fmfilter (\<lambda>i. i < log_index codec l))"
  have "committing db ?f d = (Ok (), d')" using assms(2) TruncateLog
    by (cases "committing db ?f d") (auto simp: perform_def truncate_log_def truncate_from_def)
  from committing_Ok [OF assms(1) this] show ?thesis by simp
next
  case (PurgeLog l)
  obtain b where b: "log_id_to_vec codec l = Ok b"
    using assms(2) PurgeLog by (cases "log_id_to_vec codec l") (auto simp: perform_def purge_log_def)
  let ?f = "raft_meta_table_update (fmupd LAST_PURGED_KEY b) \<circ> raft_log_table_update (fmfilter (\<lambda>i. i > log_index codec l))"
  have "committing db ?f d = (Ok (), d')" using assms(2) PurgeLog b
    by (cases "committing db ?f d") (auto simp: perform_def purge_log_def purge_through_and_write_meta_def)
  from committing_Ok [OF assms(1) this] assms(3) show ?thesis by simp
qed

lemma performs_meta:
  assumes "redb_laws db tables" "performs codec db ops d = Some d'" "key \<noteq> LAST_PURGED_KEY"
  shows "fmlookup (raft_meta_table (tables d')) key = fmlookup (raft_meta_table (tables d)) key"
  using assms(2)
proof (induction ops arbitrary: d)
  case (Cons operation rest)
  then obtain d1 where d1: "perform codec db operation d = (Ok (), d1)" "performs codec db rest d1 = Some d'"
    by (auto split: prod.splits sum.splits)
  with perform_meta [OF assms(1) d1(1) assms(3)] Cons.IH [OF d1(2)] show ?case by simp
qed simp

section \<open>Properties\<close>

definition no_tables :: RaftTables where
  "no_tables = \<lparr>raft_log_table = fmempty, raft_meta_table = fmempty\<rparr>"

text \<open>A codec of two entries, at the indexes one and two.\<close>

definition codec1 :: "(bool, u64, u64) raft_codec" where
  "codec1 = \<lparr>entry_log_id = (\<lambda>e. if e then 2 else 1), log_index = id,
     entry_to_vec = (\<lambda>e. Ok (if e then ''t'' else ''f'')), entry_from_slice = (\<lambda>b. Ok (b = ''t'')),
     log_id_to_vec = (\<lambda>l. if l = 1 then Ok ''1'' else Err ''unsupported''), log_id_from_slice = (\<lambda>b. Ok 1),
     committed_to_vec = (\<lambda>l. if l = Some 1 then Ok ''1'' else Err ''unsupported''),
     vote_to_vec = (\<lambda>v. if v = 7 then Ok ''7'' else Err ''unsupported''), vote_from_slice = (\<lambda>b. Ok 7)\<rparr>"

lemma codec1_laws: "codec_laws codec1"
  by (simp add: codec_laws_def codec1_def)

text \<open>
  C17: The durable Raft log is a log.  After any sequence of successful appends, truncations and purges of
  a fresh store, reading a range of indexes from a database that can be read succeeds and returns the
  entries that a map from indexes to entries would hold there, each once and in ascending order.  The
  range must not start after the largest index, which the code refuses.
\<close>

theorem durable_log_is_a_log:
  assumes "redb_laws db tables" "codec_laws codec" "tables d = no_tables" "performs codec db ops d = Some d'"
    and "db_read db d' = Ok t" "s \<noteq> Excluded (-1)"
  shows "try_get_log_entries codec db s e d' =
    Ok (map snd (filter (\<lambda>(i, _). above s i \<and> below e i) (sorted_list_of_fmap (fold (log_after codec) ops fmempty))))"
  using log_read [OF assms(1) performs_refines [OF assms(1,2,4)] assms(5,6), of fmempty] assms(3)
  by (simp add: no_tables_def log_holds_empty)

theorem durable_log_is_a_log_witness:
  "try_get_log_entries codec1 memory_db (Included 1) Unbounded
     (the (performs codec1 memory_db [AppendEntries [False, True], TruncateLog 2] no_tables)) = Ok [False]"
proof -
  let ?ops = "[AppendEntries [False, True], TruncateLog (2 :: u64)]"
  let ?d = "\<lparr>raft_log_table = fmupd 1 ''f'' fmempty, raft_meta_table = fmempty\<rparr>"
  have d: "performs codec1 memory_db ?ops no_tables = Some ?d"
    by (simp add: perform_def append_entries_def encode_entry_def codec1_def append_log_batch_def saturating_succ_def
      checked_add_def committing_def memory_db_def io_other_def truncate_log_def truncate_from_def Let_def insert_all_def no_tables_def)
  have "db_read memory_db ?d = Ok ?d" by (simp add: memory_db_def)
  then have "try_get_log_entries codec1 memory_db (Included 1) Unbounded ?d = Ok [False]"
    using durable_log_is_a_log [OF memory_db_laws codec1_laws _ d, of ?d "Included 1" Unbounded]
    by (simp add: no_tables_def log_after_def codec1_def sorted_list_of_fmap_def insort_insert_key_def)
  with d show ?thesis by simp
qed

text \<open>
  C20: A vote is not lost.  Once a vote is saved, no sequence of log operations changes what reading
  the vote returns.
\<close>

theorem saved_vote_is_kept:
  assumes "redb_laws db tables" "codec_laws codec" "save_vote codec db v d = (Ok (), d1)"
    and "performs codec db ops d1 = Some d'" "db_read db d' = Ok t"
  shows "read_vote codec db d' = Ok (Some v)"
proof -
  obtain b where v: "vote_to_vec codec v = Ok b" using assms(3) by (cases "vote_to_vec codec v") (auto simp: save_vote_def)
  let ?f = "raft_meta_table_update (fmupd VOTE_KEY b)"
  have w: "committing db ?f d = (Ok (), d1)"
    using assms(3) v by (cases "committing db ?f d") (auto simp: save_vote_def write_meta_def)
  have "fmlookup (raft_meta_table (tables d')) VOTE_KEY = Some b"
    using performs_meta [OF assms(1,4)] committing_Ok [OF assms(1) w] by (simp add: VOTE_KEY_def LAST_PURGED_KEY_def)
  moreover have "vote_from_slice codec b = Ok v" using assms(2) v by (simp add: codec_laws_def)
  moreover have "t = tables d'" using assms(1,5) by (auto simp: redb_laws_def)
  ultimately show ?thesis using assms(5) by (simp add: read_vote_def read_meta_def io_other_def)
qed

theorem saved_vote_is_kept_witness:
  "read_vote codec1 memory_db (the (performs codec1 memory_db [AppendEntries [False], PurgeLog 1]
     (snd (save_vote codec1 memory_db 7 no_tables)))) = Ok (Some 7)"
proof -
  let ?ops = "[AppendEntries [False], PurgeLog (1 :: u64)]" and ?d = "snd (save_vote codec1 memory_db 7 no_tables)"
  have s: "save_vote codec1 memory_db 7 no_tables = (Ok (), ?d)"
    by (simp add: save_vote_def codec1_def write_meta_def committing_def memory_db_def io_other_def)
  obtain d where d: "performs codec1 memory_db ?ops ?d = Some d"
    by (simp add: perform_def append_entries_def encode_entry_def codec1_def append_log_batch_def save_vote_def write_meta_def
      committing_def memory_db_def io_other_def purge_log_def purge_through_and_write_meta_def Let_def
      insert_all_def no_tables_def VOTE_KEY_def LAST_PURGED_KEY_def)
  have "db_read memory_db d = Ok d" by (simp add: memory_db_def)
  from saved_vote_is_kept [OF memory_db_laws codec1_laws s d this] d show ?thesis by simp
qed

end
