(* ===== verification/Raft_State_Machine.thy ===== *)
theory Raft_State_Machine
  imports Broker_Answers Raft_Log_Storage Broker_Determinism
begin

text \<open>
  \<open>agent-broker-consensus/src/raft_state_machine.rs\<close> and \<open>raft_observation.rs\<close>: the replica that applies
  committed log entries to the broker, with the command sessions that make identified commands take
  effect once.  Log identifiers and memberships are types of the Raft library.
\<close>

section \<open>Observation\<close>

record RaftBrokerObservation =
  ob_term :: u64
  ob_revision :: u64
  ob_group_directory :: ConsumerGroupDirectory
  ob_has_applied_index :: bool
  ob_applied_index :: u64

definition observation_new :: "BrokerState \<Rightarrow> u64 option \<Rightarrow> RaftBrokerObservation" where
  "observation_new state applied_index =
     \<lparr>ob_term = st_term state, ob_revision = st_revision state, ob_group_directory = group_directory state,
      ob_has_applied_index = (applied_index \<noteq> None), ob_applied_index = (case applied_index of None \<Rightarrow> 0 | Some i \<Rightarrow> i)\<rparr>"

definition observation_update :: "BrokerState \<Rightarrow> u64 option \<Rightarrow> RaftBrokerObservation \<Rightarrow> RaftBrokerObservation" where
  "observation_update state applied_index ob =
     (let ob = ob\<lparr>ob_group_directory := group_directory state, ob_term := st_term state,
                  ob_revision := st_revision state, ob_has_applied_index := False\<rparr>
      in case applied_index of
           None \<Rightarrow> ob
         | Some index \<Rightarrow> ob\<lparr>ob_applied_index := index, ob_has_applied_index := True\<rparr>)"

definition observed_applied_index :: "RaftBrokerObservation \<Rightarrow> u64 option" where
  "observed_applied_index ob = (if ob_has_applied_index ob then Some (ob_applied_index ob) else None)"

definition validated_term :: "RaftBrokerObservation \<Rightarrow> FencingValueError + Term" where
  "validated_term ob = Term_new (ob_term ob)"

section \<open>Replicas\<close>

record CommandSessionOutcome =
  co_sequence :: CommandSequence
  co_command :: ReplicatedBrokerCommandV1
  co_response :: ReplicatedBrokerResponseV1

record CommandSessionRecord =
  cs_owner_epoch :: SessionOwnerEpoch
  cs_owner_instance_id :: "SessionOwnerInstanceId option"
  cs_last_outcome :: "CommandSessionOutcome option"

type_synonym command_sessions = "(CommandSessionId, CommandSessionRecord) fmap"

definition MAX_COMMAND_SESSIONS :: usize where "MAX_COMMAND_SESSIONS = 4096"

record ('d, 'l, 'sm) AgentBrokerRaftStateMachine =
  rsm_persistence :: 'd
  rsm_broker :: BrokerStateMachine
  rsm_command_sessions :: command_sessions
  rsm_observation :: RaftBrokerObservation
  rsm_last_applied :: "'l option"
  rsm_last_membership :: 'sm

definition invalid_state_machine_data :: "('e \<Rightarrow> string) \<Rightarrow> 'e + 'a \<Rightarrow> IoError + 'a" where
  "invalid_state_machine_data display = map_err (\<lambda>e. InvalidData (display e))"

definition replicated_application_error :: "BrokerErrorCode \<Rightarrow> string \<Rightarrow> IoError + ReplicatedBrokerResponseV1" where
  "replicated_application_error code message =
     (let error = with_disposition Rejected (BrokerError_new code message)
      in invalid_state_machine_data rre_message (from_pre_application_rejection error))"

section \<open>Applying commands\<close>

definition apply_replicated_command ::
  "ReplicatedBrokerCommandV1 \<Rightarrow> ('d, 'l, 'sm) AgentBrokerRaftStateMachine \<Rightarrow>
   (IoError + ReplicatedBrokerResponseV1) \<times> ('d, 'l, 'sm) AgentBrokerRaftStateMachine" where
  "apply_replicated_command command s =
     (case invalid_state_machine_data rce_message (to_broker_command command) of
        Err e \<Rightarrow> (Err e, s)
      | Ok c \<Rightarrow>
          (case broker_apply c (rsm_broker s) of
             (r, m) \<Rightarrow>
               (let application_result = map_err from_state_machine_error (map_sum id am_result r)
                in (invalid_state_machine_data rre_message (from_application_result application_result), s\<lparr>rsm_broker := m\<rparr>))))"

definition apply_identified ::
  "CommandIdentity \<Rightarrow> ReplicatedBrokerCommandV1 \<Rightarrow> ('d, 'l, 'sm) AgentBrokerRaftStateMachine \<Rightarrow>
   (IoError + ReplicatedBrokerResponseV1) \<times> ('d, 'l, 'sm) AgentBrokerRaftStateMachine" where
  "apply_identified identity command s =
     (let sid = ci_session_id identity;
          name = session_str sid;
          proceed =
            (case apply_replicated_command command s of
               (Err e, s') \<Rightarrow> (Err e, s')
             | (Ok response, s') \<Rightarrow>
                 (Ok response, s'\<lparr>rsm_command_sessions := fmupd sid
                    \<lparr>cs_owner_epoch = ci_owner_epoch identity, cs_owner_instance_id = ci_owner_instance_id identity,
                     cs_last_outcome = Some \<lparr>co_sequence = ci_sequence identity, co_command = command,
                       co_response = response\<rparr>\<rparr> (rsm_command_sessions s')\<rparr>))
      in case fmlookup (rsm_command_sessions s) sid of
           Some r \<Rightarrow>
             if ci_owner_epoch identity \<noteq> cs_owner_epoch r then
               (replicated_application_error StaleFence
                  (''command session '' @ name @ '' owner epoch '' @ show_u64 (ci_owner_epoch identity) @
                   '' does not match broker-authoritative epoch '' @ show_u64 (cs_owner_epoch r)), s)
             else if ci_owner_instance_id identity \<noteq> cs_owner_instance_id r then
               (replicated_application_error StaleFence
                  (''command session '' @ name @ '' owner instance does not match broker-authoritative owner instance''), s)
             else
               (case cs_last_outcome r of
                  Some last_outcome \<Rightarrow>
                    if ci_sequence identity < co_sequence last_outcome then
                      (replicated_application_error StaleFence
                         (''command_sequence '' @ show_u64 (ci_sequence identity) @ '' is older than committed sequence '' @
                          show_u64 (co_sequence last_outcome) @ '' for session '' @ name), s)
                    else if ci_sequence identity = co_sequence last_outcome then
                      if same_identified_request command (co_command last_outcome) then (Ok (co_response last_outcome), s)
                      else
                        (replicated_application_error Conflict
                           (''command_sequence '' @ show_u64 (ci_sequence identity) @ '' for session '' @ name @
                            '' is already committed with different command content''), s)
                    else proceed
                | None \<Rightarrow>
                    if ci_sequence identity \<noteq> 1 then
                      (replicated_application_error StaleFence
                         (''new owner epoch '' @ show_u64 (ci_owner_epoch identity) @ '' for session '' @ name @
                          '' must restart command_sequence at 1, got '' @ show_u64 (ci_sequence identity)), s)
                    else proceed)
         | None \<Rightarrow>
             if ci_owner_epoch identity \<noteq> SessionOwnerEpoch_INITIAL then
               (replicated_application_error StaleFence
                  (''new command session '' @ name @ '' must begin at broker-authoritative owner epoch 1, got '' @
                   show_u64 (ci_owner_epoch identity)), s)
             else if ci_owner_instance_id identity \<noteq> None then
               (replicated_application_error StaleFence
                  (''new command session '' @ name @ '' cannot self-authorize an owner instance before broker acquisition''), s)
             else if fm_len (rsm_command_sessions s) \<ge> MAX_COMMAND_SESSIONS then
               (replicated_application_error BrokerErrorCode.CapacityExceeded
                  (''command session capacity reached: max '' @ show_nat MAX_COMMAND_SESSIONS @ '' active sessions''), s)
             else proceed)"

definition acquire_command_session_owner ::
  "string \<Rightarrow> u64 \<Rightarrow> string \<Rightarrow> ('d, 'l, 'sm) AgentBrokerRaftStateMachine \<Rightarrow>
   (IoError + ReplicatedBrokerResponseV1) \<times> ('d, 'l, 'sm) AgentBrokerRaftStateMachine" where
  "acquire_command_session_owner session_id expected_owner_epoch owner_instance_id s =
     (case try_r (invalid_state_machine_data CommandIdentityError_display (CommandSessionId_new session_id)) (\<lambda>sid.
           try_r (invalid_state_machine_data CommandIdentityError_display (SessionOwnerEpoch_new expected_owner_epoch)) (\<lambda>expected.
           try_r (invalid_state_machine_data CommandIdentityError_display (SessionOwnerInstanceId_new owner_instance_id)) (\<lambda>owner.
           Ok (sid, expected, owner)))) of
        Err e \<Rightarrow> (Err e, s)
      | Ok (sid, expected, owner) \<Rightarrow>
          (let name = session_str sid in
           case fmlookup (rsm_command_sessions s) sid of
             None \<Rightarrow>
               if expected \<noteq> SessionOwnerEpoch_INITIAL then
                 (replicated_application_error StaleFence
                    (''new command session '' @ name @ '' must begin at broker-authoritative owner epoch 1, got '' @
                     show_u64 expected), s)
               else if fm_len (rsm_command_sessions s) \<ge> MAX_COMMAND_SESSIONS then
                 (replicated_application_error BrokerErrorCode.CapacityExceeded
                    (''command session capacity reached: max '' @ show_nat MAX_COMMAND_SESSIONS @ '' active sessions''), s)
               else
                 (Ok (SessionOwnerAcquired SessionOwnerEpoch_INITIAL),
                  s\<lparr>rsm_command_sessions := fmupd sid
                      \<lparr>cs_owner_epoch = SessionOwnerEpoch_INITIAL, cs_owner_instance_id = Some owner, cs_last_outcome = None\<rparr>
                      (rsm_command_sessions s)\<rparr>)
           | Some r \<Rightarrow>
               if cs_owner_instance_id r = Some owner \<and>
                  (cs_owner_epoch r = expected \<or> checked_add expected 1 = Some (cs_owner_epoch r)) then
                 (Ok (SessionOwnerAcquired (cs_owner_epoch r)), s)
               else if cs_owner_epoch r \<noteq> expected then
                 (replicated_application_error StaleFence
                    (''command session '' @ name @ '' expected owner epoch '' @ show_u64 expected @
                     '' but broker-authoritative epoch is '' @ show_u64 (cs_owner_epoch r)), s)
               else
                 (case checked_add (cs_owner_epoch r) 1 of
                    None \<Rightarrow>
                      (replicated_application_error BrokerErrorCode.CapacityExceeded
                         (''command session '' @ name @ '' owner epoch is exhausted''), s)
                  | Some next_epoch \<Rightarrow>
                      (case invalid_state_machine_data CommandIdentityError_display (SessionOwnerEpoch_new next_epoch) of
                         Err e \<Rightarrow> (Err e, s)
                       | Ok next_owner_epoch \<Rightarrow>
                           (Ok (SessionOwnerAcquired next_owner_epoch),
                            s\<lparr>rsm_command_sessions := fmupd sid
                                \<lparr>cs_owner_epoch = next_owner_epoch, cs_owner_instance_id = Some owner, cs_last_outcome = None\<rparr>
                                (rsm_command_sessions s)\<rparr>)))))"

definition apply_proposal ::
  "ReplicatedBrokerProposalV1 \<Rightarrow> ('d, 'l, 'sm) AgentBrokerRaftStateMachine \<Rightarrow>
   (IoError + ReplicatedBrokerResponseV1) \<times> ('d, 'l, 'sm) AgentBrokerRaftStateMachine" where
  "apply_proposal proposal s =
     (case invalid_state_machine_data rce_message (into_parts proposal) of
        Err e \<Rightarrow> (Err e, s)
      | Ok (identity, command) \<Rightarrow>
          (case command of
             AcquireCommandSessionOwnerV1 session_id expected_owner_epoch owner_instance_id \<Rightarrow>
               if identity \<noteq> None then
                 (Err (InvalidData ''command-session owner acquisition must not carry identified mutation identity''), s)
               else acquire_command_session_owner session_id expected_owner_epoch owner_instance_id s
           | _ \<Rightarrow>
               (case identity of
                  Some identity \<Rightarrow> apply_identified identity command s
                | None \<Rightarrow> apply_replicated_command command s)))"

section \<open>Applying log entries\<close>

datatype 'mb EntryPayload = Blank | Normal ReplicatedBrokerProposalV1 | Membership 'mb

record ('l, 'mb) Entry =
  le_log_id :: 'l
  le_payload :: "'mb EntryPayload"

record ('l, 'mb, 'sm) raft_types =
  rt_index :: "'l \<Rightarrow> u64"
  rt_leader_display :: "'l \<Rightarrow> string"
  rt_stored_membership :: "'l option \<Rightarrow> 'mb \<Rightarrow> 'sm"
  rt_default_membership :: 'sm

fun raft_apply ::
  "('l, 'mb, 'sm) raft_types \<Rightarrow> ('l, 'mb) Entry list \<Rightarrow> ('d, 'l, 'sm) AgentBrokerRaftStateMachine \<Rightarrow>
   ('l RaftStorageError + ReplicatedBrokerResponseV1 list) \<times> ('d, 'l, 'sm) AgentBrokerRaftStateMachine" where
  "raft_apply types [] s = (Ok [], s)"
| "raft_apply types (entry # entries) s =
     (case (case le_payload entry of
              Blank \<Rightarrow> (Ok RaftControl, s)
            | Membership membership \<Rightarrow>
                (Ok RaftControl, s\<lparr>rsm_last_membership := rt_stored_membership types (Some (le_log_id entry)) membership\<rparr>)
            | Normal data \<Rightarrow> map_prod (io_as ReadStateMachine) id (apply_proposal data s)) of
        (Err e, s1) \<Rightarrow> (Err e, s1)
      | (Ok response, s1) \<Rightarrow>
          (let s2 = s1\<lparr>rsm_last_applied := Some (le_log_id entry)\<rparr>;
               s3 = s2\<lparr>rsm_observation := observation_update (sm_state (rsm_broker s2))
                         (map_option (rt_index types) (rsm_last_applied s2)) (rsm_observation s2)\<rparr>
           in case raft_apply types entries s3 of
                (Err e, s4) \<Rightarrow> (Err e, s4)
              | (Ok responses, s4) \<Rightarrow> (Ok (response # responses), s4)))"

end
