(* ===== verification/Raft_Sessions.thy ===== *)
theory Raft_Sessions
  imports Raft_State_Machine
begin

text \<open>
  Command sessions: an identified command takes effect at most once, an owner that lost its session is
  fenced, and the session table is bounded.
\<close>

section \<open>Outcomes of a proposal\<close>

definition rejected :: "ReplicatedBrokerResponseV1 \<Rightarrow> bool" where
  "rejected response \<longleftrightarrow> (case response of ApplicationError e \<Rightarrow> re_disposition e = RejectedV1 | _ \<Rightarrow> False)"

definition rejection :: "BrokerErrorCode \<Rightarrow> string \<Rightarrow> ReplicatedBrokerResponseV1" where
  "rejection code message =
     ApplicationError \<lparr>re_code = to_code_v1 code, re_message = message, re_disposition = RejectedV1\<rparr>"

lemma rejection_simps [simp]:
  "replicated_application_error code message = Ok (rejection code message)" "rejected (rejection code message)"
  by (simp_all add: replicated_application_error_def from_pre_application_rejection_def invalid_state_machine_data_def to_error_v1_def
      with_disposition_def BrokerError_new_def rejection_def rejected_def)

lemma rejected_simps [simp]:
  "rejected (ApplicationError e) \<longleftrightarrow> re_disposition e = RejectedV1" "\<not> rejected RaftControl"
  "\<not> rejected (SessionOwnerAcquired n)" "\<not> rejected (Success v)"
  by (simp_all add: rejected_def)

lemma invalid_data_Ok [simp]: "invalid_state_machine_data display r = Ok x \<longleftrightarrow> r = Ok x"
  by (simp add: invalid_state_machine_data_def)

text \<open>The identities for which a session lets a command through.\<close>

definition admits :: "command_sessions \<Rightarrow> CommandIdentity \<Rightarrow> bool" where
  "admits sessions i \<longleftrightarrow>
     (case fmlookup sessions (ci_session_id i) of
        None \<Rightarrow> ci_owner_epoch i = 1 \<and> ci_owner_instance_id i = None \<and> fm_len sessions < MAX_COMMAND_SESSIONS
      | Some r \<Rightarrow> ci_owner_epoch i = cs_owner_epoch r \<and> ci_owner_instance_id i = cs_owner_instance_id r \<and>
          (case cs_last_outcome r of None \<Rightarrow> ci_sequence i = 1 | Some last_outcome \<Rightarrow> co_sequence last_outcome < ci_sequence i))"

definition session_record :: "CommandIdentity \<Rightarrow> ReplicatedBrokerCommandV1 \<Rightarrow> ReplicatedBrokerResponseV1 \<Rightarrow> CommandSessionRecord" where
  "session_record i command response =
     \<lparr>cs_owner_epoch = ci_owner_epoch i, cs_owner_instance_id = ci_owner_instance_id i,
      cs_last_outcome = Some \<lparr>co_sequence = ci_sequence i, co_command = command, co_response = response\<rparr>\<rparr>"

lemma apply_replicated_frame:
  assumes "apply_replicated_command command s = (r, s')"
  shows "rsm_command_sessions s' = rsm_command_sessions s"
  using assms by (auto simp: apply_replicated_command_def Let_def split: sum.splits prod.splits)

lemma apply_replicated_not_rejected:
  assumes "apply_replicated_command command s = (Ok response, s')"
  shows "\<not> rejected response"
  using assms
  by (auto simp: apply_replicated_command_def Let_def from_application_result_def try_r_Ok to_error_v1_def with_disposition_def
      split: sum.splits prod.splits)

lemma admitted_execution:
  assumes "admits (rsm_command_sessions s) i" "apply_replicated_command command s = (r1, s1)"
  shows "apply_identified i command s = (case (r1, s1) of (Err e, s') \<Rightarrow> (Err e, s')
    | (Ok x, s') \<Rightarrow> (Ok x, s'\<lparr>rsm_command_sessions := fmupd (ci_session_id i) (session_record i command x) (rsm_command_sessions s')\<rparr>))"
proof (cases "fmlookup (rsm_command_sessions s) (ci_session_id i)")
  case None
  with assms show ?thesis
    by (cases r1) (simp_all add: apply_identified_def admits_def session_record_def Let_def SessionOwnerEpoch_INITIAL_def del: append_Cons)
next
  case (Some rec)
  with assms show ?thesis
    by (cases "cs_last_outcome rec"; cases r1)
      (auto simp: apply_identified_def admits_def session_record_def Let_def simp del: append_Cons)
qed

lemma identified_cases:
  assumes "apply_identified i command s = (r, s')"
  obtains (refused) x where "r = Ok x" "rejected x" "s' = s" "\<not> admits (rsm_command_sessions s) i"
  | (replayed) rec last_outcome where "fmlookup (rsm_command_sessions s) (ci_session_id i) = Some rec"
    "cs_owner_epoch rec = ci_owner_epoch i" "cs_owner_instance_id rec = ci_owner_instance_id i"
    "cs_last_outcome rec = Some last_outcome" "co_sequence last_outcome = ci_sequence i"
    "same_identified_request command (co_command last_outcome)" "r = Ok (co_response last_outcome)" "s' = s"
  | (failed) e where "admits (rsm_command_sessions s) i" "apply_replicated_command command s = (Err e, s')" "r = Err e"
  | (executed) x s1 where "admits (rsm_command_sessions s) i" "apply_replicated_command command s = (Ok x, s1)" "r = Ok x"
    "s' = s1\<lparr>rsm_command_sessions := fmupd (ci_session_id i) (session_record i command x) (rsm_command_sessions s1)\<rparr>"
proof (cases "admits (rsm_command_sessions s) i")
  case True
  obtain r1 s1 where app: "apply_replicated_command command s = (r1, s1)" by fastforce
  note eq = admitted_execution [OF True app]
  show thesis
  proof (cases r1)
    case (Inl e)
    with eq assms have "r = Err e" "s' = s1" by simp_all
    with app Inl show thesis by (intro failed [OF True]) simp_all
  next
    case (Inr x)
    from eq Inr assms have "r = Ok x"
      "s' = s1\<lparr>rsm_command_sessions := fmupd (ci_session_id i) (session_record i command x) (rsm_command_sessions s1)\<rparr>" by simp_all
    with app Inr show thesis by (intro executed [OF True]) simp_all
  qed
next
  case False
  show thesis
  proof (cases "fmlookup (rsm_command_sessions s) (ci_session_id i)")
    case None
    with False assms have "\<exists>x. r = Ok x \<and> rejected x \<and> s' = s"
      by (auto simp: apply_identified_def admits_def SessionOwnerEpoch_INITIAL_def Let_def simp del: append_Cons split: if_splits)
    with False refused show thesis by blast
  next
    case (Some rec)
    consider "\<exists>x. r = Ok x \<and> rejected x \<and> s' = s"
      | last_outcome where "cs_owner_epoch rec = ci_owner_epoch i" "cs_owner_instance_id rec = ci_owner_instance_id i"
        "cs_last_outcome rec = Some last_outcome" "co_sequence last_outcome = ci_sequence i"
        "same_identified_request command (co_command last_outcome)" "r = Ok (co_response last_outcome)" "s' = s"
      using False Some assms
      by (cases "cs_last_outcome rec") (auto simp: apply_identified_def admits_def Let_def simp del: append_Cons split: if_splits)
    then show thesis
    proof cases
      case 1
      with False refused show thesis by blast
    next
      case 2
      with Some show thesis by (intro replayed)
    qed
  qed
qed

text \<open>The two halves of an acquisition: the session is new, or it has a record.\<close>

abbreviation owned_session :: "u64 \<Rightarrow> SessionOwnerInstanceId \<Rightarrow> CommandSessionRecord" where
  "owned_session e owner \<equiv> \<lparr>cs_owner_epoch = e, cs_owner_instance_id = Some owner, cs_last_outcome = None\<rparr>"

abbreviation session_names :: "string \<Rightarrow> u64 \<Rightarrow> string \<Rightarrow> CommandSessionId \<Rightarrow> SessionOwnerInstanceId \<Rightarrow> bool" where
  "session_names raw expected raw_owner sid owner \<equiv> CommandSessionId_new raw = Ok sid \<and> SessionOwnerEpoch_new expected = Ok expected \<and>
     SessionOwnerInstanceId_new raw_owner = Ok owner"

lemma acquire_vacant:
  assumes "session_names raw expected raw_owner sid owner" "fmlookup (rsm_command_sessions s) sid = None"
    and "acquire_command_session_owner raw expected raw_owner s = (r, s')"
  obtains x where "r = Ok x" "rejected x" "s' = s"
  | "fm_len (rsm_command_sessions s) < MAX_COMMAND_SESSIONS" "r = Ok (SessionOwnerAcquired 1)"
    "s' = s\<lparr>rsm_command_sessions := fmupd sid (owned_session 1 owner) (rsm_command_sessions s)\<rparr>"
proof -
  have ids: "CommandSessionId_new raw = Ok sid" "SessionOwnerEpoch_new expected = Ok expected"
    "SessionOwnerInstanceId_new raw_owner = Ok owner" using assms(1) by simp_all
  note result = assms(3) [unfolded acquire_command_session_owner_def ids Let_def try_r_simps invalid_state_machine_data_def map_err_simps
    sum.case prod.case assms(2) option.case]
  show thesis
  proof (cases "expected = 1 \<and> fm_len (rsm_command_sessions s) < MAX_COMMAND_SESSIONS")
    case True
    with result show thesis by (intro that(2)) (simp_all add: SessionOwnerEpoch_INITIAL_def del: append_Cons)
  next
    case False
    with result have "\<exists>x. r = Ok x \<and> rejected x \<and> s' = s"
      by (auto simp: SessionOwnerEpoch_INITIAL_def simp del: append_Cons split: if_splits)
    with that(1) show thesis by blast
  qed
qed

lemma acquire_held:
  assumes "session_names raw expected raw_owner sid owner" "fmlookup (rsm_command_sessions s) sid = Some rec"
    and "acquire_command_session_owner raw expected raw_owner s = (r, s')"
  obtains x where "r = Ok x" "rejected x" "s' = s"
  | "cs_owner_instance_id rec = Some owner" "r = Ok (SessionOwnerAcquired (cs_owner_epoch rec))" "s' = s"
  | e where "cs_owner_epoch rec < e" "r = Ok (SessionOwnerAcquired e)"
    "s' = s\<lparr>rsm_command_sessions := fmupd sid (owned_session e owner) (rsm_command_sessions s)\<rparr>"
proof -
  have ids: "CommandSessionId_new raw = Ok sid" "SessionOwnerEpoch_new expected = Ok expected"
    "SessionOwnerInstanceId_new raw_owner = Ok owner" using assms(1) by simp_all
  note result = assms(3) [unfolded acquire_command_session_owner_def ids Let_def try_r_simps invalid_state_machine_data_def map_err_simps
    sum.case prod.case assms(2) option.case]
  consider "cs_owner_instance_id rec = Some owner" "cs_owner_epoch rec = expected \<or> checked_add expected 1 = Some (cs_owner_epoch rec)"
    | "cs_owner_instance_id rec \<noteq> Some owner \<or> cs_owner_epoch rec \<noteq> expected \<and> checked_add expected 1 \<noteq> Some (cs_owner_epoch rec)"
    by blast
  then show thesis
  proof cases
    case 1
    with result that(2) show thesis by (simp del: append_Cons)
  next
    case 2
    show thesis
    proof (cases "if cs_owner_epoch rec = expected then checked_add (cs_owner_epoch rec) 1 else None")
      case None
      with 2 result have "\<exists>x. r = Ok x \<and> rejected x \<and> s' = s" by (auto simp del: append_Cons split: if_splits)
      with that(1) show thesis by blast
    next
      case (Some e)
      then have "unat e = unat (cs_owner_epoch rec) + 1" by (auto dest: checked_add_Some split: if_splits)
      then have e: "cs_owner_epoch rec < e" "SessionOwnerEpoch_new e = Ok e"
        by (auto simp: word_less_nat_alt SessionOwnerEpoch_new_def)
      with 2 Some result that(3) show thesis by (simp del: append_Cons split: if_splits)
    qed
  qed
qed

lemma acquire_cases:
  assumes "acquire_command_session_owner raw expected raw_owner s = (r, s')"
  obtains (failed) e where "r = Err e" "s' = s"
  | (refused) x where "r = Ok x" "rejected x" "s' = s"
  | (kept) sid owner rec where "CommandSessionId_new raw = Ok sid" "SessionOwnerInstanceId_new raw_owner = Ok owner"
    "fmlookup (rsm_command_sessions s) sid = Some rec" "cs_owner_instance_id rec = Some owner"
    "r = Ok (SessionOwnerAcquired (cs_owner_epoch rec))" "s' = s"
  | (acquired) sid owner e where "CommandSessionId_new raw = Ok sid" "SessionOwnerInstanceId_new raw_owner = Ok owner"
    "(case fmlookup (rsm_command_sessions s) sid of
        None \<Rightarrow> e = 1 \<and> fm_len (rsm_command_sessions s) < MAX_COMMAND_SESSIONS | Some rec \<Rightarrow> cs_owner_epoch rec < e)"
    "r = Ok (SessionOwnerAcquired e)"
    "s' = s\<lparr>rsm_command_sessions := fmupd sid \<lparr>cs_owner_epoch = e, cs_owner_instance_id = Some owner, cs_last_outcome = None\<rparr>
        (rsm_command_sessions s)\<rparr>"
proof (cases "\<exists>sid owner. session_names raw expected raw_owner sid owner")
  case False
  then have "\<exists>e. r = Err e \<and> s' = s"
    using assms by (cases "CommandSessionId_new raw"; cases "SessionOwnerEpoch_new expected"; cases "SessionOwnerInstanceId_new raw_owner")
      (auto simp: acquire_command_session_owner_def invalid_state_machine_data_def SessionOwnerEpoch_new_def split: if_splits)
  with failed show thesis by blast
next
  case True
  then obtain sid owner where ids: "session_names raw expected raw_owner sid owner" by blast
  show thesis
  proof (cases "fmlookup (rsm_command_sessions s) sid")
    case None
    with ids show thesis by (rule acquire_vacant [OF _ _ assms]) (use ids None in \<open>auto intro: refused acquired\<close>)
  next
    case (Some rec)
    with ids show thesis by (rule acquire_held [OF _ _ assms]) (use ids Some in \<open>auto intro: refused kept acquired\<close>)
  qed
qed

section \<open>Sessions only move forward\<close>

definition session_le :: "CommandSessionRecord \<Rightarrow> CommandSessionRecord \<Rightarrow> bool" where
  "session_le a b \<longleftrightarrow> cs_owner_epoch a < cs_owner_epoch b \<or>
     cs_owner_epoch a = cs_owner_epoch b \<and> cs_owner_instance_id a = cs_owner_instance_id b \<and>
     (\<forall>p. cs_last_outcome a = Some p \<longrightarrow> (\<exists>q. cs_last_outcome b = Some q \<and> (q = p \<or> co_sequence p < co_sequence q)))"

definition sessions_le :: "command_sessions \<Rightarrow> command_sessions \<Rightarrow> bool" where
  "sessions_le a b \<longleftrightarrow> (\<forall>sid r. fmlookup a sid = Some r \<longrightarrow> (\<exists>r'. fmlookup b sid = Some r' \<and> session_le r r'))"

lemma session_le_refl [simp]: "session_le r r"
  by (simp add: session_le_def)

lemma session_le_trans: "session_le a b \<Longrightarrow> session_le b c \<Longrightarrow> session_le a c"
  unfolding session_le_def by (auto dest: less_trans)

lemma sessions_le_refl [simp]: "sessions_le a a"
  by (auto simp: sessions_le_def)

lemma sessions_le_trans: "sessions_le a b \<Longrightarrow> sessions_le b c \<Longrightarrow> sessions_le a c"
  unfolding sessions_le_def by (blast intro: session_le_trans)

lemma sessions_le_upd:
  "(\<And>r. fmlookup a sid = Some r \<Longrightarrow> session_le r r') \<Longrightarrow> sessions_le a (fmupd sid r' a)"
  by (auto simp: sessions_le_def)

lemma admitted_le:
  assumes "admits sessions i" "fmlookup sessions (ci_session_id i) = Some r"
  shows "session_le r (session_record i command x)"
  using assms by (auto simp: admits_def session_le_def session_record_def split: option.splits)

lemma apply_identified_le:
  assumes "apply_identified i command s = (r, s')"
  shows "sessions_le (rsm_command_sessions s) (rsm_command_sessions s')"
  using assms
proof (cases rule: identified_cases)
  case (executed x s1)
  with apply_replicated_frame [OF executed(2)] show ?thesis by (auto intro!: sessions_le_upd admitted_le)
qed (simp_all add: apply_replicated_frame)

lemma acquire_le:
  assumes "acquire_command_session_owner raw expected raw_owner s = (r, s')"
  shows "sessions_le (rsm_command_sessions s) (rsm_command_sessions s')"
  using assms
proof (cases rule: acquire_cases)
  case (acquired sid owner e)
  then show ?thesis by (auto intro!: sessions_le_upd simp: session_le_def)
qed simp_all

lemma proposal_cases:
  assumes "apply_proposal p s = (r, s')"
  obtains (failed) e where "r = Err e" "s' = s"
    "(\<exists>f. into_parts p = Err f) \<or> rp_identity p \<noteq> None \<and> is_AcquireCommandSessionOwnerV1 (rp_command p)"
  | (acquire) raw expected raw_owner where "rp_identity p = None" "rp_command p = AcquireCommandSessionOwnerV1 raw expected raw_owner"
    "acquire_command_session_owner raw expected raw_owner s = (r, s')"
  | (identified) ri i where "rp_identity p = Some ri" "to_identity ri = Ok i" "\<not> is_AcquireCommandSessionOwnerV1 (rp_command p)"
    "apply_identified i (rp_command p) s = (r, s')"
  | (legacy) "rp_identity p = None" "apply_replicated_command (rp_command p) s = (r, s')"
proof (cases "into_parts p")
  case (Inl e)
  with assms show thesis by (intro failed [of "InvalidData (rce_message e)"]) (simp_all add: apply_proposal_def invalid_state_machine_data_def)
next
  case (Inr parts)
  show thesis
  proof (cases "rp_identity p")
    case None
    with Inr have parts: "parts = (None, rp_command p)" by (simp add: into_parts_def transposed_def)
    show thesis
    proof (cases "\<exists>raw expected raw_owner. rp_command p = AcquireCommandSessionOwnerV1 raw expected raw_owner")
      case True
      with assms Inr parts None show thesis
        by (auto simp: apply_proposal_def invalid_state_machine_data_def intro: acquire)
    next
      case False
      with assms Inr parts have "apply_replicated_command (rp_command p) s = (r, s')"
        by (cases "rp_command p") (auto simp: apply_proposal_def invalid_state_machine_data_def)
      with None legacy show thesis by blast
    qed
  next
    case (Some ri)
    with Inr obtain i where i: "to_identity ri = Ok i" "parts = (Some i, rp_command p)"
      by (auto simp: into_parts_def transposed_def try_r_Ok)
    show thesis
    proof (cases "\<exists>raw expected raw_owner. rp_command p = AcquireCommandSessionOwnerV1 raw expected raw_owner")
      case True
      with assms Inr i Some show thesis
        by (intro failed) (auto simp: apply_proposal_def invalid_state_machine_data_def)
    next
      case False
      with assms Inr i have "apply_identified i (rp_command p) s = (r, s')"
        by (cases "rp_command p") (auto simp: apply_proposal_def invalid_state_machine_data_def)
      moreover have "\<not> is_AcquireCommandSessionOwnerV1 (rp_command p)"
        using False by (auto simp: is_AcquireCommandSessionOwnerV1_def)
      ultimately show thesis using Some i(1) by (intro identified)
    qed
  qed
qed

lemma apply_proposal_le:
  assumes "apply_proposal p s = (r, s')"
  shows "sessions_le (rsm_command_sessions s) (rsm_command_sessions s')"
  using assms
  by (cases rule: proposal_cases) (auto intro: apply_identified_le acquire_le simp: apply_replicated_frame)

text \<open>A committed proposal that a replica answers.\<close>

definition replica_step ::
  "ReplicatedBrokerProposalV1 \<Rightarrow> ('d, 'l, 'sm) AgentBrokerRaftStateMachine \<Rightarrow> ('d, 'l, 'sm) AgentBrokerRaftStateMachine \<Rightarrow> bool" where
  "replica_step p s s' \<longleftrightarrow> (\<exists>x. apply_proposal p s = (Ok x, s'))"

interpretation session_order: monotone_system
  "replica_step :: ReplicatedBrokerProposalV1 \<Rightarrow> ('d, 'l, 'sm) AgentBrokerRaftStateMachine \<Rightarrow> ('d, 'l, 'sm) AgentBrokerRaftStateMachine \<Rightarrow> bool"
  "\<lambda>_. True" "\<lambda>s s'. sessions_le (rsm_command_sessions s) (rsm_command_sessions s')"
  by unfold_locales (auto simp: replica_step_def intro: apply_proposal_le sessions_le_trans)

section \<open>Effects happen once\<close>

text \<open>What a session remembers of an answered identified proposal.\<close>

lemma answered_session:
  assumes "apply_identified i command s = (Ok x, s')" "\<not> rejected x"
  obtains rec last_outcome where "fmlookup (rsm_command_sessions s') (ci_session_id i) = Some rec"
    "cs_owner_epoch rec = ci_owner_epoch i" "cs_owner_instance_id rec = ci_owner_instance_id i"
    "cs_last_outcome rec = Some last_outcome" "co_sequence last_outcome = ci_sequence i"
    "co_response last_outcome = x" "same_identified_request command (co_command last_outcome)"
  using assms(1)
proof (cases rule: identified_cases)
  case (executed y s1)
  then show thesis by (intro that [of "session_record i command x"
    "\<lparr>co_sequence = ci_sequence i, co_command = command, co_response = x\<rparr>"]) (simp_all add: session_record_def)
qed (use assms(2) that in auto)

lemma remembered_blocks:
  assumes "fmlookup (rsm_command_sessions s) (ci_session_id j) = Some rec" "session_le old rec"
    and "cs_owner_epoch old = ci_owner_epoch j" "cs_last_outcome old = Some last_outcome" "co_sequence last_outcome = ci_sequence j"
    and "apply_identified j command s = (r, s')"
  shows "s' = s \<and> (\<forall>x. r = Ok x \<longrightarrow> x = co_response last_outcome \<or> rejected x)"
  using assms(6)
proof (cases rule: identified_cases)
  case (replayed rec' out')
  with assms(1-5) show ?thesis by (auto simp: session_le_def)
qed (use assms(1-5) in \<open>auto simp: admits_def session_le_def\<close>)

lemma remembered_answers:
  assumes "fmlookup (rsm_command_sessions s) (ci_session_id j) = Some rec" "cs_owner_epoch rec = ci_owner_epoch j"
    and "cs_owner_instance_id rec = ci_owner_instance_id j" "cs_last_outcome rec = Some last_outcome"
    and "co_sequence last_outcome = ci_sequence j" "same_identified_request command (co_command last_outcome)"
  shows "apply_identified j command s = (Ok (co_response last_outcome), s)"
  using assms by (simp add: apply_identified_def Let_def del: append_Cons)

lemma same_request_sym_trans:
  "same_identified_request a c \<Longrightarrow> same_identified_request b a \<Longrightarrow> same_identified_request b c"
  by (simp add: same_identified_request_iff)

lemma same_acquire:
  "same_identified_request a b \<Longrightarrow> is_AcquireCommandSessionOwnerV1 a = is_AcquireCommandSessionOwnerV1 b"
  by (cases a; cases b) (simp_all add: same_identified_request_iff)

text \<open>A proposal with the identity \<open>i\<close>.\<close>

definition carries :: "ReplicatedBrokerProposalV1 \<Rightarrow> CommandIdentity \<Rightarrow> bool" where
  "carries p i \<longleftrightarrow> identity_ok i \<and> rp_identity p = Some (from_identity i)"

lemma carries_cases:
  assumes "carries p i" "apply_proposal p s = (r, s')"
  obtains e where "r = Err e" "s' = s" "is_AcquireCommandSessionOwnerV1 (rp_command p)"
  | "\<not> is_AcquireCommandSessionOwnerV1 (rp_command p)" "apply_identified i (rp_command p) s = (r, s')"
  using assms(2)
proof (cases rule: proposal_cases)
  case (identified ri j)
  with assms(1) identity_round [of i] have "j = i" by (simp add: carries_def)
  with identified that(2) show thesis by simp
next
  case (failed e)
  have "into_parts p = Ok (Some i, rp_command p)"
    using assms(1) identity_round [of i] by (simp add: carries_def into_parts_def transposed_def)
  with failed that(1) show thesis by auto
qed (use assms(1) that in \<open>simp_all add: carries_def\<close>)

text \<open>The identities of two attempts at the same command.\<close>

definition same_attempt :: "CommandIdentity \<Rightarrow> CommandIdentity \<Rightarrow> bool" where
  "same_attempt i j \<longleftrightarrow> ci_session_id i = ci_session_id j \<and> ci_owner_epoch i = ci_owner_epoch j \<and> ci_sequence i = ci_sequence j"

text \<open>
  C5: An identified command takes effect at most once.  After a replica has answered a proposal
  with some session, owner epoch and sequence, and answered any further proposals, another proposal with
  the same session, epoch and sequence changes nothing, and it is either rejected or answered as
  before; the latter is what happens if the session is as it was, the owner is the same and the
  request is the same up to the values the server puts in.
\<close>

theorem identified_command_takes_effect_once:
  assumes "carries p i" "apply_proposal p s = (Ok x, s1)" "\<not> rejected x"
    and "run replica_step s1 ps s2"
    and "carries q j" "same_attempt i j" "apply_proposal q s2 = (r, s3)"
  shows "s3 = s2 \<and> (\<forall>y. r = Ok y \<longrightarrow> y = x \<or> rejected y) \<and>
    (fmlookup (rsm_command_sessions s2) (ci_session_id i) = fmlookup (rsm_command_sessions s1) (ci_session_id i) \<and>
       ci_owner_instance_id j = ci_owner_instance_id i \<and> same_identified_request (rp_command q) (rp_command p) \<longrightarrow>
     r = Ok x)"
proof -
  from assms(1,2) have p: "apply_identified i (rp_command p) s = (Ok x, s1)" "\<not> is_AcquireCommandSessionOwnerV1 (rp_command p)"
    by (rule carries_cases; simp)+
  from answered_session [OF p(1) assms(3)] obtain rec out where rec: "fmlookup (rsm_command_sessions s1) (ci_session_id i) = Some rec"
    "cs_owner_epoch rec = ci_owner_epoch i" "cs_owner_instance_id rec = ci_owner_instance_id i" "cs_last_outcome rec = Some out"
    "co_sequence out = ci_sequence i" "co_response out = x" "same_identified_request (rp_command p) (co_command out)" by blast
  obtain rec2 where rec2: "fmlookup (rsm_command_sessions s2) (ci_session_id i) = Some rec2" "session_le rec rec2"
    using session_order.run_rel [OF assms(4)] rec(1) by (auto simp: sessions_le_def)
  note ij = assms(6) [unfolded same_attempt_def]
  from assms(5,7) show ?thesis
  proof (cases rule: carries_cases)
    case (1 e)
    with p(2) show ?thesis by (auto simp: same_acquire)
  next
    case 2
    have "s3 = s2 \<and> (\<forall>y. r = Ok y \<longrightarrow> y = x \<or> rejected y)"
      using remembered_blocks [OF _ rec2(2) _ rec(4) _ 2(2)] rec2(1) rec ij by simp
    moreover have "r = Ok x"
      if "fmlookup (rsm_command_sessions s2) (ci_session_id i) = fmlookup (rsm_command_sessions s1) (ci_session_id i)"
        "ci_owner_instance_id j = ci_owner_instance_id i" "same_identified_request (rp_command q) (rp_command p)"
      using remembered_answers [of s2 j rec out "rp_command q"] that rec ij 2 same_request_sym_trans [OF rec(7)] by simp
    ultimately show ?thesis by blast
  qed
qed

text \<open>A session as an acquisition leaves it.\<close>

lemma acquired_session:
  assumes "rp_identity p = None" "rp_command p = AcquireCommandSessionOwnerV1 (session_str sid) expected (instance_str owner)"
    and "apply_proposal p s = (Ok (SessionOwnerAcquired e), s')"
  obtains rec where "fmlookup (rsm_command_sessions s') sid = Some rec" "cs_owner_epoch rec = e" "cs_owner_instance_id rec = Some owner"
  using assms(3)
proof (cases rule: proposal_cases)
  case (acquire raw expected' raw_owner)
  with assms(2) have "acquire_command_session_owner (session_str sid) expected (instance_str owner) s = (Ok (SessionOwnerAcquired e), s')"
    by simp
  then show thesis
  proof (cases rule: acquire_cases)
    case (kept sid' owner' rec)
    then have "sid' = sid" "owner' = owner"
      using sessionid.text_inj instanceid.text_inj by (auto simp: sessionid.new_Ok_iff instanceid.new_Ok_iff)
    with kept that show thesis by simp
  next
    case (acquired sid' owner' e')
    then have "sid' = sid" "owner' = owner"
      using sessionid.text_inj instanceid.text_inj by (auto simp: sessionid.new_Ok_iff instanceid.new_Ok_iff)
    with acquired that show thesis by simp
  qed auto
next
  case legacy
  with assms(2) show thesis by (simp add: apply_replicated_command_def to_broker_command_def invalid_state_machine_data_def)
qed (use assms(1) in simp_all)

text \<open>
  C15: Ownership fences.  Once a replica has granted a session to an owner with some epoch, no later
  command of an earlier epoch, or of that epoch and another owner, is executed: it is rejected and the
  replica stays as it is, whatever was applied in between.
\<close>

theorem lost_session_owner_is_fenced:
  assumes "rp_identity p = None" "rp_command p = AcquireCommandSessionOwnerV1 (session_str sid) expected (instance_str owner)"
    and "apply_proposal p s = (Ok (SessionOwnerAcquired e), s1)" "run replica_step s1 ps s2"
    and "carries q j" "ci_session_id j = sid"
    and "ci_owner_epoch j < e \<or> ci_owner_epoch j = e \<and> ci_owner_instance_id j \<noteq> Some owner"
    and "apply_proposal q s2 = (r, s3)"
  shows "s3 = s2 \<and> (\<forall>y. r = Ok y \<longrightarrow> rejected y)"
proof -
  obtain rec where rec: "fmlookup (rsm_command_sessions s1) sid = Some rec" "cs_owner_epoch rec = e" "cs_owner_instance_id rec = Some owner"
    by (rule acquired_session [OF assms(1-3)])
  obtain rec2 where rec2: "fmlookup (rsm_command_sessions s2) sid = Some rec2" "session_le rec rec2"
    using session_order.run_rel [OF assms(4)] rec(1) by (auto simp: sessions_le_def)
  then have other: "ci_owner_epoch j \<noteq> cs_owner_epoch rec2 \<or> ci_owner_instance_id j \<noteq> cs_owner_instance_id rec2"
    using assms(7) rec by (auto simp: session_le_def)
  from assms(5,8) show ?thesis
  proof (cases rule: carries_cases)
    case 2
    from 2(2) show ?thesis
      by (cases rule: identified_cases) (use other rec2 assms(6) in \<open>auto simp: admits_def\<close>)
  qed simp
qed

section \<open>The session table is bounded\<close>

lemma proposal_sessions_bound:
  assumes "apply_proposal p s = (r, s')" "fm_len (rsm_command_sessions s) \<le> MAX_COMMAND_SESSIONS"
  shows "fm_len (rsm_command_sessions s') \<le> MAX_COMMAND_SESSIONS"
  using assms(1)
proof (cases rule: proposal_cases)
  case (acquire raw expected raw_owner)
  from acquire(3) show ?thesis
    by (cases rule: acquire_cases) (use assms(2) in \<open>auto simp: fmlookup_dom_iff split: option.splits\<close>)
next
  case (identified ri i)
  from identified(4) show ?thesis
  proof (cases rule: identified_cases)
    case (executed x s1)
    with apply_replicated_frame [OF executed(2)] assms(2) show ?thesis by (auto simp: admits_def fmlookup_dom_iff split: option.splits)
  qed (use assms(2) in \<open>simp_all add: apply_replicated_frame\<close>)
qed (use assms(2) in \<open>simp_all add: apply_replicated_frame\<close>)

section \<open>Replicas answer\<close>

abbreviation application_result :: "StateMachineError + AppliedMutation \<Rightarrow> BrokerError + BrokerMutationResult" where
  "application_result r \<equiv> map_err from_state_machine_error (map_sum id am_result r)"

lemma apply_replicated_answer:
  assumes "answerable (rsm_broker s)" "to_broker_command command = Ok c"
  obtains x where "apply_replicated_command command s = (Ok x, s\<lparr>rsm_broker := snd (broker_apply c (rsm_broker s))\<rparr>)"
    "into_application_result x = Ok (answered (application_result (fst (broker_apply c (rsm_broker s)))))"
proof -
  obtain r m where rm: "broker_apply c (rsm_broker s) = (r, m)" by fastforce
  have "result_ok y" if "application_result r = Ok y" for y
    using that rm broker_answer_ok [OF assms(1) to_broker_command_ok [OF assms(2)]] by (cases r) auto
  from response_round [OF this] obtain x where "from_application_result (application_result r) = Ok x"
    "into_application_result x = Ok (answered (application_result r))" by blast
  with assms(2) rm show thesis
    by (intro that [of x]) (simp_all add: apply_replicated_command_def invalid_state_machine_data_def)
qed

lemma apply_replicated_undecodable:
  assumes "to_broker_command command = Err e"
  shows "apply_replicated_command command s = (Err (InvalidData (rce_message e)), s)"
  using assms by (simp add: apply_replicated_command_def invalid_state_machine_data_def)

text \<open>What a replica holds: a broker that can be answered for, and sessions that can be written out.\<close>

definition outcome_values :: "CommandSessionOutcome \<Rightarrow> bool" where
  "outcome_values out \<longleftrightarrow> co_sequence out \<noteq> 0 \<and> (\<exists>c. to_broker_command (co_command out) = Ok c) \<and>
     (\<exists>res. into_application_result (co_response out) = Ok res) \<and> normalize_stored_session_outcome (co_response out) = co_response out"

definition session_values :: "CommandSessionId \<Rightarrow> CommandSessionRecord \<Rightarrow> bool" where
  "session_values sid r \<longleftrightarrow> ident (session_str sid) \<and> cs_owner_epoch r \<noteq> 0 \<and>
     (\<forall>owner. cs_owner_instance_id r = Some owner \<longrightarrow> ident (instance_str owner)) \<and>
     (\<forall>out. cs_last_outcome r = Some out \<longrightarrow> outcome_values out)"

definition sessions_valid :: "command_sessions \<Rightarrow> bool" where
  "sessions_valid sessions \<longleftrightarrow> (\<forall>sid r. fmlookup sessions sid = Some r \<longrightarrow> session_values sid r)"

definition replica_ok :: "('d, 'l, 'sm) AgentBrokerRaftStateMachine \<Rightarrow> bool" where
  "replica_ok s \<longleftrightarrow> answerable (rsm_broker s) \<and> sessions_valid (rsm_command_sessions s) \<and>
     fm_len (rsm_command_sessions s) \<le> MAX_COMMAND_SESSIONS"

lemma sessions_valid_upd: "sessions_valid ss \<Longrightarrow> session_values sid r \<Longrightarrow> sessions_valid (fmupd sid r ss)"
  by (simp add: sessions_valid_def)

lemma committed_normal:
  "from_application_result res = Ok x \<Longrightarrow> normalize_stored_session_outcome x = x"
  by (auto simp: from_application_result_def normalize_stored_session_outcome_def try_r_Ok to_error_v1_def with_disposition_def
      split: sum.splits)

lemma apply_replicated_outcome:
  assumes "answerable (rsm_broker s)" "apply_replicated_command command s = (Ok x, s')" "n \<noteq> 0"
  shows "outcome_values \<lparr>co_sequence = n, co_command = command, co_response = x\<rparr>"
proof (cases "to_broker_command command")
  case (Inl e)
  with assms(2) show ?thesis by (simp add: apply_replicated_undecodable)
next
  case (Inr c)
  obtain y where "apply_replicated_command command s = (Ok y, s\<lparr>rsm_broker := snd (broker_apply c (rsm_broker s))\<rparr>)"
    "into_application_result y = Ok (answered (application_result (fst (broker_apply c (rsm_broker s)))))"
    by (rule apply_replicated_answer [OF assms(1) Inr])
  moreover have "normalize_stored_session_outcome x = x"
    using assms(2) Inr
    by (auto simp: apply_replicated_command_def invalid_state_machine_data_def Let_def map_err_Err_iff split: prod.splits
        intro: committed_normal)
  ultimately show ?thesis using assms(2,3) Inr by (simp add: outcome_values_def)
qed

lemma apply_replicated_ok:
  assumes "answerable (rsm_broker s)" "apply_replicated_command command s = (r, s')"
  shows "answerable (rsm_broker s')"
proof (cases "to_broker_command command")
  case (Inl e)
  with assms show ?thesis by (simp add: apply_replicated_undecodable)
next
  case (Inr c)
  obtain x where "apply_replicated_command command s = (Ok x, s\<lparr>rsm_broker := snd (broker_apply c (rsm_broker s))\<rparr>)"
    by (rule apply_replicated_answer [OF assms(1) Inr])
  with assms answerable_apply [OF assms(1) to_broker_command_ok [OF Inr]] show ?thesis by auto
qed

lemma acquire_ok:
  assumes "acquire_command_session_owner raw expected raw_owner s = (r, s')" "sessions_valid (rsm_command_sessions s)"
  shows "sessions_valid (rsm_command_sessions s') \<and> rsm_broker s' = rsm_broker s"
  using assms(1)
proof (cases rule: acquire_cases)
  case (acquired sid owner e)
  moreover have "e \<noteq> 0" using acquired(3) by (auto split: option.splits)
  ultimately have "session_values sid \<lparr>cs_owner_epoch = e, cs_owner_instance_id = Some owner, cs_last_outcome = None\<rparr>"
    by (auto simp: session_values_def sessionid.new_Ok_iff instanceid.new_Ok_iff)
  with acquired assms(2) show ?thesis by (simp add: sessions_valid_upd)
qed (use assms(2) in simp_all)

lemma identified_ok:
  assumes "apply_identified i command s = (r, s')" "identity_ok i" "answerable (rsm_broker s)" "sessions_valid (rsm_command_sessions s)"
  shows "sessions_valid (rsm_command_sessions s') \<and> answerable (rsm_broker s')"
  using assms(1)
proof (cases rule: identified_cases)
  case (failed e)
  with apply_replicated_ok [OF assms(3) failed(2)] assms(4) show ?thesis by (simp add: apply_replicated_frame)
next
  case (executed x s1)
  have "outcome_values \<lparr>co_sequence = ci_sequence i, co_command = command, co_response = x\<rparr>"
    using assms(2) by (intro apply_replicated_outcome [OF assms(3) executed(2)]) (simp add: identity_ok_def)
  then have "session_values (ci_session_id i) (session_record i command x)"
    using assms(2) by (simp add: session_values_def session_record_def identity_ok_def)
  with executed apply_replicated_ok [OF assms(3) executed(2)] assms(4) apply_replicated_frame [OF executed(2)]
  show ?thesis by (simp add: sessions_valid_upd)
qed (use assms(3,4) in simp_all)

lemma proposal_ok:
  assumes "apply_proposal p s = (r, s')" "replica_ok s"
  shows "replica_ok s'"
proof -
  have s: "answerable (rsm_broker s)" "sessions_valid (rsm_command_sessions s)" "fm_len (rsm_command_sessions s) \<le> MAX_COMMAND_SESSIONS"
    using assms(2) by (simp_all add: replica_ok_def)
  from assms(1) have "sessions_valid (rsm_command_sessions s') \<and> answerable (rsm_broker s')"
  proof (cases rule: proposal_cases)
    case (acquire raw expected raw_owner)
    with acquire_ok [OF acquire(3) s(2)] s(1) show ?thesis by simp
  next
    case (identified ri i)
    with identified_ok [OF identified(4) conjunct1 [OF to_identity_ok [OF identified(2)]] s(1,2)] show ?thesis by blast
  next
    case legacy
    with apply_replicated_ok [OF s(1) legacy(2)] s(2) show ?thesis by (simp add: apply_replicated_frame)
  qed (use s in simp)
  with proposal_sessions_bound [OF assms(1) s(3)] show ?thesis by (simp add: replica_ok_def)
qed

definition replica_init :: "('d, 'l, 'sm) AgentBrokerRaftStateMachine \<Rightarrow> bool" where
  "replica_init s \<longleftrightarrow> rsm_broker s = BrokerStateMachine_default \<and> rsm_command_sessions s = fmempty"

lemma replica_init_ok: "replica_init s \<Longrightarrow> replica_ok s"
  by (simp add: replica_init_def replica_ok_def sessions_valid_def default_answerable)

interpretation replicas: invariant_of
  "replica_init :: ('d, 'l, 'sm) AgentBrokerRaftStateMachine \<Rightarrow> bool" replica_step replica_ok
  by unfold_locales (auto simp: replica_step_def intro: replica_init_ok proposal_ok)

text \<open>A replica's broker takes the steps of a broker.\<close>

lemma apply_replicated_step:
  assumes "apply_replicated_command command s = (r, s')"
  shows "rsm_broker s' = rsm_broker s \<or> (\<exists>c. valid_step c (rsm_broker s) (rsm_broker s'))"
proof (cases "to_broker_command command")
  case (Inl e)
  with assms show ?thesis by (simp add: apply_replicated_undecodable)
next
  case (Inr c)
  with assms have "rsm_broker s' = snd (broker_apply c (rsm_broker s))"
    by (auto simp: apply_replicated_command_def invalid_state_machine_data_def Let_def split: prod.splits)
  with command_ok_values [OF to_broker_command_ok [OF Inr]] show ?thesis by (auto simp: valid_step_def broker_step_def)
qed

lemma replica_step_broker:
  assumes "apply_proposal p s = (r, s')"
  shows "rsm_broker s' = rsm_broker s \<or> (\<exists>c. valid_step c (rsm_broker s) (rsm_broker s'))"
  using assms
proof (cases rule: proposal_cases)
  case (acquire raw expected raw_owner)
  from acquire(3) show ?thesis by (cases rule: acquire_cases) simp_all
next
  case (identified ri i)
  from identified(4) show ?thesis
  proof (cases rule: identified_cases)
    case (executed x s1)
    with apply_replicated_step [OF executed(2)] show ?thesis by simp
  qed (simp_all add: apply_replicated_step)
qed (simp_all add: apply_replicated_step)

text \<open>The proposals that a front end can put into the log.\<close>

definition proposal_valid :: "ReplicatedBrokerProposalV1 \<Rightarrow> bool" where
  "proposal_valid p \<longleftrightarrow>
     (case rp_command p of
        AcquireCommandSessionOwnerV1 raw expected raw_owner \<Rightarrow>
          rp_identity p = None \<and> ident raw \<and> expected \<noteq> 0 \<and> ident raw_owner
      | command \<Rightarrow> (\<exists>c. to_broker_command command = Ok c) \<and>
          (\<forall>ri. rp_identity p = Some ri \<longrightarrow> (\<exists>i. to_identity ri = Ok i)))"

lemma acquire_answers:
  assumes "ident raw" "expected \<noteq> 0" "ident raw_owner"
  shows "\<exists>x s'. acquire_command_session_owner raw expected raw_owner s = (Ok x, s')"
proof -
  obtain sid owner where "CommandSessionId_new raw = Ok sid" "SessionOwnerInstanceId_new raw_owner = Ok owner"
    using assms sessionid.new_accepts instanceid.new_accepts by metis
  then have "acquire_command_session_owner raw expected raw_owner s \<noteq> (Err e, s')" for e s'
    using assms(2)
    by (auto simp: acquire_command_session_owner_def invalid_state_machine_data_def SessionOwnerEpoch_new_def Let_def
        simp del: append_Cons split: option.splits if_splits dest!: checked_add_Some)
  then show ?thesis by (metis sumE surj_pair)
qed

lemma identified_answers:
  assumes "answerable (rsm_broker s)" "sessions_valid (rsm_command_sessions s)" "to_broker_command command = Ok c"
  shows "\<exists>x s' res. apply_identified i command s = (Ok x, s') \<and> into_application_result x = Ok res"
proof -
  obtain r s' where app: "apply_identified i command s = (r, s')" by fastforce
  obtain y s1 res where y: "apply_replicated_command command s = (Ok y, s1)" "into_application_result y = Ok res"
    using apply_replicated_answer [OF assms(1,3)] by metis
  from app show ?thesis
  proof (cases rule: identified_cases)
    case (refused x)
    with app show ?thesis by (cases x) (auto simp: into_application_result_def)
  next
    case (replayed rec out)
    with assms(2) have "outcome_values out" by (auto simp: sessions_valid_def session_values_def)
    with replayed app show ?thesis by (auto simp: outcome_values_def)
  next
    case (failed e)
    with y show ?thesis by simp
  next
    case (executed x s2)
    with y app show ?thesis by auto
  qed
qed

lemma valid_proposal_answers:
  assumes "replica_ok s" "proposal_valid p"
  shows "\<exists>x s'. apply_proposal p s = (Ok x, s') \<and>
    (is_AcquireCommandSessionOwnerV1 (rp_command p) \<or> (\<exists>res. into_application_result x = Ok res))"
proof (cases "\<exists>raw expected raw_owner. rp_command p = AcquireCommandSessionOwnerV1 raw expected raw_owner")
  case True
  with assms(2) acquire_answers show ?thesis
    by (auto simp: proposal_valid_def apply_proposal_def into_parts_def transposed_def invalid_state_machine_data_def)
next
  case False
  then obtain c where c: "to_broker_command (rp_command p) = Ok c" "\<forall>ri. rp_identity p = Some ri \<longrightarrow> (\<exists>i. to_identity ri = Ok i)"
    using assms(2) by (cases "rp_command p") (auto simp: proposal_valid_def)
  have s: "answerable (rsm_broker s)" "sessions_valid (rsm_command_sessions s)" using assms(1) by (simp_all add: replica_ok_def)
  show ?thesis
  proof (cases "rp_identity p")
    case None
    obtain x where "apply_replicated_command (rp_command p) s = (Ok x, s\<lparr>rsm_broker := snd (broker_apply c (rsm_broker s))\<rparr>)"
      "into_application_result x = Ok (answered (application_result (fst (broker_apply c (rsm_broker s)))))"
      by (rule apply_replicated_answer [OF s(1) c(1)])
    with None False show ?thesis
      by (cases "rp_command p") (auto simp: apply_proposal_def into_parts_def transposed_def invalid_state_machine_data_def)
  next
    case (Some ri)
    with c(2) obtain i where "to_identity ri = Ok i" by blast
    with Some False identified_answers [OF s c(1), of i] show ?thesis
      by (cases "rp_command p") (auto simp: apply_proposal_def into_parts_def transposed_def invalid_state_machine_data_def)
  qed
qed

section \<open>Further properties\<close>

text \<open>A fresh replica, and an identified proposal for it.\<close>

definition replica0 :: "(unit, u64, unit) AgentBrokerRaftStateMachine" where
  "replica0 = \<lparr>rsm_persistence = (), rsm_broker = BrokerStateMachine_default, rsm_command_sessions = fmempty,
     rsm_observation = observation_new BrokerState_default None, rsm_last_applied = None, rsm_last_membership = ()\<rparr>"

definition identity1 :: CommandIdentity where
  "identity1 = CommandIdentity_new (CommandSessionId ''a'') 1"

definition proposal1 :: ReplicatedBrokerProposalV1 where
  "proposal1 = proposal_identified identity1 (EnsureNamespaceV1 ''n'' 4)"

definition replica1 :: "(unit, u64, unit) AgentBrokerRaftStateMachine" where
  "replica1 = snd (apply_proposal proposal1 replica0)"

definition response1 :: ReplicatedBrokerResponseV1 where
  "response1 = Success (NamespaceV1 \<lparr>rm_term = 1, rm_revision = 1\<rparr> ''n'' 1)"

lemma proposal1_carries: "carries proposal1 identity1"
  by (simp add: carries_def proposal1_def proposal_identified_def identity1_def CommandIdentity_new_def identity_ok_def
      SessionOwnerEpoch_INITIAL_def is_ascii_alphanumeric_def)

lemma command1_eq:
  "apply_replicated_command (EnsureNamespaceV1 ''n'' 4) replica0 =
     (Ok response1, replica0\<lparr>rsm_broker := snd (broker_apply ensure_ns1 BrokerStateMachine_default)\<rparr>)"
proof -
  have "to_broker_command (EnsureNamespaceV1 ''n'' 4) = Ok ensure_ns1"
    by (simp add: command_conversions ensure_ns1_def NamespaceId_new_def validate_identifier_def MAX_IDENTIFIER_BYTES_def
      is_ascii_alphanumeric_def)
  then show ?thesis
    by (simp add: apply_replicated_command_def invalid_state_machine_data_def replica0_def response1_def
      BrokerStateMachine_default_def BrokerState_default_def eval_broker from_application_result_def to_result_v1_def
      to_metadata_v1_def Namespace_new_def cong: eval_cong)
qed

lemma replica1_eq: "apply_proposal proposal1 replica0 = (Ok response1, replica1)"
proof -
  have "admits (rsm_command_sessions replica0) identity1"
    by (simp add: admits_def replica0_def identity1_def CommandIdentity_new_def SessionOwnerEpoch_INITIAL_def MAX_COMMAND_SESSIONS_def)
  note admitted = this
  have "fst (apply_identified identity1 (EnsureNamespaceV1 ''n'' 4) replica0) = Ok response1"
    by (rule identified_cases [OF surjective_pairing [of "apply_identified identity1 (EnsureNamespaceV1 ''n'' 4) replica0"]])
      (use admitted in \<open>simp_all add: command1_eq, simp add: replica0_def\<close>)
  moreover have "fst (apply_proposal proposal1 replica0) = fst (apply_identified identity1 (EnsureNamespaceV1 ''n'' 4) replica0)"
    by (rule carries_cases [OF proposal1_carries surjective_pairing [of "apply_proposal proposal1 replica0"]])
      (simp_all add: proposal1_def proposal_identified_def)
  ultimately show ?thesis by (simp add: replica1_def prod_eq_iff)
qed

theorem identified_command_takes_effect_once_witness:
  "apply_proposal proposal1 replica1 = (Ok response1, replica1)"
proof -
  obtain r s where rs: "apply_proposal proposal1 replica1 = (r, s)" by fastforce
  from identified_command_takes_effect_once [OF proposal1_carries replica1_eq _ run.stop proposal1_carries _ rs]
  show ?thesis by (simp add: rs response1_def same_attempt_def)
qed

definition acquire1 :: ReplicatedBrokerProposalV1 where
  "acquire1 = proposal_legacy (AcquireCommandSessionOwnerV1 ''a'' 1 ''o'')"

lemma acquire1_eq:
  "\<exists>s. apply_proposal acquire1 replica0 = (Ok (SessionOwnerAcquired 1), s)"
  by (simp add: acquire1_def proposal_legacy_def apply_proposal_def into_parts_def transposed_def invalid_state_machine_data_def
      acquire_command_session_owner_def CommandSessionId_new_def SessionOwnerEpoch_new_def SessionOwnerInstanceId_new_def
      validate_command_identifier_def MAX_COMMAND_SESSION_ID_BYTES_def MAX_OWNER_INSTANCE_ID_BYTES_def is_ascii_alphanumeric_def
      SessionOwnerEpoch_INITIAL_def replica0_def MAX_COMMAND_SESSIONS_def)

theorem lost_session_owner_is_fenced_witness:
  "\<exists>s r s'. apply_proposal acquire1 replica0 = (Ok (SessionOwnerAcquired 1), s) \<and> apply_proposal proposal1 s = (r, s') \<and> s' = s \<and>
     (\<forall>y. r = Ok y \<longrightarrow> rejected y)"
proof -
  obtain s where s: "apply_proposal acquire1 replica0 = (Ok (SessionOwnerAcquired 1), s)" using acquire1_eq by blast
  obtain r s' where rs: "apply_proposal proposal1 s = (r, s')" by fastforce
  have "s' = s \<and> (\<forall>y. r = Ok y \<longrightarrow> rejected y)"
    by (rule lost_session_owner_is_fenced [OF _ _ s run.stop proposal1_carries _ _ rs,
        where sid = "CommandSessionId ''a''" and owner = "SessionOwnerInstanceId ''o''" and expected = 1])
      (simp_all add: acquire1_def proposal_legacy_def identity1_def CommandIdentity_new_def SessionOwnerEpoch_INITIAL_def)
  with s rs show ?thesis by blast
qed

text \<open>
  C18: A replica answers.  In every reachable replica a proposal that decodes is answered, so applying
  a committed entry never stops the replica, and the answer to a command can be read back as the
  result of the application.
\<close>

theorem replicas_answer_valid_proposals:
  assumes "reach replica_init replica_step s" "proposal_valid p"
  shows "\<exists>x s'. apply_proposal p s = (Ok x, s') \<and>
    (is_AcquireCommandSessionOwnerV1 (rp_command p) \<or> (\<exists>res. into_application_result x = Ok res))"
  using valid_proposal_answers [OF replicas.reach_inv [OF assms(1)] assms(2)] .

theorem replicas_answer_valid_proposals_witness:
  "\<exists>x s'. apply_proposal proposal1 replica0 = (Ok x, s') \<and> (\<exists>res. into_application_result x = Ok res)"
proof -
  have "reach replica_init replica_step replica0" by (intro reach.start) (simp add: replica_init_def replica0_def)
  moreover have "proposal_valid proposal1"
    using identity_round [of identity1] proposal1_carries
    by (simp add: carries_def proposal_valid_def proposal1_def proposal_identified_def command_conversions NamespaceId_new_def
      validate_identifier_def MAX_IDENTIFIER_BYTES_def is_ascii_alphanumeric_def)
  ultimately show ?thesis
    using replicas_answer_valid_proposals [of replica0 proposal1] by (simp add: proposal1_def proposal_identified_def)
qed

text \<open>
  C19: The broker inside a replica is a broker.  Whatever is committed to the log, the broker of a
  reachable replica is reached by commands of the domain with valid values, so everything shown for
  reachable brokers holds of it; and the replica never keeps more than 4096 sessions.
\<close>

theorem replica_holds_a_reachable_broker:
  assumes "reach replica_init replica_step s"
  shows "reach broker_init valid_step (rsm_broker s) \<and> fm_len (rsm_command_sessions s) \<le> 4096"
proof
  show "fm_len (rsm_command_sessions s) \<le> 4096"
    using replicas.reach_inv [OF assms] by (simp add: replica_ok_def MAX_COMMAND_SESSIONS_def)
  show "reach broker_init valid_step (rsm_broker s)"
    using assms
  proof (induction rule: reach.induct)
    case (start s)
    then show ?case by (intro reach.start) (simp add: replica_init_def broker_init_def)
  next
    case (step s p s')
    then obtain x where "apply_proposal p s = (Ok x, s')" by (auto simp: replica_step_def)
    from replica_step_broker [OF this] step.IH show ?case by (auto intro: reach.step)
  qed
qed

theorem replica_holds_a_reachable_broker_witness:
  "reach broker_init valid_step (rsm_broker replica1) \<and> fm_len (rsm_command_sessions replica1) \<le> 4096"
proof (rule replica_holds_a_reachable_broker)
  have "reach replica_init replica_step replica0" by (intro reach.start) (simp add: replica_init_def replica0_def)
  then show "reach replica_init replica_step replica1"
    by (rule reach.step [of _ _ _ proposal1]) (auto simp: replica_step_def replica1_eq)
qed

section \<open>A log of commands\<close>

lemma legacy_proposal:
  assumes "answerable (rsm_broker s)" "command_ok c" "proposal_try_from c = Ok p"
  obtains x where "apply_proposal p s = (Ok x, s\<lparr>rsm_broker := snd (broker_apply c (rsm_broker s))\<rparr>)"
    "into_application_result x = Ok (answered (application_result (fst (broker_apply c (rsm_broker s)))))"
proof -
  obtain command where command: "to_replicated_command c = Ok command" "to_broker_command command = Ok c" "p = proposal_legacy command"
    using command_round [OF assms(2)] assms(3) by (auto simp: proposal_try_from_def)
  moreover have "\<not> is_AcquireCommandSessionOwnerV1 command"
    using command(2) by (cases command) (auto simp: to_broker_command_def)
  ultimately have "apply_proposal p s = apply_replicated_command command s"
    by (cases command) (simp_all add: apply_proposal_def proposal_legacy_def into_parts_def transposed_def invalid_state_machine_data_def)
  with apply_replicated_answer [OF assms(1) command(2)] that show thesis by metis
qed

lemma log_serves:
  assumes "answerable (rsm_broker s)" "list_all command_ok cs"
    and "list_all2 (\<lambda>c entry. \<exists>p. proposal_try_from c = Ok p \<and> le_payload entry = Normal p) cs entries"
  shows "\<exists>xs s'. raft_apply types entries s = (Ok xs, s') \<and> rsm_broker s' = snd (serve cs (rsm_broker s)) \<and>
    map into_application_result xs = map (\<lambda>r. Ok (answered (application_result r))) (fst (serve cs (rsm_broker s))) \<and>
    (entries \<noteq> [] \<longrightarrow> rsm_last_applied s' = Some (le_log_id (last entries)) \<and>
       (\<exists>ob. rsm_observation s' = observation_update (sm_state (rsm_broker s')) (Some (rt_index types (le_log_id (last entries)))) ob))"
  using assms
proof (induction cs arbitrary: s entries)
  case (Cons c cs)
  then obtain entry rest p where entries: "entries = entry # rest" "proposal_try_from c = Ok p" "le_payload entry = Normal p"
    "list_all2 (\<lambda>c entry. \<exists>p. proposal_try_from c = Ok p \<and> le_payload entry = Normal p) cs rest"
    by (auto simp: list_all2_Cons1)
  from Cons.prems have c: "command_ok c" "list_all command_ok cs" by simp_all
  let ?m = "snd (broker_apply c (rsm_broker s))"
  obtain x where x: "apply_proposal p s = (Ok x, s\<lparr>rsm_broker := ?m\<rparr>)"
    "into_application_result x = Ok (answered (application_result (fst (broker_apply c (rsm_broker s)))))"
    by (rule legacy_proposal [OF Cons.prems(1) c(1) entries(2)])
  let ?s = "s\<lparr>rsm_broker := ?m, rsm_last_applied := Some (le_log_id entry),
    rsm_observation := observation_update (sm_state ?m) (Some (rt_index types (le_log_id entry))) (rsm_observation s)\<rparr>"
  have broker: "rsm_broker ?s = ?m" by simp
  with answerable_apply [OF Cons.prems(1) c(1)] have "answerable (rsm_broker ?s)" by simp
  from Cons.IH [OF this c(2) entries(4), unfolded broker] obtain xs s' where IH: "raft_apply types rest ?s = (Ok xs, s')"
    "rsm_broker s' = snd (serve cs ?m)"
    "map into_application_result xs = map (\<lambda>r. Ok (answered (application_result r))) (fst (serve cs ?m))"
    "rest \<noteq> [] \<longrightarrow> rsm_last_applied s' = Some (le_log_id (last rest)) \<and> (\<exists>ob. rsm_observation s' =
      observation_update (sm_state (rsm_broker s')) (Some (rt_index types (le_log_id (last rest)))) ob)" by blast
  have serve: "serve (c # cs) (rsm_broker s) = (fst (broker_apply c (rsm_broker s)) # fst (serve cs ?m), snd (serve cs ?m))"
    by (simp add: Let_def split_beta)
  have last: "rsm_last_applied s' = Some (le_log_id (last entries)) \<and>
      (\<exists>ob. rsm_observation s' = observation_update (sm_state (rsm_broker s')) (Some (rt_index types (le_log_id (last entries)))) ob)"
  proof (cases "rest = []")
    case True
    with IH(1) have "s' = ?s" by simp
    with True entries(1) show ?thesis by auto
  next
    case False
    with IH(4) entries(1) show ?thesis by auto
  qed
  have "raft_apply types entries s = (Ok (x # xs), s')" using x(1) IH(1) entries(1,3) by (simp add: Let_def)
  with serve last IH(2,3) x(2) show ?case by (intro exI [of _ "x # xs"] exI [of _ s']) (simp add: id_def del: serve.simps)
qed simp

text \<open>
  C7: Replication adds nothing.  A replica that applies a log of domain commands answers each entry
  with the result the broker gives to that command, an error marked as committed; its broker is the
  broker after those commands, and its observation shows that state and the index of the last entry.
\<close>

theorem replicated_log_answers_as_the_broker:
  assumes "reach replica_init replica_step s" "list_all command_ok cs" "entries \<noteq> []"
    and "list_all2 (\<lambda>c entry. \<exists>p. proposal_try_from c = Ok p \<and> le_payload entry = Normal p) cs entries"
  shows "\<exists>xs s'. raft_apply types entries s = (Ok xs, s') \<and> rsm_broker s' = snd (serve cs (rsm_broker s)) \<and>
    map into_application_result xs = map (\<lambda>r. Ok (answered (application_result r))) (fst (serve cs (rsm_broker s))) \<and>
    ob_revision (rsm_observation s') = st_revision (sm_state (rsm_broker s')) \<and>
    observed_applied_index (rsm_observation s') = Some (rt_index types (le_log_id (last entries)))"
proof -
  have "answerable (rsm_broker s)" using replicas.reach_inv [OF assms(1)] by (simp add: replica_ok_def)
  from log_serves [OF this assms(2,4), of types] assms(3) obtain xs s' ob where *: "raft_apply types entries s = (Ok xs, s')"
    "rsm_broker s' = snd (serve cs (rsm_broker s))"
    "map into_application_result xs = map (\<lambda>r. Ok (answered (application_result r))) (fst (serve cs (rsm_broker s)))"
    "rsm_observation s' = observation_update (sm_state (rsm_broker s')) (Some (rt_index types (le_log_id (last entries)))) ob"
    by blast
  from *(4) have "ob_revision (rsm_observation s') = st_revision (sm_state (rsm_broker s'))"
    "observed_applied_index (rsm_observation s') = Some (rt_index types (le_log_id (last entries)))"
    by (simp_all add: observation_update_def observed_applied_index_def Let_def)
  with * show ?thesis by blast
qed

definition types1 :: "(u64, unit, unit) raft_types" where
  "types1 = \<lparr>rt_index = id, rt_leader_display = show_u64, rt_stored_membership = (\<lambda>_ _. ()), rt_default_membership = ()\<rparr>"

definition entry1 :: "(u64, unit) Entry" where
  "entry1 = \<lparr>le_log_id = 9, le_payload = Normal (proposal_legacy (EnsureNamespaceV1 ''n'' 4))\<rparr>"

theorem replicated_log_answers_as_the_broker_witness:
  "\<exists>xs s'. raft_apply types1 [entry1] replica0 = (Ok xs, s') \<and>
     rsm_broker s' = snd (broker_apply ensure_ns1 BrokerStateMachine_default) \<and> observed_applied_index (rsm_observation s') = Some 9"
proof -
  have "reach replica_init replica_step replica0" by (intro reach.start) (simp add: replica_init_def replica0_def)
  moreover have "list_all command_ok [ensure_ns1]" by (simp add: ensure_ns1_def is_ascii_alphanumeric_def)
  moreover have "proposal_try_from ensure_ns1 = Ok (proposal_legacy (EnsureNamespaceV1 ''n'' 4))"
    by (simp add: proposal_try_from_def to_replicated_command_def ensure_ns1_def usize_to_u64_def)
  ultimately obtain xs s' where "raft_apply types1 [entry1] replica0 = (Ok xs, s')"
    "rsm_broker s' = snd (serve [ensure_ns1] (rsm_broker replica0))"
    "observed_applied_index (rsm_observation s') = Some (rt_index types1 (le_log_id (last [entry1])))"
    using replicated_log_answers_as_the_broker [of replica0 "[ensure_ns1]" "[entry1]" types1] by (auto simp: entry1_def)
  then show ?thesis by (simp add: Let_def split_beta replica0_def entry1_def types1_def)
qed

end
