(* ===== verification/Raft_Snapshot.thy ===== *)
theory Raft_Snapshot
  imports Raft_Sessions
begin

text \<open>
  \<open>agent-broker-consensus/src/raft_state_machine.rs\<close>: the consensus snapshot, which is the snapshot of the
  broker with the command sessions beside it, and how a replica is built from one.
\<close>

section \<open>The image\<close>

definition CONSENSUS_SNAPSHOT_MAGIC :: bytes where "CONSENSUS_SNAPSHOT_MAGIC = ''ABCSNP01''"
definition CONSENSUS_SNAPSHOT_VERSION :: "32 word" where "CONSENSUS_SNAPSHOT_VERSION = 1"
definition CONSENSUS_SNAPSHOT_HEADER_BYTES :: usize where "CONSENSUS_SNAPSHOT_HEADER_BYTES = 8 + 4 + 8 + 8"
definition SNAPSHOT_META_KEY :: string where "SNAPSHOT_META_KEY = ''snapshot_meta_v1''"
definition SNAPSHOT_DATA_KEY :: string where "SNAPSHOT_DATA_KEY = ''snapshot_data_v1''"

text \<open>\<open>to_be_bytes\<close> and \<open>from_be_bytes\<close>.\<close>

fun be_bytes :: "nat \<Rightarrow> nat \<Rightarrow> bytes" where
  "be_bytes 0 v = []"
| "be_bytes (Suc w) v = be_bytes w (v div 256) @ [char_of (v mod 256)]"

definition from_be_bytes :: "bytes \<Rightarrow> nat" where
  "from_be_bytes b = foldl (\<lambda>v c. v * 256 + of_char c) 0 b"

record CommandSessionSnapshotRecordV1 =
  xw_session_id :: string
  xw_owner_epoch :: u64
  xw_owner_instance_id :: "string option"
  xw_sequence :: "u64 option"
  xw_command :: "ReplicatedBrokerCommandV1 option"
  xw_response :: "ReplicatedBrokerResponseV1 option"

record CommandSessionsSnapshotV1 =
  xs_version :: "32 word"
  xs_records :: "CommandSessionSnapshotRecordV1 list"

record ('l, 'sm) SnapshotMeta =
  sm_last_log_id :: "'l option"
  sm_last_membership :: 'sm
  sm_snapshot_id :: string

text \<open>The JSON library.\<close>

record ('l, 'sm) raft_json =
  rj_snapshot_to_vec :: "SnapshotWire \<Rightarrow> string + bytes"
  rj_snapshot_from_slice :: "bytes \<Rightarrow> string + SnapshotWire"
  rj_sidecar_to_vec :: "CommandSessionsSnapshotV1 \<Rightarrow> string + bytes"
  rj_sidecar_from_slice :: "bytes \<Rightarrow> string + CommandSessionsSnapshotV1"
  rj_meta_to_vec :: "('l, 'sm) SnapshotMeta \<Rightarrow> string + bytes"
  rj_meta_from_slice :: "bytes \<Rightarrow> string + ('l, 'sm) SnapshotMeta"

definition invalid_snapshot_data :: "('e \<Rightarrow> string) \<Rightarrow> 'e + 'a \<Rightarrow> IoError + 'a" where
  "invalid_snapshot_data display = map_err (\<lambda>e. InvalidData (display e))"

definition session_to_wire :: "CommandSessionId \<times> CommandSessionRecord \<Rightarrow> CommandSessionSnapshotRecordV1" where
  "session_to_wire p =
     (case p of (session_id, r) \<Rightarrow>
        \<lparr>xw_session_id = session_str session_id, xw_owner_epoch = cs_owner_epoch r,
         xw_owner_instance_id = map_option instance_str (cs_owner_instance_id r),
         xw_sequence = map_option co_sequence (cs_last_outcome r),
         xw_command = map_option co_command (cs_last_outcome r),
         xw_response = map_option co_response (cs_last_outcome r)\<rparr>)"

definition encode_consensus_snapshot :: "('l, 'sm) raft_json \<Rightarrow> BrokerCheckpoint \<Rightarrow> command_sessions \<Rightarrow> IoError + bytes" where
  "encode_consensus_snapshot json checkpoint sessions =
     try_r (invalid_snapshot_data StorageError_display (encode_snapshot (rj_snapshot_to_vec json) checkpoint)) (\<lambda>broker_snapshot.
     let sidecar = \<lparr>xs_version = CONSENSUS_SNAPSHOT_VERSION, xs_records = map session_to_wire (sorted_list_of_fmap sessions)\<rparr> in
     try_r (invalid_snapshot_data id (rj_sidecar_to_vec json sidecar)) (\<lambda>encoded_sidecar.
     try_r (if length broker_snapshot < 2 ^ 64 then Ok (length broker_snapshot)
            else Err (InvalidData ''Broker snapshot length exceeds u64'')) (\<lambda>broker_len.
     try_r (if length encoded_sidecar < 2 ^ 64 then Ok (length encoded_sidecar)
            else Err (InvalidData ''command session snapshot length exceeds u64'')) (\<lambda>sidecar_len.
     Ok (CONSENSUS_SNAPSHOT_MAGIC @ be_bytes 4 (unat CONSENSUS_SNAPSHOT_VERSION) @ be_bytes 8 broker_len @
         be_bytes 8 sidecar_len @ broker_snapshot @ encoded_sidecar)))))"

definition decode_command_session_outcome ::
  "u64 option \<Rightarrow> ReplicatedBrokerCommandV1 option \<Rightarrow> ReplicatedBrokerResponseV1 option \<Rightarrow> IoError + CommandSessionOutcome option" where
  "decode_command_session_outcome sequence command response =
     (case (sequence, command, response) of
        (None, None, None) \<Rightarrow> Ok None
      | (Some sequence, Some command, Some response) \<Rightarrow>
          try_r (invalid_snapshot_data CommandIdentityError_display (CommandSequence_new sequence)) (\<lambda>sequence.
          try_r (invalid_snapshot_data rce_message (to_broker_command command)) (\<lambda>_.
          let response = normalize_stored_session_outcome response in
          try_r (invalid_snapshot_data rre_message (into_application_result response)) (\<lambda>_.
          Ok (Some \<lparr>co_sequence = sequence, co_command = command, co_response = response\<rparr>))))
      | _ \<Rightarrow> Err (InvalidData ''command session snapshot outcome fields must be all present or all absent''))"

definition decode_session_record :: "CommandSessionSnapshotRecordV1 \<Rightarrow> command_sessions \<Rightarrow> IoError + command_sessions" where
  "decode_session_record r sessions =
     try_r (invalid_snapshot_data CommandIdentityError_display (CommandSessionId_new (xw_session_id r))) (\<lambda>session_id.
     try_r (invalid_snapshot_data CommandIdentityError_display (SessionOwnerEpoch_new (xw_owner_epoch r))) (\<lambda>owner_epoch.
     try_r (invalid_snapshot_data CommandIdentityError_display
              (transposed SessionOwnerInstanceId_new (xw_owner_instance_id r))) (\<lambda>owner_instance_id.
     try_r (decode_command_session_outcome (xw_sequence r) (xw_command r) (xw_response r)) (\<lambda>last_outcome.
     if fmlookup sessions session_id \<noteq> None
     then Err (InvalidData ''command session snapshot contains duplicate session_id'')
     else Ok (fmupd session_id
            \<lparr>cs_owner_epoch = owner_epoch, cs_owner_instance_id = owner_instance_id, cs_last_outcome = last_outcome\<rparr> sessions)))))"

definition decode_command_session_records :: "CommandSessionSnapshotRecordV1 list \<Rightarrow> IoError + command_sessions" where
  "decode_command_session_records records = try_fold decode_session_record records fmempty"

definition decode_checkpoint :: "('l, 'sm) raft_json \<Rightarrow> bytes \<Rightarrow> IoError + BrokerCheckpoint" where
  "decode_checkpoint json data =
     try_r (invalid_snapshot_data StorageError_display (decode_snapshot (rj_snapshot_from_slice json) data)) (\<lambda>checkpoint.
     try_r (invalid_snapshot_data CheckpointError_display (from_checkpoint checkpoint)) (\<lambda>_. Ok checkpoint))"

record DecodedConsensusSnapshot =
  dc_checkpoint :: BrokerCheckpoint
  dc_command_sessions :: command_sessions

definition usize_checked_add :: "usize \<Rightarrow> usize \<Rightarrow> usize option" where
  "usize_checked_add a b = (if a + b < 2 ^ 64 then Some (a + b) else None)"

definition decode_consensus_snapshot :: "('l, 'sm) raft_json \<Rightarrow> bytes \<Rightarrow> IoError + DecodedConsensusSnapshot" where
  "decode_consensus_snapshot json data =
     (if take 8 data \<noteq> CONSENSUS_SNAPSHOT_MAGIC then
        try_r (decode_checkpoint json data) (\<lambda>checkpoint. Ok \<lparr>dc_checkpoint = checkpoint, dc_command_sessions = fmempty\<rparr>)
      else if length data < CONSENSUS_SNAPSHOT_HEADER_BYTES then Err (InvalidData ''consensus snapshot header is truncated'')
      else
        let version = from_be_bytes (take 4 (drop 8 data)) in
        if version \<noteq> unat CONSENSUS_SNAPSHOT_VERSION then
          Err (InvalidData (''unsupported consensus snapshot version '' @ show_nat version))
        else
          let broker_len = from_be_bytes (take 8 (drop 12 data)); sidecar_len = from_be_bytes (take 8 (drop 20 data)) in
          case usize_checked_add CONSENSUS_SNAPSHOT_HEADER_BYTES broker_len of
            None \<Rightarrow> Err (InvalidData ''consensus snapshot Broker length overflow'')
          | Some broker_end \<Rightarrow>
              (case usize_checked_add broker_end sidecar_len of
                 None \<Rightarrow> Err (InvalidData ''consensus snapshot sidecar length overflow'')
               | Some expected_end \<Rightarrow>
                   if expected_end \<noteq> length data then
                     Err (InvalidData ''consensus snapshot length fields do not match payload length'')
                   else
                     try_r (decode_checkpoint json (take broker_len (drop CONSENSUS_SNAPSHOT_HEADER_BYTES data))) (\<lambda>checkpoint.
                     try_r (invalid_snapshot_data id (rj_sidecar_from_slice json (drop broker_end data))) (\<lambda>sidecar.
                     if xs_version sidecar \<noteq> CONSENSUS_SNAPSHOT_VERSION then
                       Err (InvalidData (''unsupported command session snapshot version '' @ show_nat (unat (xs_version sidecar))))
                     else if length (xs_records sidecar) > MAX_COMMAND_SESSIONS then
                       Err (InvalidData (''command session snapshot exceeds capacity '' @ show_nat MAX_COMMAND_SESSIONS))
                     else
                       try_r (decode_command_session_records (xs_records sidecar)) (\<lambda>sessions.
                       Ok \<lparr>dc_checkpoint = checkpoint, dc_command_sessions = sessions\<rparr>)))))"

section \<open>Storing snapshots\<close>

definition persist_snapshot ::
  "('l, 'sm) raft_json \<Rightarrow> 'd redb \<Rightarrow> ('l, 'sm) SnapshotMeta \<Rightarrow> bytes \<Rightarrow> 'd \<Rightarrow> ('l RaftStorageError + unit) \<times> 'd" where
  "persist_snapshot json db meta data d =
     (case rj_meta_to_vec json meta of
        Err e \<Rightarrow> (Err (WriteSnapshot e), d)
      | Ok encoded_meta \<Rightarrow>
          map_prod (io_as WriteSnapshot) id (write_meta_pair db SNAPSHOT_META_KEY encoded_meta SNAPSHOT_DATA_KEY data d))"

definition read_snapshot_pair ::
  "('l, 'sm) raft_json \<Rightarrow> 'd redb \<Rightarrow> 'd \<Rightarrow> 'l RaftStorageError + (('l, 'sm) SnapshotMeta \<times> bytes) option" where
  "read_snapshot_pair json db d =
     try_r (io_as ReadError (read_meta_pair db SNAPSHOT_META_KEY SNAPSHOT_DATA_KEY d)) (\<lambda>pair.
     case pair of
       (None, None) \<Rightarrow> Ok None
     | (Some encoded_meta, Some data) \<Rightarrow>
         try_r (map_err ReadError (rj_meta_from_slice json encoded_meta)) (\<lambda>meta. Ok (Some (meta, data)))
     | _ \<Rightarrow> Err (ReadError ''persisted Raft snapshot metadata/data pair is incomplete''))"

definition raft_load ::
  "('l, 'mb, 'sm) raft_types \<Rightarrow> ('l, 'sm) raft_json \<Rightarrow> 'd redb \<Rightarrow> 'd \<Rightarrow> RaftBrokerObservation \<Rightarrow>
   'l RaftStorageError + ('d, 'l, 'sm) AgentBrokerRaftStateMachine" where
  "raft_load types json db d observation =
     try_r (read_snapshot_pair json db d) (\<lambda>persisted.
     case persisted of
       Some (meta, data) \<Rightarrow>
         try_r (io_as ReadSnapshot (decode_consensus_snapshot json data)) (\<lambda>decoded.
         try_r (map_err (\<lambda>e. ReadStateMachine (CheckpointError_display e)) (from_checkpoint (dc_checkpoint decoded))) (\<lambda>broker.
         Ok \<lparr>rsm_persistence = d, rsm_broker = broker, rsm_command_sessions = dc_command_sessions decoded,
             rsm_observation = observation_update (sm_state broker) (map_option (rt_index types) (sm_last_log_id meta)) observation,
             rsm_last_applied = sm_last_log_id meta, rsm_last_membership = sm_last_membership meta\<rparr>))
     | None \<Rightarrow>
         try_r (map_err (\<lambda>e. ReadStateMachine (CheckpointError_display e))
                  (from_checkpoint (BrokerState_checkpoint BrokerState_default))) (\<lambda>broker.
         Ok \<lparr>rsm_persistence = d, rsm_broker = broker, rsm_command_sessions = fmempty,
             rsm_observation = observation_update (sm_state broker) None observation,
             rsm_last_applied = None, rsm_last_membership = rt_default_membership types\<rparr>))"

record ('d, 'l, 'sm) AgentBrokerRaftSnapshotBuilder =
  sb_persistence :: 'd
  sb_checkpoint :: BrokerCheckpoint
  sb_command_sessions :: command_sessions
  sb_last_applied :: "'l option"
  sb_last_membership :: 'sm

definition get_snapshot_builder :: "('d, 'l, 'sm) AgentBrokerRaftStateMachine \<Rightarrow> ('d, 'l, 'sm) AgentBrokerRaftSnapshotBuilder" where
  "get_snapshot_builder s =
     \<lparr>sb_persistence = rsm_persistence s, sb_checkpoint = BrokerState_checkpoint (sm_state (rsm_broker s)),
      sb_command_sessions = rsm_command_sessions s, sb_last_applied = rsm_last_applied s,
      sb_last_membership = rsm_last_membership s\<rparr>"

definition snapshot_id :: "('l, 'mb, 'sm) raft_types \<Rightarrow> 'l option \<Rightarrow> u64 \<Rightarrow> string" where
  "snapshot_id types last_applied revision =
     (case last_applied of
        Some log_id \<Rightarrow>
          ''agent-broker-'' @ rt_leader_display types log_id @ ''-'' @ show_u64 (rt_index types log_id) @ ''-'' @ show_u64 revision
      | None \<Rightarrow> ''agent-broker-empty-'' @ show_u64 revision)"

definition build_snapshot ::
  "('l, 'mb, 'sm) raft_types \<Rightarrow> ('l, 'sm) raft_json \<Rightarrow> 'd redb \<Rightarrow> ('d, 'l, 'sm) AgentBrokerRaftSnapshotBuilder \<Rightarrow>
   ('l RaftStorageError + ('l, 'sm) SnapshotMeta \<times> bytes) \<times> ('d, 'l, 'sm) AgentBrokerRaftSnapshotBuilder" where
  "build_snapshot types json db b =
     (case io_as ReadStateMachine (encode_consensus_snapshot json (sb_checkpoint b) (sb_command_sessions b)) of
        Err e \<Rightarrow> (Err e, b)
      | Ok data \<Rightarrow>
          (let meta = \<lparr>sm_last_log_id = sb_last_applied b, sm_last_membership = sb_last_membership b,
                       sm_snapshot_id = snapshot_id types (sb_last_applied b) (bc_revision (sb_checkpoint b))\<rparr>
           in case persist_snapshot json db meta data (sb_persistence b) of
                (Err e, d) \<Rightarrow> (Err e, b\<lparr>sb_persistence := d\<rparr>)
              | (Ok _, d) \<Rightarrow> (Ok (meta, data), b\<lparr>sb_persistence := d\<rparr>)))"

definition install_snapshot ::
  "('l, 'mb, 'sm) raft_types \<Rightarrow> ('l, 'sm) raft_json \<Rightarrow> 'd redb \<Rightarrow> ('l, 'sm) SnapshotMeta \<Rightarrow> bytes \<Rightarrow>
   ('d, 'l, 'sm) AgentBrokerRaftStateMachine \<Rightarrow> ('l RaftStorageError + unit) \<times> ('d, 'l, 'sm) AgentBrokerRaftStateMachine" where
  "install_snapshot types json db meta data s =
     (case try_r (io_as ReadSnapshot (decode_consensus_snapshot json data)) (\<lambda>decoded.
           try_r (map_err (\<lambda>e. ReadSnapshot (CheckpointError_display e)) (from_checkpoint (dc_checkpoint decoded))) (\<lambda>replacement.
           Ok (decoded, replacement))) of
        Err e \<Rightarrow> (Err e, s)
      | Ok (decoded, replacement) \<Rightarrow>
          (case persist_snapshot json db meta data (rsm_persistence s) of
             (Err e, d) \<Rightarrow> (Err e, s\<lparr>rsm_persistence := d\<rparr>)
           | (Ok _, d) \<Rightarrow>
               (Ok (), s\<lparr>rsm_persistence := d, rsm_broker := replacement, rsm_command_sessions := dc_command_sessions decoded,
                         rsm_last_applied := sm_last_log_id meta, rsm_last_membership := sm_last_membership meta,
                         rsm_observation := observation_update (sm_state replacement)
                           (map_option (rt_index types) (sm_last_log_id meta)) (rsm_observation s)\<rparr>)))"

definition get_current_snapshot ::
  "('l, 'sm) raft_json \<Rightarrow> 'd redb \<Rightarrow> ('d, 'l, 'sm) AgentBrokerRaftStateMachine \<Rightarrow>
   'l RaftStorageError + (('l, 'sm) SnapshotMeta \<times> bytes) option" where
  "get_current_snapshot json db s =
     try_r (read_snapshot_pair json db (rsm_persistence s)) (\<lambda>persisted.
     case persisted of
       None \<Rightarrow> Ok None
     | Some (meta, data) \<Rightarrow>
         try_r (io_as ReadSnapshot (decode_consensus_snapshot json data)) (\<lambda>_. Ok (Some (meta, data))))"

section \<open>Snapshots are read back\<close>

lemma be_bytes_length [simp]: "length (be_bytes w v) = w"
  by (induction w arbitrary: v) simp_all

lemma from_be_bytes_snoc: "from_be_bytes (b @ [c]) = from_be_bytes b * 256 + of_char c"
  by (simp add: from_be_bytes_def)

lemma from_be_bytes_round: "from_be_bytes (be_bytes w v) = v mod 256 ^ w"
proof (induction w arbitrary: v)
  case (Suc w)
  have "v mod 256 ^ Suc w = (v div 256 mod 256 ^ w) * 256 + v mod 256"
    by (simp add: mod_mult2_eq [of v 256 "256 ^ w"] mult.commute)
  with Suc show ?case by (simp add: from_be_bytes_snoc of_char_of)
qed (simp add: from_be_bytes_def)

text \<open>What the JSON library promises: what it wrote it reads back.\<close>

definition raft_json_laws :: "('l, 'sm) raft_json \<Rightarrow> bool" where
  "raft_json_laws json \<longleftrightarrow>
     (\<forall>w b. rj_snapshot_to_vec json w = Ok b \<longrightarrow> rj_snapshot_from_slice json b = Ok w) \<and>
     (\<forall>w b. rj_sidecar_to_vec json w = Ok b \<longrightarrow> rj_sidecar_from_slice json b = Ok w) \<and>
     (\<forall>w b. rj_meta_to_vec json w = Ok b \<longrightarrow> rj_meta_from_slice json b = Ok w)"

lemma invalid_snapshot_Ok [simp]: "invalid_snapshot_data display r = Ok x \<longleftrightarrow> r = Ok x"
  by (simp add: invalid_snapshot_data_def)

lemma outcome_round:
  assumes "\<And>out. last_outcome = Some out \<Longrightarrow> outcome_values out"
  shows "decode_command_session_outcome (map_option co_sequence last_outcome) (map_option co_command last_outcome)
    (map_option co_response last_outcome) = Ok last_outcome"
proof (cases last_outcome)
  case (Some out)
  with assms have "outcome_values out" by simp
  with Some show ?thesis
    by (auto simp: decode_command_session_outcome_def outcome_values_def CommandSequence_new_def invalid_snapshot_data_def Let_def)
qed (simp add: decode_command_session_outcome_def)

lemma session_eta [simp]:
  "\<lparr>cs_owner_epoch = cs_owner_epoch r, cs_owner_instance_id = cs_owner_instance_id r, cs_last_outcome = cs_last_outcome r\<rparr> = r"
  by simp

lemma session_record_round:
  assumes "session_values sid r" "fmlookup sessions sid = None"
  shows "decode_session_record (session_to_wire (sid, r)) sessions = Ok (fmupd sid r sessions)"
proof -
  have "transposed SessionOwnerInstanceId_new (map_option instance_str (cs_owner_instance_id r)) = Ok (cs_owner_instance_id r)"
    using assms(1) by (cases "cs_owner_instance_id r") (auto simp: transposed_def session_values_def instanceid.reparse)
  then show ?thesis
    using assms outcome_round [of "cs_last_outcome r"]
    by (simp add: decode_session_record_def session_to_wire_def session_values_def sessionid.reparse SessionOwnerEpoch_new_def
      invalid_snapshot_data_def)
qed

lemma session_records_round:
  assumes "\<forall>(sid, r) \<in> set ps. session_values sid r" "distinct (map fst ps)" "\<forall>p \<in> set ps. fmlookup sessions (fst p) = None"
  shows "try_fold decode_session_record (map session_to_wire ps) sessions = Ok (fold (\<lambda>(sid, r). fmupd sid r) ps sessions)"
  using assms
proof (induction ps arbitrary: sessions)
  case (Cons p ps)
  obtain sid r where p: "p = (sid, r)" by fastforce
  with Cons.prems have "decode_session_record (session_to_wire p) sessions = Ok (fmupd sid r sessions)"
    by (simp add: session_record_round)
  moreover have "try_fold decode_session_record (map session_to_wire ps) (fmupd sid r sessions) =
      Ok (fold (\<lambda>(sid, r). fmupd sid r) ps (fmupd sid r sessions))"
  proof (rule Cons.IH)
    show "\<forall>q \<in> set ps. fmlookup (fmupd sid r sessions) (fst q) = None"
      using Cons.prems(2,3) p by (metis fmupd_lookup fst_conv distinct.simps(2) image_eqI list.set_intros(2) list.simps(9) set_map)
  qed (use Cons.prems in auto)
  ultimately show ?case by (simp add: p)
qed simp

lemma fold_upd_lookup:
  "distinct (map fst ps) \<Longrightarrow> fmlookup (fold (\<lambda>(k, v). fmupd k v) ps m) k = (case map_of ps k of None \<Rightarrow> fmlookup m k | Some v \<Rightarrow> Some v)"
proof (induction ps arbitrary: m)
  case (Cons p ps)
  then show ?case by (cases p) (auto split: option.splits simp: map_of_eq_None_iff dest: map_of_SomeD intro: rev_image_eqI)
qed simp

lemma fold_sorted: "fold (\<lambda>(k, v). fmupd k v) (sorted_list_of_fmap m) fmempty = m"
  by (intro fmap_ext) (auto simp: fold_upd_lookup split: option.splits)

lemma sessions_round:
  assumes "sessions_valid sessions"
  shows "decode_command_session_records (map session_to_wire (sorted_list_of_fmap sessions)) = Ok sessions"
proof -
  have "\<forall>(sid, r) \<in> set (sorted_list_of_fmap sessions). session_values sid r"
    using assms by (auto simp: sessions_valid_def set_entries)
  then show ?thesis
    unfolding decode_command_session_records_def by (subst session_records_round) (auto simp: fold_sorted)
qed

lemma image_parts:
  assumes "data = CONSENSUS_SNAPSHOT_MAGIC @ be_bytes 4 (unat CONSENSUS_SNAPSHOT_VERSION) @ be_bytes 8 (length b) @ be_bytes 8 (length e) @ b @ e"
    and "length data < 2 ^ 64"
  shows "take 8 data = CONSENSUS_SNAPSHOT_MAGIC" "length data = 28 + length b + length e"
    "from_be_bytes (take 4 (drop 8 data)) = unat CONSENSUS_SNAPSHOT_VERSION" "from_be_bytes (take 8 (drop 12 data)) = length b"
    "from_be_bytes (take 8 (drop 20 data)) = length e" "take (length b) (drop 28 data) = b" "drop (28 + length b) data = e"
proof -
  have m: "length CONSENSUS_SNAPSHOT_MAGIC = 8" by (simp add: CONSENSUS_SNAPSHOT_MAGIC_def)
  show len: "length data = 28 + length b + length e" by (simp add: assms(1) m)
  with assms(2) have "length b < 256 ^ 8" "length e < 256 ^ 8" by simp_all
  then show "from_be_bytes (take 8 (drop 12 data)) = length b" "from_be_bytes (take 8 (drop 20 data)) = length e"
    by (simp_all add: assms(1) m from_be_bytes_round)
  show "take 8 data = CONSENSUS_SNAPSHOT_MAGIC" "take (length b) (drop 28 data) = b" "drop (28 + length b) data = e"
    by (simp_all add: assms(1) m)
  show "from_be_bytes (take 4 (drop 8 data)) = unat CONSENSUS_SNAPSHOT_VERSION"
    by (simp add: assms(1) m from_be_bytes_round CONSENSUS_SNAPSHOT_VERSION_def)
qed

lemma consensus_snapshot_round:
  assumes "raft_json_laws json" "answerable m" "sessions_valid sessions" "fm_len sessions \<le> MAX_COMMAND_SESSIONS"
    and "encode_consensus_snapshot json (BrokerState_checkpoint (sm_state m)) sessions = Ok data" "length data < 2 ^ 64"
  shows "decode_consensus_snapshot json data =
    Ok \<lparr>dc_checkpoint = BrokerState_checkpoint (sm_state m), dc_command_sessions = sessions\<rparr>"
proof -
  let ?c = "BrokerState_checkpoint (sm_state m)"
  let ?sidecar = "\<lparr>xs_version = CONSENSUS_SNAPSHOT_VERSION, xs_records = map session_to_wire (sorted_list_of_fmap sessions)\<rparr>"
  obtain b e where b: "rj_snapshot_to_vec json (checkpoint_to_wire ?c) = Ok b" "encode_snapshot (rj_snapshot_to_vec json) ?c = Ok b"
    and e: "rj_sidecar_to_vec json ?sidecar = Ok e"
    and data: "data = CONSENSUS_SNAPSHOT_MAGIC @ be_bytes 4 (unat CONSENSUS_SNAPSHOT_VERSION) @ be_bytes 8 (length b) @ be_bytes 8 (length e) @ b @ e"
    using assms(5) by (auto simp: encode_consensus_snapshot_def encode_snapshot_def try_r_Ok Let_def split: if_splits)
  note parts = image_parts [OF data assms(6)]
  from assms(2) have inv: "broker_inv m" "state_values (sm_state m)" "entities_wf (sm_state m)" by (simp_all add: answerable_def inv_ex_def)
  obtain m' where m': "from_checkpoint ?c = Ok m'" by (rule recovered_machine [OF inv(1)])
  have "decode_snapshot (rj_snapshot_from_slice json) b = Ok ?c"
    using snapshot_round [of ?c "rj_snapshot_to_vec json" b "rj_snapshot_from_slice json"] b(1) assms(1)
      exported_values_ok [OF inv(3,2)] exported_sorted [OF inv(3)] exported_checkpoint_ok [OF inv(1)]
    by (simp add: raft_json_laws_def)
  with m' have cp: "decode_checkpoint json b = Ok ?c" by (simp add: decode_checkpoint_def invalid_snapshot_data_def)
  have sc: "rj_sidecar_from_slice json e = Ok ?sidecar" using assms(1) e by (simp add: raft_json_laws_def)
  have "length (sorted_list_of_fmap sessions) \<le> MAX_COMMAND_SESSIONS"
    using assms(4) length_fm_values [of sessions] by (simp add: fm_values_def)
  with parts cp sc sessions_round [OF assms(3)] assms(6) show ?thesis
    by (simp add: decode_consensus_snapshot_def usize_checked_add_def CONSENSUS_SNAPSHOT_HEADER_BYTES_def Let_def
      invalid_snapshot_data_def)
qed

section \<open>Snapshots on disk\<close>

text \<open>The database holds the snapshot.\<close>

definition snapshot_stored :: "('l, 'sm) raft_json \<Rightarrow> ('l, 'sm) SnapshotMeta \<Rightarrow> bytes \<Rightarrow> RaftTables \<Rightarrow> bool" where
  "snapshot_stored json meta data t \<longleftrightarrow>
     (case fmlookup (raft_meta_table t) SNAPSHOT_META_KEY of None \<Rightarrow> False | Some b \<Rightarrow> rj_meta_from_slice json b = Ok meta) \<and>
     fmlookup (raft_meta_table t) SNAPSHOT_DATA_KEY = Some data"

lemma persist_stores:
  assumes "redb_laws db tables" "raft_json_laws json" "persist_snapshot json db meta data d = (Ok u, d')"
  shows "snapshot_stored json meta data (tables d')"
proof -
  obtain b where b: "rj_meta_to_vec json meta = Ok b" "write_meta_pair db SNAPSHOT_META_KEY b SNAPSHOT_DATA_KEY data d = (Ok u, d')"
    using assms(3) by (auto simp: persist_snapshot_def map_prod_def split: sum.splits prod.splits)
  from committing_Ok [OF assms(1) b(2) [unfolded write_meta_pair_def]] assms(2) b(1) show ?thesis
    by (simp add: snapshot_stored_def raft_json_laws_def SNAPSHOT_META_KEY_def SNAPSHOT_DATA_KEY_def)
qed

lemma stored_read:
  assumes "redb_laws db tables" "snapshot_stored json meta data (tables d)" "db_read db d = Ok t"
  shows "read_snapshot_pair json db d = Ok (Some (meta, data))"
proof -
  have "t = tables d" using assms(1,3) by (auto simp: redb_laws_def)
  with assms(2,3) show ?thesis
    by (auto simp: snapshot_stored_def read_snapshot_pair_def read_meta_pair_def io_other_def split: option.splits)
qed

lemma stored_performs:
  assumes "redb_laws db tables" "snapshot_stored json meta data (tables d)" "performs codec db ops d = Some d'"
  shows "snapshot_stored json meta data (tables d')"
  using assms(2) performs_meta [OF assms(1,3), of SNAPSHOT_META_KEY] performs_meta [OF assms(1,3), of SNAPSHOT_DATA_KEY]
  by (simp add: snapshot_stored_def SNAPSHOT_META_KEY_def SNAPSHOT_DATA_KEY_def LAST_PURGED_KEY_def)

lemma stored_load:
  assumes "redb_laws db tables" "snapshot_stored json meta data (tables d)" "db_read db d = Ok t"
    and "decode_consensus_snapshot json data = Ok decoded" "from_checkpoint (dc_checkpoint decoded) = Ok broker"
  shows "\<exists>ob'. raft_load types json db d ob =
    Ok \<lparr>rsm_persistence = d, rsm_broker = broker, rsm_command_sessions = dc_command_sessions decoded, rsm_observation = ob',
        rsm_last_applied = sm_last_log_id meta, rsm_last_membership = sm_last_membership meta\<rparr>"
  using stored_read [OF assms(1-3)] assms(4,5) by (simp add: raft_load_def)

text \<open>
  C16: Installing a snapshot is all or nothing, and lasts.  If installing fails, the replica keeps its
  broker, its sessions and its position in the log; if it succeeds, then after any further operations
  on the log a replica loaded from the disk is the replica that installed the snapshot.
\<close>

theorem installed_snapshot_lasts:
  assumes "redb_laws db tables" "raft_json_laws json" "install_snapshot types json db meta data s = (r, s')"
  shows "case r of
      Err e \<Rightarrow> \<exists>d. s' = s\<lparr>rsm_persistence := d\<rparr>
    | Ok _ \<Rightarrow> rsm_last_applied s' = sm_last_log_id meta \<and>
        (\<forall>codec ops d t ob. performs codec db ops (rsm_persistence s') = Some d \<and> db_read db d = Ok t \<longrightarrow>
           (\<exists>ob'. raft_load types json db d ob = Ok (s'\<lparr>rsm_persistence := d, rsm_observation := ob'\<rparr>)))"
proof (cases "\<exists>decoded replacement. decode_consensus_snapshot json data = Ok decoded \<and> from_checkpoint (dc_checkpoint decoded) = Ok replacement")
  case False
  with assms(3) have "\<exists>e. r = Err e \<and> s' = s\<lparr>rsm_persistence := rsm_persistence s\<rparr>"
    by (cases "decode_consensus_snapshot json data"; cases "from_checkpoint (dc_checkpoint (projr (decode_consensus_snapshot json data)))")
      (auto simp: install_snapshot_def)
  then show ?thesis by (elim exE conjE) (simp only: sum.case, blast)
next
  case True
  then obtain decoded replacement where parts: "decode_consensus_snapshot json data = Ok decoded"
    "from_checkpoint (dc_checkpoint decoded) = Ok replacement" by blast
  obtain x d where persist: "persist_snapshot json db meta data (rsm_persistence s) = (x, d)" by fastforce
  show ?thesis
  proof (cases x)
    case (Inl e)
    with assms(3) parts persist show ?thesis by (auto simp: install_snapshot_def)
  next
    case (Inr u)
    with persist have stored: "snapshot_stored json meta data (tables d)" by (auto intro: persist_stores [OF assms(1,2)])
    from assms(3) parts persist Inr have r: "r = Ok ()" "s' = s\<lparr>rsm_persistence := d, rsm_broker := replacement,
        rsm_command_sessions := dc_command_sessions decoded, rsm_last_applied := sm_last_log_id meta,
        rsm_last_membership := sm_last_membership meta, rsm_observation := observation_update (sm_state replacement)
          (map_option (rt_index types) (sm_last_log_id meta)) (rsm_observation s)\<rparr>"
      by (simp_all add: install_snapshot_def)
    have eq: "s'\<lparr>rsm_persistence := d', rsm_observation := ob'\<rparr> = \<lparr>rsm_persistence = d', rsm_broker = replacement,
        rsm_command_sessions = dc_command_sessions decoded, rsm_observation = ob', rsm_last_applied = sm_last_log_id meta,
        rsm_last_membership = sm_last_membership meta\<rparr>" for d' ob' by (simp add: r(2))
    have "rsm_persistence s' = d" "rsm_last_applied s' = sm_last_log_id meta" by (simp_all add: r(2))
    then show ?thesis
      unfolding r(1) sum.case eq using stored_load [OF assms(1) stored_performs [OF assms(1) stored] _ parts] by auto
  qed
qed

text \<open>JSON that writes one snapshot, and a replica on an empty disk.\<close>

definition json_for :: "SnapshotWire \<Rightarrow> CommandSessionsSnapshotV1 \<Rightarrow> ('l, 'sm) SnapshotMeta \<Rightarrow> ('l, 'sm) raft_json" where
  "json_for w sidecar meta =
     \<lparr>rj_snapshot_to_vec = (\<lambda>x. if x = w then Ok ''s'' else Err ''other''), rj_snapshot_from_slice = (\<lambda>_. Ok w),
      rj_sidecar_to_vec = (\<lambda>x. if x = sidecar then Ok ''c'' else Err ''other''), rj_sidecar_from_slice = (\<lambda>_. Ok sidecar),
      rj_meta_to_vec = (\<lambda>x. if x = meta then Ok ''m'' else Err ''other''), rj_meta_from_slice = (\<lambda>_. Ok meta)\<rparr>"

lemma json_for_laws: "raft_json_laws (json_for w sidecar meta)"
  by (simp add: raft_json_laws_def json_for_def)

definition json_of_replica :: "('l, 'mb, 'sm) raft_types \<Rightarrow> ('d, 'l, 'sm) AgentBrokerRaftStateMachine \<Rightarrow> ('l, 'sm) raft_json" where
  "json_of_replica types s =
     (let c = BrokerState_checkpoint (sm_state (rsm_broker s))
      in json_for (checkpoint_to_wire c)
           \<lparr>xs_version = CONSENSUS_SNAPSHOT_VERSION, xs_records = map session_to_wire (sorted_list_of_fmap (rsm_command_sessions s))\<rparr>
           \<lparr>sm_last_log_id = rsm_last_applied s, sm_last_membership = rsm_last_membership s,
            sm_snapshot_id = snapshot_id types (rsm_last_applied s) (bc_revision c)\<rparr>)"

lemma replica_encodes:
  "encode_consensus_snapshot (json_of_replica types s) (BrokerState_checkpoint (sm_state (rsm_broker s))) (rsm_command_sessions s) =
     Ok (CONSENSUS_SNAPSHOT_MAGIC @ be_bytes 4 (unat CONSENSUS_SNAPSHOT_VERSION) @ be_bytes 8 1 @ be_bytes 8 1 @ ''s'' @ ''c'')"
  by (simp add: encode_consensus_snapshot_def encode_snapshot_def json_of_replica_def json_for_def Let_def invalid_snapshot_data_def)

lemma replica_builds:
  "\<exists>meta data b. build_snapshot types (json_of_replica types s) memory_db (get_snapshot_builder s) = (Ok (meta, data), b) \<and>
     length data < 2 ^ 64 \<and> meta = \<lparr>sm_last_log_id = rsm_last_applied s, sm_last_membership = rsm_last_membership s,
       sm_snapshot_id = snapshot_id types (rsm_last_applied s) (bc_revision (BrokerState_checkpoint (sm_state (rsm_broker s))))\<rparr> \<and>
     encode_consensus_snapshot (json_of_replica types s) (BrokerState_checkpoint (sm_state (rsm_broker s))) (rsm_command_sessions s) = Ok data"
  unfolding build_snapshot_def get_snapshot_builder_def replica_encodes AgentBrokerRaftSnapshotBuilder.simps
  by (simp add: json_of_replica_def json_for_def Let_def persist_snapshot_def write_meta_pair_def committing_def memory_db_def
    io_other_def CONSENSUS_SNAPSHOT_MAGIC_def del: be_bytes.simps)

definition disk_replica :: "(RaftTables, u64, unit) AgentBrokerRaftStateMachine" where
  "disk_replica = \<lparr>rsm_persistence = no_tables, rsm_broker = BrokerStateMachine_default, rsm_command_sessions = fmempty,
     rsm_observation = observation_new BrokerState_default None, rsm_last_applied = None, rsm_last_membership = ()\<rparr>"

lemma disk_replica_ok: "replica_ok disk_replica"
  by (rule replica_init_ok) (simp add: replica_init_def disk_replica_def)

lemma replica_decodes:
  assumes "raft_json_laws json" "replica_ok s" "length data < 2 ^ 64"
    and "encode_consensus_snapshot json (BrokerState_checkpoint (sm_state (rsm_broker s))) (rsm_command_sessions s) = Ok data"
  shows "decode_consensus_snapshot json data =
    Ok \<lparr>dc_checkpoint = BrokerState_checkpoint (sm_state (rsm_broker s)), dc_command_sessions = rsm_command_sessions s\<rparr>"
  using assms(2) consensus_snapshot_round [OF assms(1) _ _ _ assms(4,3)] by (simp add: replica_ok_def)

theorem installed_snapshot_lasts_witness:
  "\<exists>meta data b s' ob'.
     build_snapshot types1 (json_of_replica types1 disk_replica) memory_db (get_snapshot_builder disk_replica) = (Ok (meta, data), b) \<and>
     install_snapshot types1 (json_of_replica types1 disk_replica) memory_db meta data disk_replica = (Ok (), s') \<and>
     raft_load types1 (json_of_replica types1 disk_replica) memory_db (rsm_persistence s') (rsm_observation disk_replica) =
       Ok (s'\<lparr>rsm_observation := ob'\<rparr>)"
proof -
  let ?json = "json_of_replica types1 disk_replica"
  have json: "raft_json_laws ?json" by (simp add: json_of_replica_def Let_def json_for_laws)
  obtain meta data b where b: "build_snapshot types1 ?json memory_db (get_snapshot_builder disk_replica) = (Ok (meta, data), b)"
    "length data < 2 ^ 64" "rj_meta_to_vec ?json meta = Ok ''m''"
    "encode_consensus_snapshot ?json (BrokerState_checkpoint (sm_state (rsm_broker disk_replica))) (rsm_command_sessions disk_replica) = Ok data"
    using replica_builds [of types1 disk_replica] by (auto simp: json_of_replica_def json_for_def Let_def)
  obtain m where "from_checkpoint (BrokerState_checkpoint (sm_state (rsm_broker disk_replica))) = Ok m"
    using disk_replica_ok by (auto simp: replica_ok_def answerable_def intro: recovered_machine)
  with replica_decodes [OF json disk_replica_ok b(2,4)] b(3)
  obtain s' where s': "install_snapshot types1 ?json memory_db meta data disk_replica = (Ok (), s')"
    by (simp add: install_snapshot_def persist_snapshot_def write_meta_pair_def committing_def memory_db_def io_other_def)
  have "performs codec1 memory_db [] (rsm_persistence s') = Some (rsm_persistence s')"
    "db_read memory_db (rsm_persistence s') = Ok (rsm_persistence s')" by (simp_all add: memory_db_def)
  with installed_snapshot_lasts [OF memory_db_laws json s', unfolded sum.case] obtain ob' where
    "raft_load types1 ?json memory_db (rsm_persistence s') (rsm_observation disk_replica) =
       Ok (s'\<lparr>rsm_persistence := rsm_persistence s', rsm_observation := ob'\<rparr>)" by metis
  then have "raft_load types1 ?json memory_db (rsm_persistence s') (rsm_observation disk_replica) = Ok (s'\<lparr>rsm_observation := ob'\<rparr>)" by simp
  with b(1) s' show ?thesis by blast
qed

end
