(* ===== verification/Raft_Recovery.thy ===== *)
theory Raft_Recovery
  imports Raft_Snapshot Scenario
begin

text \<open>
  Replicas agree: a replica restored from a snapshot answers the rest of the log as the replica that
  wrote the snapshot, and a claim whose deadline overflows is where they part.
\<close>

section \<open>Replicas that agree\<close>

definition replica_view ::
  "('d, 'l, 'sm) AgentBrokerRaftStateMachine \<Rightarrow> BrokerState \<times> command_sessions \<times> 'l option \<times> 'sm" where
  "replica_view s = (sm_state (rsm_broker s), rsm_command_sessions s, rsm_last_applied s, rsm_last_membership s)"

definition same_replica ::
  "(TaskId \<Rightarrow> NamespaceId) \<Rightarrow> ('d, 'l, 'sm) AgentBrokerRaftStateMachine \<Rightarrow> ('d, 'l, 'sm) AgentBrokerRaftStateMachine \<Rightarrow> bool" where
  "same_replica home a b \<longleftrightarrow> orderly home (rsm_broker a) \<and> orderly home (rsm_broker b) \<and> replica_view a = replica_view b"

text \<open>The proposals whose command publishes to the home of the task and fails, if at all, before it has an effect.\<close>

definition clean_proposal :: "(TaskId \<Rightarrow> NamespaceId) \<Rightarrow> ReplicatedBrokerProposalV1 \<Rightarrow> BrokerStateMachine \<Rightarrow> bool" where
  "clean_proposal home p m \<longleftrightarrow>
     (case to_broker_command (rp_command p) of Err _ \<Rightarrow> True | Ok c \<Rightarrow> publishes_home home c \<and> fails_cleanly c m)"

lemma same_replicaD:
  assumes "same_replica home a b"
  shows "orderly home (rsm_broker a)" "orderly home (rsm_broker b)" "sm_state (rsm_broker a) = sm_state (rsm_broker b)"
    "rsm_command_sessions a = rsm_command_sessions b" "rsm_last_applied a = rsm_last_applied b"
    "rsm_last_membership a = rsm_last_membership b"
  using assms by (simp_all add: same_replica_def replica_view_def)

lemma same_apply_replicated:
  assumes "same_replica home a b" "clean_proposal home p (rsm_broker a)"
    and "apply_replicated_command (rp_command p) a = (r, a')"
  shows "\<exists>b'. apply_replicated_command (rp_command p) b = (r, b') \<and> same_replica home a' b'"
proof (cases "to_broker_command (rp_command p)")
  case (Inl e)
  with assms(1,3) show ?thesis by (simp add: apply_replicated_undecodable)
next
  case (Inr c)
  note same = same_replicaD [OF assms(1)]
  from assms(2) Inr have c: "publishes_home home c" "fails_cleanly c (rsm_broker a)" by (simp_all add: clean_proposal_def)
  then have "fails_cleanly c (rsm_broker b)" using same_refused [OF same(1-3)] by simp
  with c have "orderly home (snd (broker_apply c (rsm_broker a)))" "orderly home (snd (broker_apply c (rsm_broker b)))"
    using same(1,2) by (simp_all add: orderly_apply)
  with Inr assms(3) same_broker_apply [OF same(1-3), of c] same(4-) show ?thesis
    by (auto simp: apply_replicated_command_def invalid_state_machine_data_def Let_def same_replica_def replica_view_def split_beta)
qed

text \<open>What does not reach the broker depends on the sessions only.\<close>

lemma reseated:
  assumes "same_replica home a b"
  obtains d m ob where "b = a\<lparr>rsm_persistence := d, rsm_broker := m, rsm_observation := ob\<rparr>"
proof
  show "b = a\<lparr>rsm_persistence := rsm_persistence b, rsm_broker := rsm_broker b, rsm_observation := rsm_observation b\<rparr>"
    using same_replicaD(4-) [OF assms] by simp
qed

lemma unadmitted_answer:
  assumes "\<not> admits (rsm_command_sessions a) i"
  shows "apply_identified i command (a\<lparr>rsm_persistence := d, rsm_broker := m, rsm_observation := ob\<rparr>) =
    (fst (apply_identified i command a), a\<lparr>rsm_persistence := d, rsm_broker := m, rsm_observation := ob\<rparr>)"
    "snd (apply_identified i command a) = a"
proof -
  have "\<exists>x. apply_identified i command a = (x, a) \<and>
    apply_identified i command (a\<lparr>rsm_persistence := d, rsm_broker := m, rsm_observation := ob\<rparr>) =
      (x, a\<lparr>rsm_persistence := d, rsm_broker := m, rsm_observation := ob\<rparr>)"
  proof (cases "fmlookup (rsm_command_sessions a) (ci_session_id i)")
    case None
    with assms show ?thesis
      by (auto simp: apply_identified_def admits_def SessionOwnerEpoch_INITIAL_def Let_def simp del: append_Cons)
  next
    case (Some rec)
    with assms show ?thesis
      by (cases "cs_last_outcome rec") (auto simp: apply_identified_def admits_def Let_def simp del: append_Cons)
  qed
  then show "apply_identified i command (a\<lparr>rsm_persistence := d, rsm_broker := m, rsm_observation := ob\<rparr>) =
    (fst (apply_identified i command a), a\<lparr>rsm_persistence := d, rsm_broker := m, rsm_observation := ob\<rparr>)"
    "snd (apply_identified i command a) = a" by auto
qed

lemma same_identified:
  assumes "same_replica home a b" "clean_proposal home p (rsm_broker a)" "apply_identified i (rp_command p) a = (r, a')"
  shows "\<exists>b'. apply_identified i (rp_command p) b = (r, b') \<and> same_replica home a' b'"
proof (cases "admits (rsm_command_sessions a) i")
  case False
  obtain d m ob where "b = a\<lparr>rsm_persistence := d, rsm_broker := m, rsm_observation := ob\<rparr>" by (rule reseated [OF assms(1)])
  with unadmitted_answer [OF False, of "rp_command p"] assms(1,3) show ?thesis by auto
next
  case True
  then have b: "admits (rsm_command_sessions b) i" using same_replicaD(4) [OF assms(1)] by simp
  obtain x a1 where a1: "apply_replicated_command (rp_command p) a = (x, a1)" by fastforce
  from same_apply_replicated [OF assms(1,2) a1] obtain b1 where
    b1: "apply_replicated_command (rp_command p) b = (x, b1)" "same_replica home a1 b1" by blast
  from admitted_execution [OF True a1] admitted_execution [OF b b1(1)] assms(3) b1(2) show ?thesis
    by (cases x) (auto simp: same_replica_def replica_view_def)
qed

lemma acquire_depends:
  "acquire_command_session_owner raw expected raw_owner (a\<lparr>rsm_persistence := d, rsm_broker := m, rsm_observation := ob\<rparr>) =
     map_prod id (\<lambda>a'. a'\<lparr>rsm_persistence := d, rsm_broker := m, rsm_observation := ob\<rparr>)
       (acquire_command_session_owner raw expected raw_owner a)"
proof (cases "try_r (invalid_state_machine_data CommandIdentityError_display (CommandSessionId_new raw)) (\<lambda>sid.
    try_r (invalid_state_machine_data CommandIdentityError_display (SessionOwnerEpoch_new expected)) (\<lambda>expected.
    try_r (invalid_state_machine_data CommandIdentityError_display (SessionOwnerInstanceId_new raw_owner)) (\<lambda>owner.
    Ok (sid, expected, owner))))")
  case (Inl e)
  then show ?thesis by (simp add: acquire_command_session_owner_def)
next
  case (Inr ids)
  obtain sid x owner where ids: "ids = (sid, x, owner)" by (cases ids)
  show ?thesis
  proof (cases "fmlookup (rsm_command_sessions a) sid")
    case None
    then show ?thesis unfolding acquire_command_session_owner_def Inr ids by (simp del: append_Cons add: Let_def)
  next
    case (Some rec)
    then show ?thesis
      unfolding acquire_command_session_owner_def Inr ids
      by (cases "checked_add x 1";
          cases "SessionOwnerEpoch_new (the (checked_add x 1))")
        (simp_all del: append_Cons add: Let_def invalid_state_machine_data_def)
  qed
qed

lemma same_acquired:
  assumes "same_replica home a b" "acquire_command_session_owner raw expected raw_owner a = (r, a')"
  shows "\<exists>b'. acquire_command_session_owner raw expected raw_owner b = (r, b') \<and> same_replica home a' b'"
proof -
  obtain d m ob where b: "b = a\<lparr>rsm_persistence := d, rsm_broker := m, rsm_observation := ob\<rparr>" by (rule reseated [OF assms(1)])
  have frame: "rsm_broker a' = rsm_broker a"
    using assms(2) by (cases rule: acquire_cases) simp_all
  from acquire_depends [where a = a and d = d and m = m and ob = ob] assms show ?thesis
    by (auto simp: b frame same_replica_def replica_view_def)
qed

lemma same_proposal:
  assumes "same_replica home a b" "clean_proposal home p (rsm_broker a)" "apply_proposal p a = (r, a')"
  shows "\<exists>b'. apply_proposal p b = (r, b') \<and> same_replica home a' b'"
proof (cases "into_parts p")
  case (Inl e)
  with assms(1,3) show ?thesis by (auto simp: apply_proposal_def invalid_state_machine_data_def)
next
  case (Inr parts)
  then obtain i where i: "parts = (i, rp_command p)" by (auto simp: into_parts_def try_r_Ok)
  show ?thesis
  proof (cases "rp_command p")
    case (AcquireCommandSessionOwnerV1 raw expected raw_owner)
    with Inr i assms(1,3) same_acquired [OF assms(1)] show ?thesis
      by (auto simp: apply_proposal_def invalid_state_machine_data_def split: if_splits)
  qed (use Inr i assms(3) same_identified [OF assms(1,2)] same_apply_replicated [OF assms(1,2)] in
    \<open>auto simp: apply_proposal_def invalid_state_machine_data_def split: option.splits\<close>)
qed

section \<open>Logs\<close>

definition clean_entry ::
  "(TaskId \<Rightarrow> NamespaceId) \<Rightarrow> ('l, 'mb) Entry \<Rightarrow> ('d, 'l, 'sm) AgentBrokerRaftStateMachine \<Rightarrow> bool" where
  "clean_entry home entry s \<longleftrightarrow> (case le_payload entry of Normal p \<Rightarrow> clean_proposal home p (rsm_broker s) | _ \<Rightarrow> True)"

fun clean_log ::
  "('l, 'mb, 'sm) raft_types \<Rightarrow> (TaskId \<Rightarrow> NamespaceId) \<Rightarrow> ('l, 'mb) Entry list \<Rightarrow> ('d, 'l, 'sm) AgentBrokerRaftStateMachine \<Rightarrow> bool" where
  "clean_log types home [] s \<longleftrightarrow> True"
| "clean_log types home (entry # entries) s \<longleftrightarrow> clean_entry home entry s \<and>
     (case raft_apply types [entry] s of (Err _, _) \<Rightarrow> True | (Ok _, s') \<Rightarrow> clean_log types home entries s')"

lemma raft_apply_Cons:
  "raft_apply types (entry # entries) s =
     (case raft_apply types [entry] s of
        (Err e, s1) \<Rightarrow> (Err e, s1)
      | (Ok xs, s1) \<Rightarrow> (case raft_apply types entries s1 of (Err e, s2) \<Rightarrow> (Err e, s2) | (Ok ys, s2) \<Rightarrow> (Ok (xs @ ys), s2)))"
  by (simp add: Let_def split: EntryPayload.split prod.split sum.split)

lemma same_entry:
  assumes "same_replica home a b" "clean_entry home entry a" "raft_apply types [entry] a = (r, a')"
  shows "\<exists>b'. raft_apply types [entry] b = (r, b') \<and> same_replica home a' b'"
proof (cases "le_payload entry")
  case (Normal p)
  obtain x a1 where a1: "apply_proposal p a = (x, a1)" by fastforce
  from same_proposal [OF assms(1) _ a1] assms(2) Normal obtain b1 where
    b1: "apply_proposal p b = (x, b1)" "same_replica home a1 b1" by (auto simp: clean_entry_def)
  with assms(3) Normal a1 show ?thesis by (cases x) (auto simp: Let_def same_replica_def replica_view_def)
qed (use assms in \<open>auto simp: Let_def same_replica_def replica_view_def\<close>)

lemma same_log:
  assumes "same_replica home a b" "clean_log types home entries a" "raft_apply types entries a = (r, a')"
  shows "\<exists>b'. raft_apply types entries b = (r, b') \<and> same_replica home a' b'"
  using assms
proof (induction entries arbitrary: a b r a')
  case (Cons entry entries)
  obtain x a1 where a1: "raft_apply types [entry] a = (x, a1)" by fastforce
  from same_entry [OF Cons.prems(1) _ a1] Cons.prems(2) obtain b1 where
    b1: "raft_apply types [entry] b = (x, b1)" "same_replica home a1 b1" by (auto simp del: raft_apply.simps)
  show ?case
  proof (cases x)
    case (Inl e)
    with Cons.prems(3) a1 b1 show ?thesis unfolding raft_apply_Cons [of types entry entries] by (auto simp del: raft_apply.simps)
  next
    case (Inr xs)
    obtain y a2 where a2: "raft_apply types entries a1 = (y, a2)" by fastforce
    from Cons.prems(2) a1 Inr have "clean_log types home entries a1" by (simp del: raft_apply.simps)
    from Cons.IH [OF b1(2) this a2] obtain b2 where
      b2: "raft_apply types entries b1 = (y, b2)" "same_replica home a2 b2" by blast
    from Cons.prems(3) a1 b1 Inr a2 b2 show ?thesis
      unfolding raft_apply_Cons [of types entry entries] by (cases y) (auto simp del: raft_apply.simps)
  qed
qed simp

lemma entry_ok:
  assumes "raft_apply types [entry] s = (r, s')" "replica_ok s"
  shows "replica_ok s'"
proof (cases "le_payload entry")
  case (Normal p)
  obtain x s1 where s1: "apply_proposal p s = (x, s1)" by fastforce
  with assms(1) Normal proposal_ok [OF s1 assms(2)] show ?thesis by (cases x) (auto simp: Let_def replica_ok_def)
qed (use assms in \<open>auto simp: Let_def replica_ok_def\<close>)

lemma log_ok:
  assumes "raft_apply types entries s = (r, s')" "replica_ok s"
  shows "replica_ok s'"
  using assms
proof (induction entries arbitrary: s r s')
  case (Cons entry entries)
  obtain x s1 where s1: "raft_apply types [entry] s = (x, s1)" by fastforce
  note ok = entry_ok [OF s1 Cons.prems(2)]
  obtain y s2 where s2: "raft_apply types entries s1 = (y, s2)" by fastforce
  from Cons.prems(1) s1 s2 ok Cons.IH [OF s2 ok] show ?case
    unfolding raft_apply_Cons [of types entry entries] by (cases x; cases y) (auto simp del: raft_apply.simps)
qed simp

lemma log_orderly:
  assumes "raft_apply types entries s = (r, s')" "orderly home (rsm_broker s)" "clean_log types home entries s"
  shows "orderly home (rsm_broker s')"
  using same_log [of home s s types entries r s'] assms by (auto simp: same_replica_def)

lemma built_snapshot:
  assumes "build_snapshot types json db (get_snapshot_builder s) = (Ok (meta, data), b)"
  shows "encode_consensus_snapshot json (BrokerState_checkpoint (sm_state (rsm_broker s))) (rsm_command_sessions s) = Ok data"
    "sm_last_log_id meta = rsm_last_applied s" "sm_last_membership meta = rsm_last_membership s"
    "persist_snapshot json db meta data (rsm_persistence s) = (Ok (), sb_persistence b)"
  using assms by (auto simp: build_snapshot_def get_snapshot_builder_def Let_def split: sum.splits prod.splits)

lemma snapshot_restores:
  assumes "redb_laws db tables" "raft_json_laws json" "replica_ok s" "orderly home (rsm_broker s)"
    and "build_snapshot types json db (get_snapshot_builder s) = (Ok (meta, data), b)" "length data < 2 ^ 64"
    and "performs codec db ops (sb_persistence b) = Some d" "db_read db d = Ok t"
  shows "\<exists>s'. raft_load types json db d ob = Ok s' \<and> same_replica home s s'"
proof -
  note built = built_snapshot [OF assms(5)]
  have stored: "snapshot_stored json meta data (tables d)"
    using persist_stores [OF assms(1,2) built(4)] stored_performs [OF assms(1) _ assms(7)] by blast
  obtain m where m: "from_checkpoint (BrokerState_checkpoint (sm_state (rsm_broker s))) = Ok m" "sm_state m = sm_state (rsm_broker s)"
    "orderly home m" by (rule recovered_orderly [OF assms(4)])
  from stored_load [OF assms(1) stored assms(8) replica_decodes [OF assms(2,3,6) built(1)], of m types ob] m(1) obtain ob' where
    "raft_load types json db d ob = Ok \<lparr>rsm_persistence = d, rsm_broker = m, rsm_command_sessions = rsm_command_sessions s,
      rsm_observation = ob', rsm_last_applied = sm_last_log_id meta, rsm_last_membership = sm_last_membership meta\<rparr>"
    by auto
  with m assms(4) built(2,3) show ?thesis by (simp add: same_replica_def replica_view_def)
qed

section \<open>Properties\<close>


lemma entry1_clean_entry: "clean_entry home1 entry1 s"
  by (simp add: clean_entry_def entry1_def clean_proposal_def proposal_legacy_def publishes_home_def fails_cleanly_def
    command_conversions NamespaceId_new_def validate_identifier_def MAX_IDENTIFIER_BYTES_def is_ascii_alphanumeric_def)

lemma entry1_clean: "clean_log types1 home1 [entry1, entry1] s"
  by (simp del: raft_apply.simps add: entry1_clean_entry split: prod.split sum.split)

lemma entry1_applies: "replica_ok s \<Longrightarrow> \<exists>xs s'. raft_apply types1 [entry1] s = (Ok xs, s')"
  using log_serves [of s "[ensure_ns1]" "[entry1]" types1]
  by (auto simp: replica_ok_def ensure_ns1_def is_ascii_alphanumeric_def proposal_try_from_def to_replicated_command_def usize_to_u64_def
    entry1_def simp del: raft_apply.simps serve.simps)


section \<open>Where replicas part\<close>

definition claim_proposal :: "u64 \<Rightarrow> ReplicatedBrokerProposalV1" where
  "claim_proposal now = proposal_legacy (ClaimTaskV1 ''g'' ''m'' 1 1 ''l'' now 100)"

definition ready_replica :: "(unit, u64, unit) AgentBrokerRaftStateMachine" where
  "ready_replica = replica0\<lparr>rsm_broker := ready_broker\<rparr>"

lemma answerable_run: "list_all command_ok cs \<Longrightarrow> answerable m \<Longrightarrow> answerable (run_commands cs m)"
  by (induction cs arbitrary: m) (simp_all add: run_commands_def answerable_apply)

lemma ready_answerable: "answerable ready_broker"
  unfolding ready_broker_def
  by (rule answerable_run)
    (simp_all add: default_answerable ensure_ns1_def publish1_def publish2_def ensure_gid1_def join1_def is_ascii_alphanumeric_def
      valid_text_def MAX_OBJECTIVE_BYTES_def normalized_def is_blank_def white_space_1_def white_space_2_def white_space_3_def)

lemma claim_try_from: "proposal_try_from (ClaimTask (claim1_command\<lparr>ct_now_ms := now\<rparr>)) = Ok (claim_proposal now)"
  by (simp add: proposal_try_from_def to_replicated_command_def claim_proposal_def claim1_command_def)

lemma claim_command_ok: "command_ok (ClaimTask (claim1_command\<lparr>ct_now_ms := now\<rparr>))"
  by (simp add: claim1_command_def is_ascii_alphanumeric_def)

lemma claim_applied:
  assumes "answerable (rsm_broker s)" "broker_apply (ClaimTask (claim1_command\<lparr>ct_now_ms := now\<rparr>)) (rsm_broker s) = (r, m)"
  shows "\<exists>x. apply_proposal (claim_proposal now) s = (Ok x, s\<lparr>rsm_broker := m\<rparr>) \<and>
    into_application_result x = Ok (answered (application_result r))"
  using legacy_proposal [OF assms(1) claim_command_ok claim_try_from] assms(2) by (metis fst_conv snd_conv)


end
