(* ===== verification/Spec2Isabelle.thy ===== *)
theory Spec2Isabelle
  imports Policy Broker_Guarantees Standalone Raft_Recovery
begin

text \<open>
  A verification library for the agent broker: a task queue whose consumers form groups, claim tasks under
  leases and are fenced by terms, generations and lease epochs, built as a deterministic state machine
  that runs alone with a journal or replicated under Raft.  Paths below are relative to \<open>src/crates\<close>.

  \<^bold>\<open>The program and the theories.\<close>  Commands of the domain are applied to the state machine, which answers with
  a result and a change set.  The application service builds commands and hands them to a consensus
  adapter.  The standalone adapter applies a command, writes the change set to the journal and then
  acknowledges it; the replicated one puts the command into a log and every replica applies the entry.

  \<^item> \<open>Prelude\<close>: results (\<open>Ok\<close> and \<open>Err\<close>, \<open>try_r\<close> for \<open>?\<close>, \<open>try_fold\<close> for a loop with \<open>?\<close>), checked 64-bit addition,
    ordered maps as finite maps, binary search, decimal printing.  \<open>Transitions\<close>: runs and reachable states
    of a step relation, with the locales for invariants and for relations that every step keeps.
  \<^item> \<open>Identifiers\<close>, \<open>Fencing\<close>, \<open>Policy\<close>: \<open>agent-broker-domain/src/identifiers.rs\<close>, \<open>fencing.rs\<close>, \<open>policy.rs\<close> and
    \<open>quorum.rs\<close>.  \<open>Task\<close>: \<open>task.rs\<close>, one task and its lease.  \<open>Group\<close> and \<open>Coordinator\<close>: \<open>group.rs\<close> and
    \<open>group/coordinator.rs\<close>.  \<open>Commands\<close>: \<open>commands.rs\<close> and \<open>results.rs\<close>.  \<open>Min_Heap\<close>: the binary heap the indexes use.
  \<^item> \<open>State_Machine\<close>: \<open>state_machine.rs\<close>; the record \<open>BrokerStateMachine\<close> has the state and the derived indexes,
    one definition per command handler, \<open>broker_apply\<close> for \<open>apply\<close>.
  \<^item> \<open>Broker_Inv\<close>, \<open>Broker_Steps\<close>, \<open>Broker_Preserve\<close>, \<open>Broker_Reap\<close>, \<open>Broker_Lease\<close>, \<open>Broker_Apply\<close>: the invariant of state
    and indexes, and that every handler keeps it, on every branch.  \<open>Broker_Effects\<close>, \<open>Broker_Runs\<close>: what a
    command may do to each task, group and counter, for single commands and for runs.  \<open>Broker_Retry\<close>:
    repeated commands.  \<open>Scenario\<close>: a small broker on which the examples are evaluated.
    \<open>Broker_Guarantees\<close>: the properties of the broker.
  \<^item> \<open>Recovery\<close>: checkpoints and the reconstruction of the indexes.  \<open>Broker_Determinism\<close>: two brokers with the
    same state answer alike, whatever their heaps look like.  \<open>Broker_Values\<close>: everything stored was
    validated, so it can be written and read back.
  \<^item> \<open>Snapshot\<close>, \<open>Journal\<close>, \<open>Repository\<close>: \<open>agent-broker-storage/src/snapshot_v1.rs\<close>, \<open>journal_v1.rs\<close>,
    \<open>repository.rs\<close> and \<open>filesystem_durability.rs\<close>.
  \<^item> \<open>Application\<close>, \<open>Service\<close>: \<open>agent-broker-application/src\<close>.  \<open>Standalone\<close>:
    \<open>agent-broker-consensus/src/standalone.rs\<close>, and the composition of service, adapter, broker and journal.
  \<^item> \<open>Replicated_Command\<close>, \<open>Replicated_Response\<close>, \<open>Broker_Answers\<close>: \<open>agent-broker-consensus/src/replicated_command.rs\<close>,
    \<open>replicated_proposal.rs\<close> and \<open>replicated_response.rs\<close>, and that every answer of the broker fits into a response.
  \<^item> \<open>Raft_Persistence\<close>, \<open>Raft_Log_Storage\<close>: \<open>raft_persistence.rs\<close> and \<open>raft_log_storage.rs\<close>, the durable Raft log.
  \<^item> \<open>Raft_State_Machine\<close>, \<open>Raft_Sessions\<close>, \<open>Raft_Snapshot\<close>, \<open>Raft_Recovery\<close>: \<open>raft_state_machine.rs\<close> and
    \<open>raft_observation.rs\<close>: applying log entries, command sessions, consensus snapshots, restored replicas.

  \<^bold>\<open>What is shown.\<close>  Every reachable broker satisfies the invariant; leases have one owner, and a holder that
  lost its lease, its generation or its term is refused for good; claims return the oldest work and
  succeed when there is work; reaping, pruning and leaving affect exactly the entities they should; change
  sets and revisions account for every change; failing commands other than claims change nothing.  A
  checkpoint restores a broker that cannot be told from the original.  A standalone broker that crashes
  at any file operation restarts with every acknowledged command.  A replica answers its log as the broker
  would; an identified command takes effect once; a session that changed hands fences its former owner; a
  replica restored from a snapshot answers the rest of the log as the one that wrote it; the stored log
  behaves as a map from indexes to entries.  Four theorems record where the code falls short: a claim
  whose deadline overflows, alone, before a crash and in a replica, and a claim that crosses namespaces.

  \<^bold>\<open>Choices.\<close>  \<open>u64\<close> is \<open>64 word\<close>, and every addition of the source is checked, wrapping or saturating as written
  there; \<open>usize\<close> is a natural number, with the 64-bit bound written out where a conversion or an addition
  checks it.  Strings are lists of bytes.  A \<open>BTreeMap\<close> is a finite map that is read in key order.  Loops are
  structural recursion, or recursion with a termination proof (binary search, replay of the journal,
  pruning); no definition uses fuel, so every operation is total.

  \<^bold>\<open>Parameters.\<close>  Code outside the repository is an argument.  The JSON library: what it encoded it decodes to
  the same value (\<open>json_laws\<close>, \<open>codec_laws\<close>, \<open>raft_json_laws\<close>).  The file system: each operation succeeds or fails
  at any point, with the durable content that the operation leaves (\<open>Repository\<close>).  The database of
  the Raft log: a read shows the committed tables, a transaction applies all of its writes or none
  (\<open>redb_laws\<close>).  The Raft library: log identifiers with an index, entries, memberships (\<open>raft_types\<close>).

  \<^bold>\<open>Conditions.\<close>  That a restored broker or replica answers as the original is shown for runs in which a task
  is always published to the same namespace and a failing claim fails before it has an effect; without
  these two conditions it is false, as the last theorems show.

  \<^bold>\<open>Not modelled.\<close>  Starting and driving the Raft library (\<open>cluster_raft.rs\<close>, \<open>one_node_raft.rs\<close>): controller threads,
  timers and the library's own elections.  Transport and TLS (\<open>cluster_transport.rs\<close>, \<open>cluster_tls.rs\<close>,
  \<open>one_node_network.rs\<close>): sockets and certificates.  The wire protocol and its dispatch
  (\<open>agent-broker-protocol\<close>), the Rust and Python clients, and the runtime with its server, locks and
  maintenance threads: JSON records, sockets and threads around the service, which is where the model
  begins.  Developer tooling.
\<close>

section \<open>Fencing\<close>

text \<open>
  C38: A task that has been returned to the queue fences its former holder for good.  Whatever
  happens to the task afterwards (claims, renewals, completions, expiries, departures of members),
  no fence carrying the lease epoch the task was queued with, or an older one, is accepted again.
\<close>

theorem requeued_holder_stays_fenced:
  assumes "task_state t = TaskState.Queued q"
    and "task_step\<^sup>*\<^sup>* t t'"
    and "fence_lease_epoch f \<le> queued_lease_epoch q"
  shows "\<exists>e. require_active_lease t' f = Err e"
  using requeued_fence_rejected [OF assms] by (cases "require_active_lease t' f") auto

theorem requeued_holder_stays_fenced_witness:
  "\<exists>e. require_active_lease
     (Task_new (TaskId ''t'') (NamespaceId ''n'') ''work'' 5)
     \<lparr>fence_lease_id = LeaseId ''l'', fence_owner_member_id = ConsumerId ''m'',
      fence_group_id = ConsumerGroupId ''g'', fence_generation = 1, fence_lease_epoch = 0,
      fence_observed_at_ms = 7\<rparr> = Err e"
  by (rule requeued_holder_stays_fenced
        [of "Task_new (TaskId ''t'') (NamespaceId ''n'') ''work'' 5" "\<lparr>queued_lease_epoch = 0\<rparr>"])
    (simp_all add: Task_new_def)

end
